(* ===== verification/Prelude.thy ===== *)
theory Prelude
  imports Main "HOL-Library.Word"
begin

section \<open>Shared vocabulary\<close>

text \<open>
  The vocabulary every component uses: the machine integers of the Go sources, the values that
  stand for Go's \<open>error\<close>, the \<^theory_text>\<open>named_theorems\<close> collections the component proofs draw
  on, and the generic facts on signed words, lists and maps that several components need.

  Go's \<open>int32\<close> and \<open>int64\<close> are two's complement words: addition and multiplication wrap, every
  comparison of the sources is the signed one and is written here through \<^term>\<open>sint\<close>.
  \<open>time.Duration\<close> is an \<open>int64\<close> count of nanoseconds.  A \<open>string\<close>, a \<open>[]byte\<close> and a
  \<open>json.RawMessage\<close> are byte strings, that is a \<^typ>\<open>string\<close> of HOL.
\<close>

type_synonym int32 = "32 word"
type_synonym int64 = "64 word"
type_synonym duration = "64 word"
type_synonym bytes = string

text \<open>
  A Go \<open>error\<close>: its message, and what \<open>errors.Is\<close> answers for the two sentinels of package
  \<open>context\<close> the sources test for.  A nil error is \<^term>\<open>None\<close>.
\<close>

record go_error =
  err_Error :: string
  err_Is_Canceled :: bool
  err_Is_DeadlineExceeded :: bool

definition errors_New :: "string \<Rightarrow> go_error" where
  "errors_New m = \<lparr>err_Error = m, err_Is_Canceled = False, err_Is_DeadlineExceeded = False\<rparr>"

named_theorems budget_simps \<open>facts on budgets and usage\<close>
named_theorems json_simps \<open>facts on JSON documents and redaction\<close>
named_theorems loop_simps \<open>one-step facts on the plan-act-observe loop\<close>

subsection \<open>Signed machine words\<close>

lemma sint_i32_bounds: "- (2 ^ 31) \<le> sint (a :: int32)" "sint (a :: int32) < 2 ^ 31"
  using sint_greater_eq [of a] sint_less [of a] by simp_all

lemma sint_i64_bounds: "- (2 ^ 63) \<le> sint (a :: int64)" "sint (a :: int64) < 2 ^ 63"
  using sint_greater_eq [of a] sint_less [of a] by simp_all

lemma sint_antisym: "\<not> sint a < sint b \<Longrightarrow> \<not> sint b < sint a \<Longrightarrow> a = (b :: 'a::len word)"
  by (rule signed_word_eqI) simp

lemma sint_0_iff [simp]: "sint (a :: 'a::len word) = 0 \<longleftrightarrow> a = 0"
  using signed_word_eqI [of a 0] by auto

lemma sint_add_i32:
  assumes "- (2 ^ 31) \<le> sint (a :: int32) + sint b" and "sint a + sint b < 2 ^ 31"
  shows "sint (a + b) = sint a + sint b"
  using assms by (simp add: sint_word_ariths signed_take_bit_int_eq_self)

lemma sint_add_i64:
  assumes "- (2 ^ 63) \<le> sint (a :: int64) + sint b" and "sint a + sint b < 2 ^ 63"
  shows "sint (a + b) = sint a + sint b"
  using assms by (simp add: sint_word_ariths signed_take_bit_int_eq_self)

lemma sint_mult_i64:
  assumes "- (2 ^ 63) \<le> sint (a :: int64) * sint b" and "sint a * sint b < 2 ^ 63"
  shows "sint (a * b) = sint a * sint b"
  using assms by (simp add: sint_word_ariths signed_take_bit_int_eq_self)

lemma sint_scast_32_64 [simp]: "sint (scast (w :: int32) :: int64) = sint w"
  by (rule sint_up_scast) (simp add: is_up)

end
