(* ===== verification/Budget.thy ===== *)
theory Budget
  imports Prelude
begin

section \<open>Budgets and usage\<close>

text \<open>
  The per-agent resource cap of \<open>pkg/agentmodel/v1/budget.go\<close>: the four axes, the accounting
  record the runtime keeps, and the pre-check it makes before every step.
\<close>

record Budget =
  MaxSteps :: int32
  MaxTokens :: int64
  MaxWallClockSeconds :: int32
  MaxToolCalls :: int32

record Usage =
  Steps :: int32
  Tokens :: int64
  ToolCalls :: int32
  WallClockUsed :: duration
  CostUSDMilli :: int64

definition zero_Usage :: Usage where
  "zero_Usage = \<lparr>Steps = 0, Tokens = 0, ToolCalls = 0, WallClockUsed = 0, CostUSDMilli = 0\<rparr>"

text \<open>The joined error of \<open>Validate\<close> is the list of its messages; it is nil when the list is empty.\<close>

definition Budget_Validate :: "Budget \<Rightarrow> string list" where
  "Budget_Validate b =
     (if sint (MaxSteps b) \<le> 0 then [''budget.maxSteps must be > 0''] else [])
   @ (if sint (MaxTokens b) \<le> 0 then [''budget.maxTokens must be > 0''] else [])
   @ (if sint (MaxWallClockSeconds b) \<le> 0 then [''budget.maxWallClockSeconds must be > 0''] else [])
   @ (if sint (MaxToolCalls b) < 0 then [''budget.maxToolCalls must be >= 0''] else [])"

datatype BudgetExceededError = BudgetExceededError (Axis: string)

abbreviation time_Second :: duration where
  "time_Second \<equiv> 1000000000"

definition AllowsStep :: "Budget \<Rightarrow> Usage \<Rightarrow> int64 \<Rightarrow> int32 \<Rightarrow> BudgetExceededError option" where
  "AllowsStep b used deltaTokens deltaToolCalls =
     (if sint (Steps used + 1) > sint (MaxSteps b) then Some (BudgetExceededError ''steps'')
      else if sint (Tokens used + deltaTokens) > sint (MaxTokens b)
        then Some (BudgetExceededError ''tokens'')
      else if sint (WallClockUsed used) \<ge> sint (scast (MaxWallClockSeconds b) * time_Second)
        then Some (BudgetExceededError ''wallclock'')
      else if sint (ToolCalls used + deltaToolCalls) > sint (MaxToolCalls b)
        then Some (BudgetExceededError ''toolCalls'')
      else None)"

definition Usage_Add :: "Usage \<Rightarrow> int64 \<Rightarrow> int32 \<Rightarrow> duration \<Rightarrow> Usage" where
  "Usage_Add u deltaTokens deltaToolCalls deltaWall =
     \<lparr>Steps = Steps u + 1, Tokens = Tokens u + deltaTokens,
      ToolCalls = ToolCalls u + deltaToolCalls, WallClockUsed = WallClockUsed u + deltaWall,
      CostUSDMilli = 0\<rparr>"

text \<open>
  What a budget promises of a usage on the three counted axes, and the same with the
  unbounded integers in place of the machine words.
\<close>

definition within_budget :: "Budget \<Rightarrow> Usage \<Rightarrow> bool" where
  "within_budget b u \<longleftrightarrow>
     sint (Steps u) \<le> sint (MaxSteps b) \<and> sint (Tokens u) \<le> sint (MaxTokens b)
     \<and> sint (ToolCalls u) \<le> sint (MaxToolCalls b)"

subsection \<open>The deadline never overflows\<close>

lemma deadline_exact [budget_simps]:
  "sint (scast (w :: int32) * time_Second) = sint w * 1000000000"
proof -
  have "- (2 ^ 31) \<le> sint w" "sint w < 2 ^ 31" by (rule sint_i32_bounds)+
  then show ?thesis by (subst sint_mult_i64) simp_all
qed

subsection \<open>The pre-check\<close>

lemma AllowsStep_None_iff [budget_simps]:
  "AllowsStep b u dt dc = None \<longleftrightarrow>
     sint (Steps u + 1) \<le> sint (MaxSteps b) \<and> sint (Tokens u + dt) \<le> sint (MaxTokens b)
     \<and> sint (WallClockUsed u) < sint (MaxWallClockSeconds b) * 1000000000
     \<and> sint (ToolCalls u + dc) \<le> sint (MaxToolCalls b)"
  by (auto simp: AllowsStep_def deadline_exact)

lemma Validate_nil_iff [budget_simps]:
  "Budget_Validate b = [] \<longleftrightarrow>
     0 < sint (MaxSteps b) \<and> 0 < sint (MaxTokens b) \<and> 0 < sint (MaxWallClockSeconds b)
     \<and> 0 \<le> sint (MaxToolCalls b)"
  by (auto simp: Budget_Validate_def)

lemma zero_Usage_within: "Budget_Validate b = [] \<Longrightarrow> within_budget b zero_Usage"
  by (auto simp: within_budget_def zero_Usage_def budget_simps)



end
