(* ===== verification/Policy.thy ===== *)
theory Policy
  imports Budget "HOL-Library.Multiset"
begin

section \<open>Policy composition\<close>

text \<open>
  \<open>pkg/agentmodel/v1/policy.go\<close>: all the AgentPolicies of a namespace fold into one effective
  policy, which the admission webhook and the reconcile-time gate consult.  A Go
  \<open>map[string]struct{}\<close> is a set of strings; a nil \<open>*Budget\<close> is \<^term>\<open>None\<close>.
\<close>

record AgentPolicySpec =
  AllowedProviders :: "string list"
  AllowedTools :: "string list"
  MaxBudget :: "Budget option"
  Redaction :: "string list option"

record EffectivePolicy =
  eff_Providers :: "string set"
  eff_Tools :: "string set"
  eff_Budget :: "Budget option"
  eff_Patterns :: "string list"
  eff_Empty :: bool

definition minSetInt32 :: "int32 \<Rightarrow> int32 \<Rightarrow> int32" where
  "minSetInt32 a b =
     (if a = 0 then b else if b = 0 then a else if sint a < sint b then a else b)"

definition minSetInt64 :: "int64 \<Rightarrow> int64 \<Rightarrow> int64" where
  "minSetInt64 a b =
     (if a = 0 then b else if b = 0 then a else if sint a < sint b then a else b)"

fun minBudget :: "Budget option \<Rightarrow> Budget option \<Rightarrow> Budget option" where
  "minBudget None b = b"
| "minBudget (Some a) None = Some a"
| "minBudget (Some a) (Some b) =
     Some \<lparr>MaxSteps = minSetInt32 (MaxSteps a) (MaxSteps b),
           MaxTokens = minSetInt64 (MaxTokens a) (MaxTokens b),
           MaxWallClockSeconds = minSetInt32 (MaxWallClockSeconds a) (MaxWallClockSeconds b),
           MaxToolCalls = minSetInt32 (MaxToolCalls a) (MaxToolCalls b)\<rparr>"

text \<open>The two inner loops: add the non-empty names to a set, and append the unseen patterns.\<close>

fun add_names :: "string list \<Rightarrow> string set \<Rightarrow> string set" where
  "add_names [] S = S"
| "add_names (x # xs) S = add_names xs (if x \<noteq> [] then insert x S else S)"

fun add_patterns :: "string list \<Rightarrow> string set \<Rightarrow> string list \<Rightarrow> string set \<times> string list" where
  "add_patterns [] seen out = (seen, out)"
| "add_patterns (p # ps) seen out =
     (if p = [] then add_patterns ps seen out
      else if p \<in> seen then add_patterns ps seen out
      else add_patterns ps (insert p seen) (out @ [p]))"

definition compose_one ::
  "EffectivePolicy \<times> string set \<Rightarrow> AgentPolicySpec \<Rightarrow> EffectivePolicy \<times> string set" where
  "compose_one acc p =
     (let (eff, seenPat) = acc;
          eff = eff\<lparr>eff_Providers := add_names (AllowedProviders p) (eff_Providers eff)\<rparr>;
          eff = eff\<lparr>eff_Tools := add_names (AllowedTools p) (eff_Tools eff)\<rparr>;
          eff = (if MaxBudget p \<noteq> None
                 then eff\<lparr>eff_Budget := minBudget (eff_Budget eff) (MaxBudget p)\<rparr> else eff)
      in case Redaction p of
           None \<Rightarrow> (eff, seenPat)
         | Some pats \<Rightarrow>
             (let (seenPat, out) = add_patterns pats seenPat (eff_Patterns eff)
              in (eff\<lparr>eff_Patterns := out\<rparr>, seenPat)))"

definition ComposePolicies :: "AgentPolicySpec list \<Rightarrow> EffectivePolicy" where
  "ComposePolicies policies =
     (let (eff, _) = foldl compose_one
            (\<lparr>eff_Providers = {}, eff_Tools = {}, eff_Budget = None, eff_Patterns = [],
              eff_Empty = False\<rparr>, {}) policies
      in eff\<lparr>eff_Empty := eff_Providers eff = {} \<and> eff_Tools eff = {} \<and> eff_Budget eff = None
                         \<and> eff_Patterns eff = []\<rparr>)"

definition AllowsProvider :: "EffectivePolicy \<Rightarrow> string \<Rightarrow> bool" where
  "AllowsProvider e providerRef = (if eff_Providers e = {} then True else providerRef \<in> eff_Providers e)"

definition AllowsTool :: "EffectivePolicy \<Rightarrow> string \<Rightarrow> bool" where
  "AllowsTool e tool = (if eff_Tools e = {} then True else tool \<in> eff_Tools e)"

definition CapBudget :: "EffectivePolicy \<Rightarrow> Budget \<Rightarrow> bool \<times> string" where
  "CapBudget e want =
     (case eff_Budget e of
        None \<Rightarrow> (True, '''')
      | Some b \<Rightarrow>
          if 0 < sint (MaxSteps b) \<and> sint (MaxSteps want) > sint (MaxSteps b)
            then (False, ''steps'')
          else if 0 < sint (MaxTokens b) \<and> sint (MaxTokens want) > sint (MaxTokens b)
            then (False, ''tokens'')
          else if 0 < sint (MaxWallClockSeconds b)
                  \<and> sint (MaxWallClockSeconds want) > sint (MaxWallClockSeconds b)
            then (False, ''wallclock'')
          else if 0 < sint (MaxToolCalls b) \<and> sint (MaxToolCalls want) > sint (MaxToolCalls b)
            then (False, ''toolCalls'')
          else (True, ''''))"

subsection \<open>Minimum over the set axes is a semilattice with the unset axis as its unit\<close>

interpretation min32: semilattice_neutr minSetInt32 "0 :: int32"
  by unfold_locales (auto simp: minSetInt32_def intro: sint_antisym)

interpretation min64: semilattice_neutr minSetInt64 "0 :: int64"
  by unfold_locales (auto simp: minSetInt64_def intro: sint_antisym)

interpretation minB: semilattice_neutr minBudget "None :: Budget option"
proof unfold_locales
  fix a b c :: "Budget option"
  show "minBudget (minBudget a b) c = minBudget a (minBudget b c)"
    by (cases a; cases b; cases c) (simp_all add: min32.assoc min64.assoc)
  show "minBudget a b = minBudget b a"
    by (cases a; cases b) (simp_all add: min32.commute min64.commute)
  show "minBudget a a = a" by (cases a) simp_all
  show "minBudget a None = a" by (cases a) simp_all
qed

subsection \<open>What the fold computes\<close>

lemma add_names_eq: "add_names xs S = S \<union> {x \<in> set xs. x \<noteq> []}"
  by (induction xs arbitrary: S) auto

lemma add_patterns_inv:
  "distinct out \<Longrightarrow> add_patterns ps (set out) out = (seen', out') \<Longrightarrow>
     seen' = set out' \<and> distinct out' \<and> set out' = set out \<union> {p \<in> set ps. p \<noteq> []}"
proof (induction ps arbitrary: out)
  case Nil
  then show ?case by auto
next
  case (Cons p ps)
  show ?case
  proof (cases "p = [] \<or> p \<in> set out")
    case True
    with Cons.prems have "add_patterns ps (set out) out = (seen', out')" by (auto split: if_splits)
    from Cons.IH [OF Cons.prems(1) this] True show ?thesis by auto
  next
    case False
    with Cons.prems have "add_patterns ps (set (out @ [p])) (out @ [p]) = (seen', out')" by auto
    from Cons.IH [OF _ this] False Cons.prems(1) show ?thesis by auto
  qed
qed

definition all_patterns :: "AgentPolicySpec \<Rightarrow> string set" where
  "all_patterns p = (case Redaction p of None \<Rightarrow> {} | Some ps \<Rightarrow> {x \<in> set ps. x \<noteq> []})"

lemma if_MaxBudget_eq:
  "(if MaxBudget p \<noteq> None then eff\<lparr>eff_Budget := minBudget (eff_Budget eff) (MaxBudget p)\<rparr> else eff)
   = eff\<lparr>eff_Budget := minBudget (eff_Budget eff) (MaxBudget p)\<rparr>" for eff :: EffectivePolicy
  by (simp add: minB.right_neutral)

lemma compose_one_parts:
  assumes one: "compose_one (eff, set (eff_Patterns eff)) p = (eff', seen')"
    and d: "distinct (eff_Patterns eff)"
  shows "eff_Providers eff' = eff_Providers eff \<union> {x \<in> set (AllowedProviders p). x \<noteq> []}
    \<and> eff_Tools eff' = eff_Tools eff \<union> {x \<in> set (AllowedTools p). x \<noteq> []}
    \<and> eff_Budget eff' = minBudget (eff_Budget eff) (MaxBudget p)
    \<and> seen' = set (eff_Patterns eff') \<and> distinct (eff_Patterns eff')
    \<and> set (eff_Patterns eff') = set (eff_Patterns eff) \<union> all_patterns p"
proof (cases "Redaction p")
  case None
  from one d show ?thesis
    unfolding compose_one_def Let_def if_MaxBudget_eq None
    by (clarsimp simp: add_names_eq all_patterns_def None)
next
  case (Some pats)
  obtain s o' where a: "add_patterns pats (set (eff_Patterns eff)) (eff_Patterns eff) = (s, o')"
    by fastforce
  note inv = add_patterns_inv [OF d a]
  from one a have "eff' = eff\<lparr>eff_Providers := add_names (AllowedProviders p) (eff_Providers eff),
      eff_Tools := add_names (AllowedTools p) (eff_Tools eff),
      eff_Budget := minBudget (eff_Budget eff) (MaxBudget p), eff_Patterns := o'\<rparr>" and "seen' = s"
    unfolding compose_one_def Let_def if_MaxBudget_eq Some by simp_all
  with inv show ?thesis by (simp add: add_names_eq all_patterns_def Some)
qed

lemma compose_fold_parts:
  "foldl compose_one (eff, set (eff_Patterns eff)) ps = (eff', seen') \<Longrightarrow>
   distinct (eff_Patterns eff) \<Longrightarrow>
     eff_Providers eff' = eff_Providers eff \<union> (\<Union>p\<in>set ps. {x \<in> set (AllowedProviders p). x \<noteq> []})
   \<and> eff_Tools eff' = eff_Tools eff \<union> (\<Union>p\<in>set ps. {x \<in> set (AllowedTools p). x \<noteq> []})
   \<and> eff_Budget eff' = foldl minBudget (eff_Budget eff) (map MaxBudget ps)
   \<and> distinct (eff_Patterns eff')
   \<and> set (eff_Patterns eff') = set (eff_Patterns eff) \<union> (\<Union>p\<in>set ps. all_patterns p)"
proof (induction ps arbitrary: eff)
  case Nil
  then show ?case by simp
next
  case (Cons p ps)
  obtain e1 s1 where s: "compose_one (eff, set (eff_Patterns eff)) p = (e1, s1)" by fastforce
  note parts = compose_one_parts [OF s Cons.prems(2)]
  then have "foldl compose_one (e1, set (eff_Patterns e1)) ps = (eff', seen')"
    using Cons.prems(1) s by simp
  from Cons.IH [OF this] parts show ?case by (simp add: Un_assoc)
qed

lemma foldl_minBudget_perm:
  assumes "mset xs = mset ys"
  shows "foldl minBudget a xs = foldl minBudget a ys"
proof -
  have "fold minBudget xs = fold minBudget ys"
    by (rule fold_multiset_equiv [OF _ assms]) (auto simp: fun_eq_iff minB.left_commute)
  moreover have "foldl minBudget a zs = fold minBudget zs a" for zs
    by (simp add: foldl_conv_fold minB.commute)
  ultimately show ?thesis by simp
qed

lemma ComposePolicies_parts:
  "eff_Providers (ComposePolicies ps) = (\<Union>p\<in>set ps. {x \<in> set (AllowedProviders p). x \<noteq> []})"
  "eff_Tools (ComposePolicies ps) = (\<Union>p\<in>set ps. {x \<in> set (AllowedTools p). x \<noteq> []})"
  "eff_Budget (ComposePolicies ps) = foldl minBudget None (map MaxBudget ps)"
  "distinct (eff_Patterns (ComposePolicies ps))"
  "set (eff_Patterns (ComposePolicies ps)) = (\<Union>p\<in>set ps. all_patterns p)"
  "eff_Empty (ComposePolicies ps) \<longleftrightarrow>
     eff_Providers (ComposePolicies ps) = {} \<and> eff_Tools (ComposePolicies ps) = {}
     \<and> eff_Budget (ComposePolicies ps) = None \<and> eff_Patterns (ComposePolicies ps) = []"
proof -
  define e0 :: EffectivePolicy where
    "e0 = \<lparr>eff_Providers = {}, eff_Tools = {}, eff_Budget = None, eff_Patterns = [],
           eff_Empty = False\<rparr>"
  obtain e s where f: "foldl compose_one (e0, set (eff_Patterns e0)) ps = (e, s)" by fastforce
  note parts = compose_fold_parts [OF f]
  have c: "ComposePolicies ps = e\<lparr>eff_Empty := eff_Providers e = {} \<and> eff_Tools e = {}
      \<and> eff_Budget e = None \<and> eff_Patterns e = []\<rparr>"
    using f by (simp add: ComposePolicies_def e0_def)
  show "eff_Providers (ComposePolicies ps) = (\<Union>p\<in>set ps. {x \<in> set (AllowedProviders p). x \<noteq> []})"
    "eff_Tools (ComposePolicies ps) = (\<Union>p\<in>set ps. {x \<in> set (AllowedTools p). x \<noteq> []})"
    "eff_Budget (ComposePolicies ps) = foldl minBudget None (map MaxBudget ps)"
    "distinct (eff_Patterns (ComposePolicies ps))"
    "set (eff_Patterns (ComposePolicies ps)) = (\<Union>p\<in>set ps. all_patterns p)"
    using parts by (simp_all add: c e0_def)
  show "eff_Empty (ComposePolicies ps) \<longleftrightarrow>
     eff_Providers (ComposePolicies ps) = {} \<and> eff_Tools (ComposePolicies ps) = {}
     \<and> eff_Budget (ComposePolicies ps) = None \<and> eff_Patterns (ComposePolicies ps) = []"
    by (simp add: c)
qed

subsection \<open>The composed cap is the conjunction of the caps\<close>

text \<open>One axis: a cap of 0 is unset, a positive cap bounds the request.\<close>

definition axis_ok :: "int \<Rightarrow> int \<Rightarrow> bool" where
  "axis_ok cap w \<longleftrightarrow> \<not> (0 < cap \<and> cap < w)"

lemma axis_ok_min32:
  "0 \<le> sint a \<Longrightarrow> 0 \<le> sint b \<Longrightarrow>
   axis_ok (sint (minSetInt32 a b)) w \<longleftrightarrow> axis_ok (sint a) w \<and> axis_ok (sint b) w"
  by (auto simp: axis_ok_def minSetInt32_def)

lemma axis_ok_min64:
  "0 \<le> sint a \<Longrightarrow> 0 \<le> sint b \<Longrightarrow>
   axis_ok (sint (minSetInt64 a b)) w \<longleftrightarrow> axis_ok (sint a) w \<and> axis_ok (sint b) w"
  by (auto simp: axis_ok_def minSetInt64_def)

definition budget_ok :: "Budget option \<Rightarrow> Budget \<Rightarrow> bool" where
  "budget_ok c want = (case c of None \<Rightarrow> True | Some b \<Rightarrow>
     axis_ok (sint (MaxSteps b)) (sint (MaxSteps want))
     \<and> axis_ok (sint (MaxTokens b)) (sint (MaxTokens want))
     \<and> axis_ok (sint (MaxWallClockSeconds b)) (sint (MaxWallClockSeconds want))
     \<and> axis_ok (sint (MaxToolCalls b)) (sint (MaxToolCalls want)))"

definition nonneg_cap :: "Budget option \<Rightarrow> bool" where
  "nonneg_cap c = (case c of None \<Rightarrow> True | Some b \<Rightarrow>
     0 \<le> sint (MaxSteps b) \<and> 0 \<le> sint (MaxTokens b) \<and> 0 \<le> sint (MaxWallClockSeconds b)
     \<and> 0 \<le> sint (MaxToolCalls b))"

lemma CapBudget_iff: "CapBudget e want = (True, '''') \<longleftrightarrow> budget_ok (eff_Budget e) want"
  by (auto simp: CapBudget_def budget_ok_def axis_ok_def split: option.splits)

lemma nonneg_min32: "0 \<le> sint a \<Longrightarrow> 0 \<le> sint b \<Longrightarrow> 0 \<le> sint (minSetInt32 a b)"
  by (simp add: minSetInt32_def)

lemma nonneg_min64: "0 \<le> sint a \<Longrightarrow> 0 \<le> sint b \<Longrightarrow> 0 \<le> sint (minSetInt64 a b)"
  by (simp add: minSetInt64_def)

lemma nonneg_minBudget: "nonneg_cap a \<Longrightarrow> nonneg_cap b \<Longrightarrow> nonneg_cap (minBudget a b)"
  by (cases a; cases b) (auto simp: nonneg_cap_def nonneg_min32 nonneg_min64)

lemma budget_ok_minBudget:
  "nonneg_cap a \<Longrightarrow> nonneg_cap b \<Longrightarrow>
   budget_ok (minBudget a b) want \<longleftrightarrow> budget_ok a want \<and> budget_ok b want"
  by (cases a; cases b)
    (auto simp: nonneg_cap_def budget_ok_def axis_ok_min32 axis_ok_min64)

lemma budget_ok_foldl:
  "nonneg_cap a \<Longrightarrow> \<forall>c \<in> set cs. nonneg_cap c \<Longrightarrow>
   budget_ok (foldl minBudget a cs) want \<longleftrightarrow> budget_ok a want \<and> (\<forall>c \<in> set cs. budget_ok c want)"
  by (induction cs arbitrary: a) (auto simp: nonneg_minBudget budget_ok_minBudget)

lemma ComposePolicies_perm:
  assumes "mset ps = mset qs"
  shows "eff_Providers (ComposePolicies ps) = eff_Providers (ComposePolicies qs)"
    and "eff_Tools (ComposePolicies ps) = eff_Tools (ComposePolicies qs)"
    and "eff_Budget (ComposePolicies ps) = eff_Budget (ComposePolicies qs)"
    and "mset (eff_Patterns (ComposePolicies ps)) = mset (eff_Patterns (ComposePolicies qs))"
    and "eff_Empty (ComposePolicies ps) = eff_Empty (ComposePolicies qs)"
proof -
  have s: "set ps = set qs" using assms by (rule mset_eq_setD)
  show p: "eff_Providers (ComposePolicies ps) = eff_Providers (ComposePolicies qs)"
    and t: "eff_Tools (ComposePolicies ps) = eff_Tools (ComposePolicies qs)"
    by (simp_all add: ComposePolicies_parts s)
  show b: "eff_Budget (ComposePolicies ps) = eff_Budget (ComposePolicies qs)"
    using assms by (simp add: ComposePolicies_parts foldl_minBudget_perm)
  have "set (eff_Patterns (ComposePolicies ps)) = set (eff_Patterns (ComposePolicies qs))"
    by (simp add: ComposePolicies_parts s)
  then show m: "mset (eff_Patterns (ComposePolicies ps)) = mset (eff_Patterns (ComposePolicies qs))"
    by (simp add: ComposePolicies_parts(4) set_eq_iff_mset_eq_distinct)
  then have "eff_Patterns (ComposePolicies ps) = [] \<longleftrightarrow> eff_Patterns (ComposePolicies qs) = []"
    by (metis mset_zero_iff)
  then show "eff_Empty (ComposePolicies ps) = eff_Empty (ComposePolicies qs)"
    by (simp add: ComposePolicies_parts(6) p t b)
qed

subsection \<open>Properties\<close>

text \<open>
  Claim C4.  Composition does not depend on the order of the policies: any reordering gives the
  same provider and tool allow-sets, the same budget cap, the same set of redaction patterns
  without duplicates, and the same emptiness verdict.
\<close>

theorem ComposePolicies_order_independent:
  assumes "mset ps = mset qs"
  shows "eff_Providers (ComposePolicies ps) = eff_Providers (ComposePolicies qs)
    \<and> eff_Tools (ComposePolicies ps) = eff_Tools (ComposePolicies qs)
    \<and> eff_Budget (ComposePolicies ps) = eff_Budget (ComposePolicies qs)
    \<and> mset (eff_Patterns (ComposePolicies ps)) = mset (eff_Patterns (ComposePolicies qs))
    \<and> eff_Empty (ComposePolicies ps) = eff_Empty (ComposePolicies qs)"
  using ComposePolicies_perm [OF assms] by simp

theorem ComposePolicies_order_independent_witness:
  "eff_Tools (ComposePolicies
     [\<lparr>AllowedProviders = [], AllowedTools = [''a''], MaxBudget = None, Redaction = None\<rparr>,
      \<lparr>AllowedProviders = [], AllowedTools = [''b''], MaxBudget = None, Redaction = None\<rparr>])
   = eff_Tools (ComposePolicies
     [\<lparr>AllowedProviders = [], AllowedTools = [''b''], MaxBudget = None, Redaction = None\<rparr>,
      \<lparr>AllowedProviders = [], AllowedTools = [''a''], MaxBudget = None, Redaction = None\<rparr>])"
  using ComposePolicies_order_independent [of
    "[\<lparr>AllowedProviders = [], AllowedTools = [''a''], MaxBudget = None, Redaction = None\<rparr>,
      \<lparr>AllowedProviders = [], AllowedTools = [''b''], MaxBudget = None, Redaction = None\<rparr>]"
    "[\<lparr>AllowedProviders = [], AllowedTools = [''b''], MaxBudget = None, Redaction = None\<rparr>,
      \<lparr>AllowedProviders = [], AllowedTools = [''a''], MaxBudget = None, Redaction = None\<rparr>]"]
  by simp

text \<open>
  Claim C5.  The effective cap admits a requested budget exactly when every single policy of the
  namespace admits it, provided no policy declares a negative axis: taking per-axis minima with
  0 as ``unset'' neither loosens nor tightens any policy.
\<close>

theorem CapBudget_conjunction:
  assumes "\<forall>p \<in> set ps. nonneg_cap (MaxBudget p)"
  shows "CapBudget (ComposePolicies ps) want = (True, '''') \<longleftrightarrow>
         (\<forall>p \<in> set ps. CapBudget (ComposePolicies [p]) want = (True, ''''))"
proof -
  have "budget_ok (foldl minBudget None (map MaxBudget ps)) want \<longleftrightarrow>
        (\<forall>p \<in> set ps. budget_ok (MaxBudget p) want)"
    using assms by (subst budget_ok_foldl) (auto simp: nonneg_cap_def budget_ok_def)
  then show ?thesis by (simp add: CapBudget_iff ComposePolicies_parts)
qed

theorem CapBudget_conjunction_witness:
  "CapBudget (ComposePolicies
     [\<lparr>AllowedProviders = [], AllowedTools = [], MaxBudget = Some \<lparr>MaxSteps = 5, MaxTokens = 0,
         MaxWallClockSeconds = 0, MaxToolCalls = 0\<rparr>, Redaction = None\<rparr>,
      \<lparr>AllowedProviders = [], AllowedTools = [], MaxBudget = Some \<lparr>MaxSteps = 3, MaxTokens = 9,
         MaxWallClockSeconds = 0, MaxToolCalls = 0\<rparr>, Redaction = None\<rparr>])
     \<lparr>MaxSteps = 3, MaxTokens = 9, MaxWallClockSeconds = 60, MaxToolCalls = 4\<rparr> = (True, '''')"
  by (subst CapBudget_conjunction)
    (simp_all add: nonneg_cap_def CapBudget_iff ComposePolicies_parts budget_ok_def axis_ok_def)

end
