(* ===== verification/Json.thy ===== *)
theory Json
  imports Prelude
begin

section \<open>What the sources use of encoding/json, bytes and unicode/utf8\<close>

text \<open>
  The byte-level routines of Go's standard library that the modelled code calls:
  \<^item> \<open>json_Valid\<close> is \<open>json.Valid\<close>, written as the library has it: a byte-driven scanner with a
    stack of open containers and the nesting limit of 10000;
  \<^item> \<open>json_quote\<close> is \<open>json.Marshal\<close> on a string: the HTML-safe escapes, the replacement
    character for bytes that are not UTF-8, and the escapes of U+2028 and U+2029;
  \<^item> \<open>bytes_TrimSpace\<close> is \<open>bytes.TrimSpace\<close>, the non-ASCII spaces of Unicode included;
  \<^item> \<open>utf8_Valid\<close> is \<open>utf8.Valid\<close>.
  They are definitions of the library, not of the repository, so they have no entry of their own
  in the map; the operations built on them have.
\<close>

abbreviation byte :: "char \<Rightarrow> nat" where
  "byte c \<equiv> of_char c"

abbreviation in_range :: "nat \<Rightarrow> nat \<Rightarrow> char \<Rightarrow> bool" where
  "in_range lo hi c \<equiv> lo \<le> byte c \<and> byte c \<le> hi"

subsection \<open>UTF-8\<close>

text \<open>The length of the well-formed rune a byte string starts with, if it starts with one.\<close>

fun utf8_rune_len :: "bytes \<Rightarrow> nat option" where
  "utf8_rune_len [] = None"
| "utf8_rune_len (a # s) =
     (if byte a < 0x80 then Some 1
      else case s of
        [] \<Rightarrow> None
      | b # s2 \<Rightarrow>
          if in_range 0xC2 0xDF a then (if in_range 0x80 0xBF b then Some 2 else None)
          else case s2 of
            [] \<Rightarrow> None
          | c # s3 \<Rightarrow>
              if in_range 0xE0 0xEF a then
                (if (if byte a = 0xE0 then in_range 0xA0 0xBF b
                     else if byte a = 0xED then in_range 0x80 0x9F b
                     else in_range 0x80 0xBF b) \<and> in_range 0x80 0xBF c
                 then Some 3 else None)
              else case s3 of
                [] \<Rightarrow> None
              | d # _ \<Rightarrow>
                  if in_range 0xF0 0xF4 a then
                    (if (if byte a = 0xF0 then in_range 0x90 0xBF b
                         else if byte a = 0xF4 then in_range 0x80 0x8F b
                         else in_range 0x80 0xBF b) \<and> in_range 0x80 0xBF c \<and> in_range 0x80 0xBF d
                     then Some 4 else None)
                  else None)"

lemma utf8_rune_len_pos: "utf8_rune_len s = Some n \<Longrightarrow> 0 < n \<and> n \<le> length s"
  by (cases s) (auto split: if_splits list.splits)

function utf8_Valid :: "bytes \<Rightarrow> bool" where
  "utf8_Valid s = (if s = [] then True
     else case utf8_rune_len s of None \<Rightarrow> False | Some n \<Rightarrow> utf8_Valid (drop n s))"
  by pat_completeness auto
termination
  by (relation "measure length") (auto dest: utf8_rune_len_pos)

declare utf8_Valid.simps [simp del]

subsection \<open>bytes.TrimSpace\<close>

text \<open>The encodings of the runes \<open>unicode.IsSpace\<close> accepts.\<close>

definition space_runes :: "nat list list" where
  "space_runes = [[9], [10], [11], [12], [13], [32], [0xC2, 0x85], [0xC2, 0xA0],
     [0xE1, 0x9A, 0x80]]
   @ map (\<lambda>k. [0xE2, 0x80, k]) [0x80, 0x81, 0x82, 0x83, 0x84, 0x85, 0x86, 0x87, 0x88, 0x89, 0x8A,
       0xA8, 0xA9, 0xAF]
   @ [[0xE2, 0x81, 0x9F], [0xE3, 0x80, 0x80]]"

definition space_prefix :: "nat list list \<Rightarrow> bytes \<Rightarrow> nat" where
  "space_prefix runes s =
     (case List.find (\<lambda>r. map byte (take (length r) s) = r) runes of
        None \<Rightarrow> 0 | Some r \<Rightarrow> length r)"

function trim_left :: "nat list list \<Rightarrow> bytes \<Rightarrow> bytes" where
  "trim_left runes s =
     (if space_prefix runes s = 0 \<or> s = [] then s
      else trim_left runes (drop (space_prefix runes s) s))"
  by pat_completeness auto
termination
  by (relation "measure (\<lambda>(_, s). length s)") auto

declare trim_left.simps [simp del]

definition bytes_TrimSpace :: "bytes \<Rightarrow> bytes" where
  "bytes_TrimSpace s = rev (trim_left (map rev space_runes) (rev (trim_left space_runes s)))"

subsection \<open>json.Valid\<close>

datatype json_ctx = ParseObjectKey | ParseObjectValue | ParseArrayValue

datatype json_state =
  BeginValue | BeginValueOrEmpty | BeginString | BeginStringOrEmpty | EndValue | EndTop
| InString | InStringEsc | InStringEscU nat
| Neg | Num1 | Num0 | Dot | Dot0 | ExpE | ExpSign | ExpE0
| Literal string

definition json_space :: "char \<Rightarrow> bool" where
  "json_space c \<longleftrightarrow> byte c \<in> {32, 9, 13, 10}"

definition json_digit :: "char \<Rightarrow> bool" where
  "json_digit c \<longleftrightarrow> in_range 48 57 c"

definition json_hex :: "char \<Rightarrow> bool" where
  "json_hex c \<longleftrightarrow> in_range 48 57 c \<or> in_range 97 102 c \<or> in_range 65 70 c"

abbreviation max_nesting :: nat where
  "max_nesting \<equiv> 10000"

definition json_push ::
  "json_state \<Rightarrow> json_ctx \<Rightarrow> json_ctx list \<Rightarrow> (json_state \<times> json_ctx list) option" where
  "json_push st c stack = (if length stack < max_nesting then Some (st, c # stack) else None)"

definition json_pop :: "json_ctx list \<Rightarrow> json_state \<times> json_ctx list" where
  "json_pop stack = (if tl stack = [] then EndTop else EndValue, tl stack)"

text \<open>The step after a complete value, used by every state a value can end in.\<close>

definition json_end_value :: "json_ctx list \<Rightarrow> char \<Rightarrow> (json_state \<times> json_ctx list) option" where
  "json_end_value stack c =
     (case stack of
        [] \<Rightarrow> if json_space c then Some (EndTop, []) else None
      | p # rest \<Rightarrow>
          if json_space c then Some (EndValue, stack)
          else case p of
            ParseObjectKey \<Rightarrow>
              if c = CHR '':'' then Some (BeginValue, ParseObjectValue # rest) else None
          | ParseObjectValue \<Rightarrow>
              if c = CHR '','' then Some (BeginString, ParseObjectKey # rest)
              else if c = CHR ''}'' then Some (json_pop stack) else None
          | ParseArrayValue \<Rightarrow>
              if c = CHR '','' then Some (BeginValue, stack)
              else if c = CHR '']'' then Some (json_pop stack) else None)"

definition json_begin_value :: "json_ctx list \<Rightarrow> char \<Rightarrow> (json_state \<times> json_ctx list) option" where
  "json_begin_value stack c =
     (if c = CHR ''{'' then json_push BeginStringOrEmpty ParseObjectKey stack
      else if c = CHR ''['' then json_push BeginValueOrEmpty ParseArrayValue stack
      else if byte c = 34 then Some (InString, stack)
      else if c = CHR ''-'' then Some (Neg, stack)
      else if c = CHR ''0'' then Some (Num0, stack)
      else if c = CHR ''t'' then Some (Literal ''rue'', stack)
      else if c = CHR ''f'' then Some (Literal ''alse'', stack)
      else if c = CHR ''n'' then Some (Literal ''ull'', stack)
      else if json_digit c then Some (Num1, stack)
      else None)"

definition json_num0 :: "json_ctx list \<Rightarrow> char \<Rightarrow> (json_state \<times> json_ctx list) option" where
  "json_num0 stack c =
     (if c = CHR ''.'' then Some (Dot, stack)
      else if c = CHR ''e'' \<or> c = CHR ''E'' then Some (ExpE, stack)
      else json_end_value stack c)"

fun json_step ::
  "json_state \<times> json_ctx list \<Rightarrow> char \<Rightarrow> (json_state \<times> json_ctx list) option" where
  "json_step (BeginValueOrEmpty, stack) c =
     (if json_space c then Some (BeginValueOrEmpty, stack)
      else if c = CHR '']'' then json_end_value stack c
      else json_begin_value stack c)"
| "json_step (BeginValue, stack) c =
     (if json_space c then Some (BeginValue, stack) else json_begin_value stack c)"
| "json_step (BeginStringOrEmpty, stack) c =
     (if json_space c then Some (BeginStringOrEmpty, stack)
      else if c = CHR ''}'' then json_end_value (ParseObjectValue # tl stack) c
      else if byte c = 34 then Some (InString, stack)
      else None)"
| "json_step (BeginString, stack) c =
     (if json_space c then Some (BeginString, stack)
      else if byte c = 34 then Some (InString, stack)
      else None)"
| "json_step (EndValue, stack) c = json_end_value stack c"
| "json_step (EndTop, stack) c = (if json_space c then Some (EndTop, stack) else None)"
| "json_step (InString, stack) c =
     (if byte c = 34 then Some (EndValue, stack)
      else if byte c = 92 then Some (InStringEsc, stack)
      else if byte c < 32 then None
      else Some (InString, stack))"
| "json_step (InStringEsc, stack) c =
     (if c \<in> {CHR ''b'', CHR ''f'', CHR ''n'', CHR ''r'', CHR ''t'', CHR ''/''}
         \<or> byte c = 92 \<or> byte c = 34 then Some (InString, stack)
      else if c = CHR ''u'' then Some (InStringEscU 4, stack)
      else None)"
| "json_step (InStringEscU n, stack) c =
     (if json_hex c then Some (if n \<le> 1 then InString else InStringEscU (n - 1), stack) else None)"
| "json_step (Neg, stack) c =
     (if c = CHR ''0'' then Some (Num0, stack)
      else if json_digit c then Some (Num1, stack) else None)"
| "json_step (Num1, stack) c = (if json_digit c then Some (Num1, stack) else json_num0 stack c)"
| "json_step (Num0, stack) c = json_num0 stack c"
| "json_step (Dot, stack) c = (if json_digit c then Some (Dot0, stack) else None)"
| "json_step (Dot0, stack) c =
     (if json_digit c then Some (Dot0, stack)
      else if c = CHR ''e'' \<or> c = CHR ''E'' then Some (ExpE, stack)
      else json_end_value stack c)"
| "json_step (ExpE, stack) c =
     (if c = CHR ''+'' \<or> c = CHR ''-'' then Some (ExpSign, stack)
      else if json_digit c then Some (ExpE0, stack) else None)"
| "json_step (ExpSign, stack) c = (if json_digit c then Some (ExpE0, stack) else None)"
| "json_step (ExpE0, stack) c =
     (if json_digit c then Some (ExpE0, stack) else json_end_value stack c)"
| "json_step (Literal w, stack) c =
     (case w of
        [] \<Rightarrow> None
      | x # xs \<Rightarrow>
          if c = x then Some (if xs = [] then EndValue else Literal xs, stack) else None)"

fun json_run ::
  "json_state \<times> json_ctx list \<Rightarrow> bytes \<Rightarrow> (json_state \<times> json_ctx list) option" where
  "json_run st [] = Some st"
| "json_run st (c # s) = (case json_step st c of None \<Rightarrow> None | Some st' \<Rightarrow> json_run st' s)"

text \<open>At the end of the input the scanner is fed one space; the value is complete if that leaves it at the top.\<close>

definition json_eof :: "json_state \<times> json_ctx list \<Rightarrow> bool" where
  "json_eof st = (case json_step st (CHR '' '') of None \<Rightarrow> False | Some (st', _) \<Rightarrow> st' = EndTop)"

definition json_Valid :: "bytes \<Rightarrow> bool" where
  "json_Valid s = (case json_run (BeginValue, []) s of None \<Rightarrow> False | Some st \<Rightarrow> json_eof st)"

subsection \<open>json.Marshal on a string\<close>

definition hex_digit :: "nat \<Rightarrow> char" where
  "hex_digit n = char_of (if n < 10 then 48 + n else 87 + n)"

abbreviation backslash :: char where
  "backslash \<equiv> CHR 0x5C"

abbreviation dquote :: char where
  "dquote \<equiv> CHR 0x22"

definition escape_byte :: "char \<Rightarrow> bytes" where
  "escape_byte c =
     (if byte c = 92 \<or> byte c = 34 then [backslash, c]
      else if byte c = 8 then backslash # ''b''
      else if byte c = 12 then backslash # ''f''
      else if byte c = 10 then backslash # ''n''
      else if byte c = 13 then backslash # ''r''
      else if byte c = 9 then backslash # ''t''
      else if byte c < 32 \<or> byte c = 38 \<or> byte c = 60 \<or> byte c = 62
        then backslash # ''u00'' @ [hex_digit (byte c div 16), hex_digit (byte c mod 16)]
      else [c])"

function json_escape :: "bytes \<Rightarrow> bytes" where
  "json_escape s =
     (case s of
        [] \<Rightarrow> []
      | c # rest \<Rightarrow>
          if byte c < 0x80 then escape_byte c @ json_escape rest
          else case utf8_rune_len s of
            None \<Rightarrow> backslash # ''ufffd'' @ json_escape rest
          | Some n \<Rightarrow>
              (if map byte (take 3 s) = [0xE2, 0x80, 0xA8] then backslash # ''u2028''
               else if map byte (take 3 s) = [0xE2, 0x80, 0xA9] then backslash # ''u2029''
               else take n s) @ json_escape (drop n s))"
  by pat_completeness auto
termination
proof (relation "measure length", goal_cases)
  case (4 s c rest n)
  then show ?case using utf8_rune_len_pos [of s n] by auto
qed auto

declare json_escape.simps [simp del]

definition json_quote :: "bytes \<Rightarrow> bytes" where
  "json_quote s = dquote # json_escape s @ [dquote]"

subsection \<open>A quoted string is a JSON document\<close>

lemma json_run_append:
  "json_run st (s @ t) = (case json_run st s of None \<Rightarrow> None | Some st' \<Rightarrow> json_run st' t)"
  by (induction s arbitrary: st) (auto split: option.splits)

lemma hex_digit_hex: "n < 16 \<Longrightarrow> json_hex (hex_digit n)"
  by (auto simp: json_hex_def hex_digit_def of_char_of)

lemma in_string_plain: "32 \<le> byte c \<Longrightarrow> byte c \<noteq> 34 \<Longrightarrow> byte c \<noteq> 92 \<Longrightarrow>
  json_step (InString, stack) c = Some (InString, stack)"
  by auto

lemma json_run_escape_byte: "json_run (InString, stack) (escape_byte c) = Some (InString, stack)"
proof -
  have "byte c < 256" by simp
  then show ?thesis
    by (auto simp: escape_byte_def hex_digit_hex json_hex_def [of "CHR ''0''"])
qed

lemma json_run_plain:
  "\<forall>c \<in> set s. 128 \<le> byte c \<Longrightarrow> json_run (InString, stack) s = Some (InString, stack)"
  by (induction s) auto

lemma utf8_rune_bytes:
  "utf8_rune_len (a # s) = Some n \<Longrightarrow> 128 \<le> byte a \<Longrightarrow> \<forall>c \<in> set (take n (a # s)). 128 \<le> byte c"
  by (auto split: if_splits list.splits simp: numeral_eq_Suc)

lemma json_run_u_escape:
  "json_hex a \<Longrightarrow> json_hex b \<Longrightarrow> json_hex c \<Longrightarrow> json_hex d \<Longrightarrow>
   json_run (InString, stack) [backslash, CHR ''u'', a, b, c, d] = Some (InString, stack)"
  by simp

lemma json_run_json_escape: "json_run (InString, stack) (json_escape s) = Some (InString, stack)"
proof (induction s rule: json_escape.induct)
  case (1 s)
  show ?case
  proof (cases s)
    case Nil
    then show ?thesis by (simp add: json_escape.simps)
  next
    case (Cons c rest)
    show ?thesis
    proof (cases "byte c < 0x80")
      case True
      have "json_escape s = escape_byte c @ json_escape rest"
        using Cons True by (subst json_escape.simps) simp
      with "1"(1) [OF Cons True] show ?thesis by (simp add: json_run_append json_run_escape_byte)
    next
      case big: False
      show ?thesis
      proof (cases "utf8_rune_len s")
        case None
        have u: "json_run (InString, stack) (backslash # ''ufffd'') = Some (InString, stack)"
          using json_run_u_escape by (simp add: json_hex_def)
        have "json_escape s = (backslash # ''ufffd'') @ json_escape rest"
          using Cons big None by (subst json_escape.simps) simp
        with "1"(2) [OF Cons big None] u show ?thesis by (simp only: json_run_append option.case)
      next
        case (Some n)
        define pre where "pre = (if map byte (take 3 s) = [0xE2, 0x80, 0xA8] then backslash # ''u2028''
               else if map byte (take 3 s) = [0xE2, 0x80, 0xA9] then backslash # ''u2029''
               else take n s)"
        have "json_run (InString, stack) (take n s) = Some (InString, stack)"
          using utf8_rune_bytes [of c rest n] Some big Cons
          by (intro json_run_plain) (simp add: not_less)
        then have pre: "json_run (InString, stack) pre = Some (InString, stack)"
          using json_run_u_escape by (simp add: pre_def json_hex_def)
        have "json_escape s = pre @ json_escape (drop n s)"
          using Cons big Some unfolding pre_def by (subst json_escape.simps) (simp del: drop_Cons')
        with "1"(3) [OF Cons big Some] pre show ?thesis by (simp only: json_run_append option.case)
      qed
    qed
  qed
qed

lemma json_Valid_quote: "json_Valid (json_quote s)"
  by (simp add: json_Valid_def json_quote_def json_begin_value_def json_space_def json_run_append
      json_run_json_escape json_eof_def json_end_value_def of_char_of)

subsection \<open>Integers\<close>

text \<open>Decimal digits of an integer, as \<open>encoding/json\<close> and \<open>%d\<close> print them.\<close>

fun show_nat :: "nat \<Rightarrow> string" where
  "show_nat n = (if n < 10 then [char_of (48 + n)] else show_nat (n div 10) @ [char_of (48 + n mod 10)])"

definition show_int :: "int \<Rightarrow> string" where
  "show_int i = (if i < 0 then CHR ''-'' # show_nat (nat (- i)) else show_nat (nat i))"

end
