(* ===== verification/AgentTypes.thy ===== *)
theory AgentTypes
  imports Budget Json
begin

section \<open>The declarative agent model\<close>

text \<open>
  The data of \<open>pkg/agentmodel/v1/types.go\<close>, \<open>harness.go\<close> and \<open>storage.go\<close> that the runtime, the
  validators and the operator read.  A Go struct is a record whose fields carry the struct's
  initials; a pointer is an \<open>option\<close>; a nil \<open>json.RawMessage\<close> and an empty one are both the empty
  byte string, since the sources only ever ask for its length.  Instants are nanoseconds as
  integers.
\<close>

type_synonym time = int
type_synonym AgentMode = string
type_synonym ToolKind = string
type_synonym HarnessKind = string

definition ModeLoop :: AgentMode where "ModeLoop = ''loop''"
definition ModeHarness :: AgentMode where "ModeHarness = ''harness''"

definition AgentMode_Valid :: "AgentMode \<Rightarrow> bool" where
  "AgentMode_Valid m \<longleftrightarrow> m \<in> {ModeLoop, ModeHarness, []}"

definition ToolMCP :: ToolKind where "ToolMCP = ''mcp''"
definition ToolHTTP :: ToolKind where "ToolHTTP = ''http''"
definition ToolAgent :: ToolKind where "ToolAgent = ''agent''"
definition ToolFunction :: ToolKind where "ToolFunction = ''function''"
definition ToolTask :: ToolKind where "ToolTask = ''task''"
definition ToolTeammate :: ToolKind where "ToolTeammate = ''teammate''"
definition ToolTeamBus :: ToolKind where "ToolTeamBus = ''teambus''"
definition ToolFanout :: ToolKind where "ToolFanout = ''fanout''"

lemmas tool_kind_defs = ToolMCP_def ToolHTTP_def ToolAgent_def ToolFunction_def ToolTask_def
  ToolTeammate_def ToolTeamBus_def ToolFanout_def

definition ToolKind_Valid :: "ToolKind \<Rightarrow> bool" where
  "ToolKind_Valid k \<longleftrightarrow>
     k \<in> {ToolMCP, ToolHTTP, ToolAgent, ToolFunction, ToolTask, ToolTeammate, ToolTeamBus, ToolFanout}"

definition SupportedLoopToolKinds :: "ToolKind set" where
  "SupportedLoopToolKinds =
     {ToolHTTP, ToolMCP, ToolAgent, ToolTask, ToolTeammate, ToolTeamBus, ToolFanout}"

record ToolRef =
  tr_Name :: string
  tr_Namespace :: string

record AuthRef =
  ar_SecretName :: string
  ar_Key :: string

record ModelRef =
  mr_ProviderRef :: string
  mr_Name :: string

record MCPSpec =
  mcp_URL :: string
  mcp_Auth :: "AuthRef option"

record HTTPSpec =
  http_URL :: string
  http_Method :: string
  http_Auth :: "AuthRef option"
  http_Headers :: "(string \<times> string) list"

record AgentTargetSpec =
  at_Ref :: ToolRef
  at_MaxTokens :: int64
  at_TimeoutSeconds :: int32

record FanoutTargetSpec =
  ft_Ref :: ToolRef
  ft_MaxParallel :: int32
  ft_Reduce :: string
  ft_PerItemMaxTokens :: int64

record ToolSpec =
  ts_Kind :: ToolKind
  ts_Description :: string
  ts_InputSchema :: bytes
  ts_OutputSchema :: bytes
  ts_MCP :: "MCPSpec option"
  ts_HTTP :: "HTTPSpec option"
  ts_Agent :: "AgentTargetSpec option"
  ts_Function :: "string option"
  ts_Fanout :: "FanoutTargetSpec option"

record Tool =
  tool_Name :: string
  tool_Spec :: ToolSpec

definition FanoutConcat :: string where "FanoutConcat = ''concat''"
definition FanoutMerge :: string where "FanoutMerge = ''merge''"
definition FanoutFirstSuccess :: string where "FanoutFirstSuccess = ''first-success''"

definition EffectiveReduce :: "FanoutTargetSpec \<Rightarrow> string" where
  "EffectiveReduce f = (if ft_Reduce f = [] then FanoutConcat else ft_Reduce f)"

subsection \<open>Steps\<close>

datatype StepKind =
  StepPlan | StepToolCall | StepToolCallRejected | StepObservation | StepObservationRejected
| StepFinal

record ToolCallRecord =
  tcr_Tool :: string
  tcr_Arguments :: bytes
  tcr_Result :: bytes
  tcr_Error :: string
  tcr_DurationMs :: int64
  tcr_ArgsBytes :: int64
  tcr_ResultBytes :: int64

record Step =
  step_Index :: int32
  step_Kind :: StepKind
  step_StartedAt :: time
  step_EndedAt :: time
  step_TokensIn :: int64
  step_TokensOut :: int64
  step_ToolCalls :: "ToolCallRecord list"
  step_Error :: string

text \<open>The zero values a Go composite literal leaves in the fields it does not name.\<close>

definition zero_ToolCallRecord :: ToolCallRecord where
  "zero_ToolCallRecord = \<lparr>tcr_Tool = [], tcr_Arguments = [], tcr_Result = [], tcr_Error = [],
     tcr_DurationMs = 0, tcr_ArgsBytes = 0, tcr_ResultBytes = 0\<rparr>"

subsection \<open>The harness\<close>

record HarnessEnvVar =
  hev_Name :: string
  hev_Value :: string
  hev_SecretRef :: "AuthRef option"

record HarnessSpec =
  hs_Kind :: HarnessKind
  hs_Env :: "HarnessEnvVar list"
  hs_SessionPolicy :: string
  hs_CLI_WorkingDir :: "string option"

definition WorkingDirOrEmpty :: "HarnessSpec \<Rightarrow> string" where
  "WorkingDirOrEmpty h = (case hs_CLI_WorkingDir h of Some d \<Rightarrow> d | None \<Rightarrow> [])"

definition StorageAgentFS :: string where "StorageAgentFS = ''agentfs''"
definition DefaultAgentFSMountPath :: string where "DefaultAgentFSMountPath = ''/var/agentfs''"

text \<open>A \<open>StorageSpec\<close> with the one field of its AgentFS block the runtime reads, the mount path.\<close>

record StorageSpec =
  st_Kind :: string
  st_AgentFS_MountPath :: "string option"

record AgentSpec =
  as_Mode :: AgentMode
  as_Model :: ModelRef
  as_Harness :: "HarnessSpec option"
  as_Instructions :: string
  as_Tools :: "ToolRef list"
  as_Storage :: "StorageSpec option"
  as_Budget :: Budget

definition EffectiveWorkingDir :: "AgentSpec \<Rightarrow> string" where
  "EffectiveWorkingDir a =
     (case (case as_Harness a of Some h \<Rightarrow> WorkingDirOrEmpty h | None \<Rightarrow> []) of
        c # cs \<Rightarrow> c # cs
      | [] \<Rightarrow>
          (case as_Storage a of
             Some s \<Rightarrow>
               if st_Kind s = StorageAgentFS then
                 (case st_AgentFS_MountPath s of
                    Some mp \<Rightarrow> if mp \<noteq> [] then mp else DefaultAgentFSMountPath
                  | None \<Rightarrow> DefaultAgentFSMountPath)
               else []
           | None \<Rightarrow> []))"

subsection \<open>Instants and durations\<close>

text \<open>The zero \<open>time.Time\<close>, 1 January of year 1, in nanoseconds of the Unix clock.\<close>

definition zero_time :: time where
  "zero_time = - 62135596800000000000"

text \<open>\<open>t.Sub(u)\<close> saturates at the ends of \<open>int64\<close>; \<open>d.Milliseconds()\<close> truncates towards zero.\<close>

definition time_Sub :: "time \<Rightarrow> time \<Rightarrow> duration" where
  "time_Sub t u = word_of_int (max (- (2 ^ 63)) (min (2 ^ 63 - 1) (t - u)))"

definition Milliseconds :: "duration \<Rightarrow> int64" where
  "Milliseconds d = word_of_int (sgn (sint d) * (\<bar>sint d\<bar> div 1000000))"

end
