(* ===== verification/Redact.thy ===== *)
theory Redact
  imports AgentTypes
begin

section \<open>Redaction\<close>

text \<open>
  The disclosure control of \<open>pkg/agentmodel/v1/redact.go\<close>.  A compiled pattern is the predicate
  \<open>MatchString\<close> decides, \<^term>\<open>None\<close> a nil pointer.  A decoded document is a \<open>json\<close> tree; the
  decoder and encoder of \<open>encoding/json\<close> for whole documents are the two fields of a
  \<open>json_codec\<close>, since they go through \<open>float64\<close> for numbers, and no theorem assumes anything
  of them but what it says.
\<close>

type_synonym regexp = "string \<Rightarrow> bool"

datatype json =
  JNull | JBool bool | JNum string | JStr string | JArr "json list" | JObj "(string \<times> json) list"

record json_codec =
  json_Unmarshal :: "bytes \<Rightarrow> json option"
  json_Marshal :: "json \<Rightarrow> bytes option"

definition RedactionMask :: string where
  "RedactionMask = ''[REDACTED]''"

fun anyMatch :: "string \<Rightarrow> regexp option list \<Rightarrow> bool" where
  "anyMatch s [] = False"
| "anyMatch s (p # ps) =
     (case p of Some m \<Rightarrow> if m s then True else anyMatch s ps | None \<Rightarrow> anyMatch s ps)"

fun redactValue :: "regexp option list \<Rightarrow> json \<Rightarrow> json" where
  "redactValue pats (JStr t) = (if anyMatch t pats then JStr RedactionMask else JStr t)"
| "redactValue pats (JArr xs) = JArr (map (redactValue pats) xs)"
| "redactValue pats (JObj kvs) = JObj (map (\<lambda>(k, e). (k, redactValue pats e)) kvs)"
| "redactValue pats JNull = JNull"
| "redactValue pats (JBool b) = JBool b"
| "redactValue pats (JNum n) = JNum n"

definition RedactJSON :: "json_codec \<Rightarrow> bytes \<Rightarrow> regexp option list \<Rightarrow> bytes" where
  "RedactJSON cd raw pats =
     (if pats = [] \<or> raw = [] then raw
      else case json_Unmarshal cd raw of
        None \<Rightarrow> if anyMatch raw pats then json_quote RedactionMask else raw
      | Some v \<Rightarrow> (case json_Marshal cd (redactValue pats v) of None \<Rightarrow> raw | Some b \<Rightarrow> b))"

definition RedactString :: "string \<Rightarrow> regexp option list \<Rightarrow> string" where
  "RedactString s pats = (if anyMatch s pats then RedactionMask else s)"

definition redact_call :: "json_codec \<Rightarrow> regexp option list \<Rightarrow> ToolCallRecord \<Rightarrow> ToolCallRecord" where
  "redact_call cd pats tc =
     tc\<lparr>tcr_Arguments := RedactJSON cd (tcr_Arguments tc) pats,
        tcr_Result := RedactJSON cd (tcr_Result tc) pats,
        tcr_Error := RedactString (tcr_Error tc) pats\<rparr>"

definition RedactSteps :: "json_codec \<Rightarrow> Step list \<Rightarrow> regexp option list \<Rightarrow> Step list" where
  "RedactSteps cd steps pats =
     (if pats = [] \<or> steps = [] then steps
      else map (\<lambda>s. s\<lparr>step_Error := RedactString (step_Error s) pats,
                      step_ToolCalls := map (redact_call cd pats) (step_ToolCalls s)\<rparr>) steps)"

text \<open>
  \<open>CompilePatterns\<close> keeps the patterns that compile, in order, and reports the others.  The
  compiler is a parameter: the pattern's predicate, or the message of its error.
\<close>

fun CompilePatterns ::
  "(string \<Rightarrow> string + regexp) \<Rightarrow> string list \<Rightarrow> regexp option list \<times> (string \<times> string) list" where
  "CompilePatterns compile [] = ([], [])"
| "CompilePatterns compile (p # ps) =
     (let (out, errs) = CompilePatterns compile ps
      in case compile p of
           Inl e \<Rightarrow> (out, (p, e) # errs)
         | Inr m \<Rightarrow> (Some m # out, errs))"

subsection \<open>What a redacted document discloses\<close>

text \<open>The string leaves of a document (never its keys), and its shape with the leaves erased.\<close>

fun leaves :: "json \<Rightarrow> string set" where
  "leaves (JStr s) = {s}"
| "leaves (JArr xs) = (\<Union>x \<in> set xs. leaves x)"
| "leaves (JObj kvs) = (\<Union>kv \<in> set kvs. leaves (snd kv))"
| "leaves _ = {}"

fun shape :: "json \<Rightarrow> json" where
  "shape (JStr _) = JStr []"
| "shape (JArr xs) = JArr (map shape xs)"
| "shape (JObj kvs) = JObj (map (\<lambda>(k, e). (k, shape e)) kvs)"
| "shape v = v"

lemma anyMatch_iff: "anyMatch s pats \<longleftrightarrow> (\<exists>m. Some m \<in> set pats \<and> m s)"
  by (induction pats) (auto split: option.splits)

lemma redactValue_leaves:
  "l \<in> leaves (redactValue pats v) \<Longrightarrow> l = RedactionMask \<or> (\<not> anyMatch l pats \<and> l \<in> leaves v)"
  by (induction v rule: leaves.induct) (force split: if_splits)+

lemma redactValue_shape: "shape (redactValue pats v) = shape v"
  by (induction v rule: leaves.induct) auto

lemma redactValue_idem: "redactValue pats (redactValue pats v) = redactValue pats v"
  by (induction v rule: leaves.induct) auto

lemma CompilePatterns_set:
  "set (fst (CompilePatterns compile ps)) = {Some m | m. \<exists>p \<in> set ps. compile p = Inr m}"
  by (induction ps) (auto split: sum.splits prod.splits)


end
