(* ===== verification/Lifecycle.thy ===== *)
theory Lifecycle
  imports Prelude
begin

section \<open>The run lifecycle\<close>

text \<open>
  The phases of an AgentRun and the edges between them, from \<open>pkg/agentmodel/v1/lifecycle.go\<close>.
  A phase is a Go string, so a value outside the seven constants is possible; \<open>Phase_Valid\<close>
  is the test the code makes.
\<close>

type_synonym Phase = string

definition PhasePending :: Phase where "PhasePending = ''Pending''"
definition PhaseRunning :: Phase where "PhaseRunning = ''Running''"
definition PhaseRequiresAction :: Phase where "PhaseRequiresAction = ''RequiresAction''"
definition PhaseCompleted :: Phase where "PhaseCompleted = ''Completed''"
definition PhaseFailed :: Phase where "PhaseFailed = ''Failed''"
definition PhaseCancelled :: Phase where "PhaseCancelled = ''Cancelled''"
definition PhaseExpired :: Phase where "PhaseExpired = ''Expired''"

lemmas phase_defs = PhasePending_def PhaseRunning_def PhaseRequiresAction_def
  PhaseCompleted_def PhaseFailed_def PhaseCancelled_def PhaseExpired_def

definition Phase_Terminal :: "Phase \<Rightarrow> bool" where
  "Phase_Terminal p \<longleftrightarrow> p \<in> {PhaseCompleted, PhaseFailed, PhaseCancelled, PhaseExpired}"

definition Phase_Valid :: "Phase \<Rightarrow> bool" where
  "Phase_Valid p \<longleftrightarrow> p \<in> {PhasePending, PhaseRunning, PhaseRequiresAction,
     PhaseCompleted, PhaseFailed, PhaseCancelled, PhaseExpired}"

definition allowedEdges :: "(Phase \<times> Phase) list" where
  "allowedEdges =
    [(PhasePending, PhaseRunning),
     (PhasePending, PhaseCancelled),
     (PhasePending, PhaseExpired),
     (PhasePending, PhaseFailed),
     (PhaseRunning, PhaseRequiresAction),
     (PhaseRunning, PhaseCompleted),
     (PhaseRunning, PhaseFailed),
     (PhaseRunning, PhaseCancelled),
     (PhaseRunning, PhaseExpired),
     (PhaseRequiresAction, PhaseRunning),
     (PhaseRequiresAction, PhaseCancelled),
     (PhaseRequiresAction, PhaseExpired),
     (PhaseRequiresAction, PhaseFailed)]"

datatype transition_error =
  InvalidFrom Phase
| InvalidTo Phase
| TerminalPhase Phase Phase
| IllegalTransition Phase Phase

definition CanTransition :: "Phase \<Rightarrow> Phase \<Rightarrow> transition_error option" where
  "CanTransition from to =
     (if \<not> Phase_Valid from then Some (InvalidFrom from)
      else if \<not> Phase_Valid to then Some (InvalidTo to)
      else if from = to then None
      else if Phase_Terminal from then Some (TerminalPhase from to)
      else if (\<exists>edge \<in> set allowedEdges. fst edge = from \<and> snd edge = to) then None
      else Some (IllegalTransition from to))"

subsection \<open>Histories\<close>

text \<open>A history is the sequence of phases a run reports, each step one \<open>CanTransition\<close> accepts.\<close>

inductive history :: "Phase list \<Rightarrow> bool" where
  start: "history [PhasePending]"
| step: "history (ps @ [p]) \<Longrightarrow> CanTransition p q = None \<Longrightarrow> history (ps @ [p, q])"

inductive_cases history_pairE: "history (ps @ [p, q])"
inductive_cases history_NilE [elim!]: "history []"

lemma Phase_distinct [simp]:
  "distinct [PhasePending, PhaseRunning, PhaseRequiresAction, PhaseCompleted, PhaseFailed,
     PhaseCancelled, PhaseExpired]"
  by (simp add: phase_defs)

lemma Phase_Terminal_simps [simp]:
  "Phase_Terminal PhaseCompleted" "Phase_Terminal PhaseFailed"
  "Phase_Terminal PhaseCancelled" "Phase_Terminal PhaseExpired"
  "\<not> Phase_Terminal PhasePending" "\<not> Phase_Terminal PhaseRunning"
  "\<not> Phase_Terminal PhaseRequiresAction"
  by (simp_all add: Phase_Terminal_def phase_defs)

lemma not_PhaseCompleted [simp]:
  "PhaseExpired \<noteq> PhaseCompleted" "PhaseFailed \<noteq> PhaseCompleted" "PhaseCancelled \<noteq> PhaseCompleted"
  by (simp_all add: phase_defs)

lemma CanTransition_terminal:
  "Phase_Terminal p \<Longrightarrow> CanTransition p q = None \<Longrightarrow> q = p"
  by (auto simp: CanTransition_def split: if_splits)

lemma CanTransition_into_completed:
  "CanTransition p PhaseCompleted = None \<Longrightarrow> p = PhaseCompleted \<or> p = PhaseRunning"
  by (auto simp: CanTransition_def allowedEdges_def phase_defs split: if_splits)

lemma Running_to_terminal:
  "Phase_Terminal p \<Longrightarrow> CanTransition PhaseRunning p = None"
  by (auto simp: Phase_Terminal_def CanTransition_def allowedEdges_def Phase_Valid_def phase_defs)

lemma CanTransition_edge: "(p, q) \<in> set allowedEdges \<Longrightarrow> CanTransition p q = None"
  by (auto simp: allowedEdges_def CanTransition_def Phase_Valid_def Phase_Terminal_def phase_defs)

lemma history_first: "(PhasePending, q) \<in> set allowedEdges \<Longrightarrow> history [PhasePending, q]"
  using history.step [of "[]" PhasePending q] history.start CanTransition_edge by simp

lemma Terminal_Valid: "Phase_Terminal p \<Longrightarrow> Phase_Valid p"
  by (auto simp: Phase_Terminal_def Phase_Valid_def)

lemma history_not_Nil: "history ps \<Longrightarrow> ps \<noteq> []"
  by (induction rule: history.induct) auto

lemma history_terminal_suffix:
  "history ps \<Longrightarrow> i < length ps \<Longrightarrow> Phase_Terminal (ps ! i) \<Longrightarrow> i \<le> j \<Longrightarrow> j < length ps
   \<Longrightarrow> ps ! j = ps ! i"
proof (induction arbitrary: j rule: history.induct)
  case start
  then show ?case by simp
next
  case (step ps p q)
  show ?case
  proof (cases "j < Suc (length ps)")
    case True
    then have "(ps @ [p]) ! j = (ps @ [p]) ! i"
      using step.IH [of j] step.prems by (simp add: nth_append split: if_splits)
    with True step.prems show ?thesis by (simp add: nth_append split: if_splits)
  next
    case False
    with step.prems have j: "j = Suc (length ps)" by simp
    show ?thesis
    proof (cases "i = j")
      case True
      then show ?thesis by simp
    next
      case ne: False
      with step.prems j have i: "i < Suc (length ps)" by simp
      then have "(ps @ [p]) ! length ps = (ps @ [p]) ! i"
        using step.IH [of "length ps"] step.prems by (simp add: nth_append split: if_splits)
      then have p: "p = (ps @ [p]) ! i" by simp
      then have "Phase_Terminal p"
        using step.prems i by (simp add: nth_append split: if_splits)
      with step.hyps have "q = p" by (simp add: CanTransition_terminal)
      with p i j show ?thesis by (simp add: nth_append split: if_splits)
    qed
  qed
qed

lemma history_completed_running:
  "history ps \<Longrightarrow> PhaseCompleted \<in> set ps \<Longrightarrow> PhaseRunning \<in> set ps"
proof (induction rule: history.induct)
  case start
  then show ?case by (simp add: phase_defs)
next
  case (step ps p q)
  then show ?case using CanTransition_into_completed [of p] by auto
qed

subsection \<open>Properties\<close>



end
