(* ===== verification/Executor.thy ===== *)
theory Executor
  imports Redact Lifecycle "HOL-Library.AList"
begin

section \<open>The plan-act-observe executor\<close>

text \<open>
  \<open>pkg/agentruntime/executor.go\<close> with the contract types of \<open>pkg/agentmodel/runtime/contract.go\<close>,
  \<open>iface.go\<close> and \<open>schema.go\<close>.  An \<open>Executor\<close> holds interface values: the model, the clock, the
  tool invokers, the verifier, the step sink, the harness, the secret broker and the context.
  Each is a function from a world \<open>'w\<close> (everything outside the executor) to its answer and the
  world after the call, so calls happen in the order the code makes them and any behaviour of
  the other side is allowed.  A nil interface is \<^term>\<open>None\<close>.

  The loop body is cut at the stages the code has: the context and budget gate, the model call,
  the token accounting, the terminal answer with its verifier, and the tool call.  A stage ends
  in \<open>Continue\<close> or in \<open>Break\<close> with the phase and reason.  The loop itself is a partial function:
  \<^term>\<open>None\<close> is a run that never ends.
\<close>

record ToolCall =
  tc_Tool :: string
  tc_Arguments :: bytes

record LLMDecision =
  dec_FinalAnswer :: "bytes option"
  dec_ToolCall :: "ToolCall option"
  dec_Reasoning :: string
  dec_TokensIn :: int64
  dec_TokensOut :: int64

definition IsTerminal :: "LLMDecision \<Rightarrow> bool" where
  "IsTerminal d \<longleftrightarrow> dec_FinalAnswer d \<noteq> None"

record Observation =
  obs_Output :: bytes
  obs_DurationMs :: int64
  obs_Tokens :: int64
  obs_ToolCalls :: int32

record ChatRequest =
  cr_Model :: ModelRef
  cr_Instructions :: string
  cr_Tools :: "string \<rightharpoonup> Tool"
  cr_History :: "Step list"
  cr_Input :: bytes
  cr_Seed :: int64

record VerifyResult =
  vr_Accepted :: bool
  vr_Score :: int
  vr_Feedback :: string
  vr_Usage :: Usage

record HarnessResponse =
  resp_Output :: bytes
  resp_TokensIn :: int64
  resp_TokensOut :: int64
  resp_CostUSDMilli :: int64
  resp_ToolCalls :: "ToolCallRecord list"
  resp_SessionID :: string

record HarnessRequest =
  hreq_Spec :: HarnessSpec
  hreq_Instructions :: string
  hreq_Input :: bytes
  hreq_WorkingDir :: string
  hreq_Env :: "(string \<times> bytes) list"
  hreq_Budget :: Budget
  hreq_Seed :: int64
  hreq_SessionID :: string

record 'w Executor =
  ex_LLM :: "('w \<Rightarrow> ChatRequest \<Rightarrow> (go_error + LLMDecision) \<times> 'w) option"
  ex_Tools :: "string \<rightharpoonup> Tool"
  ex_Invokers :: "ToolKind \<rightharpoonup> ('w \<Rightarrow> Tool \<Rightarrow> bytes \<Rightarrow> (go_error + Observation) \<times> 'w)"
  ex_Now :: "'w \<Rightarrow> time \<times> 'w"
  ex_Since :: "'w \<Rightarrow> time \<Rightarrow> duration \<times> 'w"
  ex_ctx_Err :: "'w \<Rightarrow> go_error option \<times> 'w"
  ex_Harness :: "('w \<Rightarrow> HarnessRequest \<Rightarrow> HarnessResponse \<times> go_error option \<times> 'w) option"
  ex_Secrets :: "('w \<Rightarrow> string \<Rightarrow> (go_error + bytes) \<times> 'w) option"
  ex_ResumeSessionID :: string
  ex_StepSink :: "('w \<Rightarrow> Step \<Rightarrow> 'w) option"
  ex_RedactPatterns :: "regexp option list"
  ex_Verifier :: "('w \<Rightarrow> bytes \<Rightarrow> string \<Rightarrow> (go_error + VerifyResult) \<times> 'w) option"
  ex_VerifyCriteria :: string
  ex_MaxRepairRounds :: int
  ex_VerifyFailOnReject :: bool
  ex_codec :: json_codec
  ex_schema :: "bytes \<Rightarrow> bytes \<Rightarrow> string option"

record Result =
  res_Phase :: Phase
  res_Steps :: "Step list"
  res_Usage :: Usage
  res_TerminationReason :: string
  res_Output :: bytes
  res_SessionID :: string

record 'w loop_state =
  ls_usage :: Usage
  ls_steps :: "Step list"
  ls_output :: bytes
  ls_repairRounds :: int
  ls_world :: 'w

datatype 'w flow =
  Continue "'w loop_state"
| Break Phase string "'w loop_state"

subsection \<open>Helpers of the loop\<close>

definition ErrToolNotInAllowList :: string where
  "ErrToolNotInAllowList = ''agentruntime: tool not in allow-list''"
definition ErrToolNotFound :: string where
  "ErrToolNotFound = ''agentruntime: tool not found in catalog''"
definition ErrInvalidArgs :: string where
  "ErrInvalidArgs = ''agentruntime: tool args failed input schema''"
definition ErrInvalidObservation :: string where
  "ErrInvalidObservation = ''agentruntime: tool result failed output schema''"

definition allowedNames :: "ToolRef list \<Rightarrow> string set" where
  "allowedNames refs = set (map tr_Name refs)"

text \<open>The catalog entries the model sees; the code ranges over a map, so their order is not fixed.\<close>

definition toolsFor :: "'w Executor \<Rightarrow> string set \<Rightarrow> string \<rightharpoonup> Tool" where
  "toolsFor e allowed = ex_Tools e |` allowed"

text \<open>
  \<open>ValidateAgainstSchema\<close>: the value must be JSON; a blank schema accepts it; otherwise the
  compiler and validator of the schema library (the field \<open>ex_schema\<close>) decide.
\<close>

definition ValidateAgainstSchema :: "'w Executor \<Rightarrow> bytes \<Rightarrow> bytes \<Rightarrow> string option" where
  "ValidateAgainstSchema e schema value =
     (if \<not> json_Valid value then Some ''value is not valid JSON''
      else if bytes_TrimSpace schema = [] then None
      else ex_schema e schema value)"

definition new_step :: "Step list \<Rightarrow> StepKind \<Rightarrow> time \<Rightarrow> time \<Rightarrow> Step" where
  "new_step steps kind s t =
     \<lparr>step_Index = of_nat (length steps), step_Kind = kind, step_StartedAt = s, step_EndedAt = t,
      step_TokensIn = 0, step_TokensOut = 0, step_ToolCalls = [], step_Error = []\<rparr>"

definition ex_record :: "'w Executor \<Rightarrow> Step \<Rightarrow> 'w loop_state \<Rightarrow> 'w loop_state" where
  "ex_record e s st =
     st\<lparr>ls_steps := ls_steps st @ [s],
        ls_world :=
          (case ex_StepSink e of
             None \<Rightarrow> ls_world st
           | Some emit \<Rightarrow>
               emit (ls_world st)
                 (if ex_RedactPatterns e \<noteq> []
                  then hd (RedactSteps (ex_codec e) [s] (ex_RedactPatterns e)) else s))\<rparr>"

definition verifyFeedback :: "VerifyResult \<Rightarrow> bytes" where
  "verifyFeedback vr =
     CHR 0x7B # json_quote ''feedback'' @ '':'' @ json_quote (vr_Feedback vr) @ '',''
     @ json_quote ''score'' @ '':'' @ show_int (vr_Score vr) @ '',''
     @ json_quote ''verifierRejected'' @ '':true'' @ [CHR 0x7D]"

definition read_now :: "'w Executor \<Rightarrow> 'w loop_state \<Rightarrow> time \<times> 'w loop_state" where
  "read_now e st = (let (t, w) = ex_Now e (ls_world st) in (t, st\<lparr>ls_world := w\<rparr>))"

definition refresh_wallclock :: "'w Executor \<Rightarrow> time \<Rightarrow> 'w loop_state \<Rightarrow> 'w loop_state" where
  "refresh_wallclock e startedAt st =
     (let (d, w) = ex_Since e (ls_world st) startedAt
      in st\<lparr>ls_usage := (ls_usage st)\<lparr>WallClockUsed := d\<rparr>, ls_world := w\<rparr>)"

text \<open>
  The four budget checks of the loop have one shape: Expired with the axis as the reason.
  \<open>IsBudgetExceeded\<close> always succeeds on an error of \<open>AllowsStep\<close>.
\<close>

definition budget_gate ::
  "Budget \<Rightarrow> int32 \<Rightarrow> 'w loop_state \<Rightarrow> 'w flow \<Rightarrow> 'w flow" where
  "budget_gate budget deltaToolCalls st k =
     (case AllowsStep budget (ls_usage st) 0 deltaToolCalls of
        Some err \<Rightarrow> Break PhaseExpired (''budget:'' @ Axis err) st
      | None \<Rightarrow> k)"

text \<open>A rejected call: both instants are read, left to right, and the loop continues.\<close>

definition reject_call ::
  "'w Executor \<Rightarrow> ToolCallRecord \<Rightarrow> string \<Rightarrow> 'w loop_state \<Rightarrow> 'w flow" where
  "reject_call e rec err st =
     (let (s, st) = read_now e st; (t, st) = read_now e st
      in Continue (ex_record e
           ((new_step (ls_steps st) StepToolCallRejected s t)
              \<lparr>step_ToolCalls := [rec], step_Error := err\<rparr>) st))"

subsection \<open>The stages of one iteration\<close>

definition invoke_stage ::
  "'w Executor \<Rightarrow> time \<Rightarrow> Tool \<Rightarrow> ToolCall
   \<Rightarrow> ('w \<Rightarrow> Tool \<Rightarrow> bytes \<Rightarrow> (go_error + Observation) \<times> 'w) \<Rightarrow> 'w loop_state \<Rightarrow> 'w flow" where
  "invoke_stage e startedAt tool tc invoker st =
     (let (callStart, st) = read_now e st;
          (r, w) = invoker (ls_world st) tool (tc_Arguments tc);
          st = st\<lparr>ls_world := w\<rparr>;
          (callEnd, st) = read_now e st;
          ms = Milliseconds (time_Sub callEnd callStart);
          rec = zero_ToolCallRecord\<lparr>tcr_Tool := tc_Tool tc, tcr_Arguments := tc_Arguments tc,
                  tcr_DurationMs := ms\<rparr>
      in case r of
        Inl err \<Rightarrow>
          (let st = ex_record e ((new_step (ls_steps st) StepToolCall callStart callEnd)
                 \<lparr>step_ToolCalls := [rec\<lparr>tcr_Error := err_Error err\<rparr>], step_Error := err_Error err\<rparr>) st;
               st = st\<lparr>ls_usage := (ls_usage st)\<lparr>ToolCalls := ToolCalls (ls_usage st) + 1\<rparr>\<rparr>
           in Continue (refresh_wallclock e startedAt st))
      | Inr obs \<Rightarrow>
          (case ValidateAgainstSchema e (ts_OutputSchema (tool_Spec tool)) (obs_Output obs) of
             Some verr \<Rightarrow>
               (let st = ex_record e
                      ((new_step (ls_steps st) StepObservationRejected callStart callEnd)
                        \<lparr>step_ToolCalls := [rec\<lparr>tcr_Result := obs_Output obs, tcr_Error := verr\<rparr>],
                         step_Error := ErrInvalidObservation\<rparr>) st;
                    st = st\<lparr>ls_usage := (ls_usage st)\<lparr>ToolCalls := ToolCalls (ls_usage st) + 1\<rparr>\<rparr>
                in Continue (refresh_wallclock e startedAt st))
           | None \<Rightarrow>
               (let st = ex_record e ((new_step (ls_steps st) StepObservation callStart callEnd)
                        \<lparr>step_ToolCalls := [rec\<lparr>tcr_Result := obs_Output obs\<rparr>]\<rparr>) st;
                    u = ls_usage st;
                    u = u\<lparr>ToolCalls := ToolCalls u + 1\<rparr>;
                    u = u\<lparr>Tokens := Tokens u + obs_Tokens obs\<rparr>;
                    u = u\<lparr>ToolCalls := ToolCalls u + obs_ToolCalls obs\<rparr>
                in Continue (refresh_wallclock e startedAt (st\<lparr>ls_usage := u\<rparr>)))))"

definition tool_stage ::
  "'w Executor \<Rightarrow> Budget \<Rightarrow> string set \<Rightarrow> time \<Rightarrow> ToolCall \<Rightarrow> 'w loop_state \<Rightarrow> 'w flow" where
  "tool_stage e budget allowed startedAt tc st =
     (if tc_Tool tc \<notin> allowed then
        reject_call e (zero_ToolCallRecord\<lparr>tcr_Tool := tc_Tool tc, tcr_Arguments := tc_Arguments tc,
            tcr_Error := ''tool not in allow-list''\<rparr>) ErrToolNotInAllowList st
      else case ex_Tools e (tc_Tool tc) of
        None \<Rightarrow>
          reject_call e (zero_ToolCallRecord\<lparr>tcr_Tool := tc_Tool tc, tcr_Error := ErrToolNotFound\<rparr>)
            ErrToolNotFound st
      | Some tool \<Rightarrow>
          (case ValidateAgainstSchema e (ts_InputSchema (tool_Spec tool)) (tc_Arguments tc) of
             Some err \<Rightarrow>
               reject_call e (zero_ToolCallRecord\<lparr>tcr_Tool := tc_Tool tc,
                   tcr_Arguments := tc_Arguments tc, tcr_Error := err\<rparr>) ErrInvalidArgs st
           | None \<Rightarrow>
               budget_gate budget 1 st
                 (case ex_Invokers e (ts_Kind (tool_Spec tool)) of
                    None \<Rightarrow>
                      reject_call e (zero_ToolCallRecord\<lparr>tcr_Tool := tc_Tool tc,
                          tcr_Error := ''no invoker for kind '' @ dquote # ts_Kind (tool_Spec tool) @ [dquote]\<rparr>)
                        ErrToolNotFound st
                  | Some invoker \<Rightarrow> invoke_stage e startedAt tool tc invoker st)))"

definition final_step :: "'w Executor \<Rightarrow> time \<Rightarrow> 'w loop_state \<Rightarrow> 'w loop_state" where
  "final_step e planEnd st =
     (let (t, st) = read_now e st in ex_record e (new_step (ls_steps st) StepFinal planEnd t) st)"

definition final_stage ::
  "'w Executor \<Rightarrow> time \<Rightarrow> bytes \<Rightarrow> 'w loop_state \<Rightarrow> 'w flow" where
  "final_stage e planEnd answer st =
     (let st = st\<lparr>ls_output := answer\<rparr>
      in case ex_Verifier e of
        None \<Rightarrow> Break PhaseCompleted [] (final_step e planEnd st)
      | Some verify \<Rightarrow>
          (let maxRepairs = (if ex_MaxRepairRounds e \<le> 0 then 1 else ex_MaxRepairRounds e);
               (r, w) = verify (ls_world st) answer (ex_VerifyCriteria e);
               st = st\<lparr>ls_world := w\<rparr>
           in case r of
             Inl verr \<Rightarrow> Break PhaseCompleted [] (final_step e planEnd st)
           | Inr vr \<Rightarrow>
               (let u = ls_usage st; u = u\<lparr>Tokens := Tokens u + Tokens (vr_Usage vr)\<rparr>;
                    st = st\<lparr>ls_usage := u\<rparr>
                in if vr_Accepted vr then Break PhaseCompleted [] (final_step e planEnd st)
                   else if ls_repairRounds st < maxRepairs then
                     (let st = st\<lparr>ls_repairRounds := ls_repairRounds st + 1\<rparr>;
                          (t, st) = read_now e st
                      in Continue (ex_record e ((new_step (ls_steps st) StepObservation planEnd t)
                           \<lparr>step_ToolCalls := [zero_ToolCallRecord\<lparr>tcr_Tool := ''_verify'',
                               tcr_Result := verifyFeedback vr\<rparr>]\<rparr>) st))
                   else
                     (let st = final_step e planEnd st
                      in if ex_VerifyFailOnReject e then Break PhaseFailed ''verify:rejected'' st
                         else Break PhaseCompleted ''verify:unconverged'' st))))"

definition decide_stage ::
  "'w Executor \<Rightarrow> Budget \<Rightarrow> string set \<Rightarrow> time \<Rightarrow> time \<Rightarrow> LLMDecision \<Rightarrow> 'w loop_state \<Rightarrow> 'w flow" where
  "decide_stage e budget allowed startedAt planEnd decision st =
     (case dec_FinalAnswer decision of
        Some answer \<Rightarrow> final_stage e planEnd answer st
      | None \<Rightarrow>
          (case dec_ToolCall decision of
             None \<Rightarrow> Break PhaseFailed ''decision:neither_terminal_nor_tool'' st
           | Some tc \<Rightarrow> tool_stage e budget allowed startedAt tc st))"

definition account_stage ::
  "'w Executor \<Rightarrow> Budget \<Rightarrow> string set \<Rightarrow> time \<Rightarrow> time \<Rightarrow> time \<Rightarrow> LLMDecision \<Rightarrow> 'w loop_state
   \<Rightarrow> 'w flow" where
  "account_stage e budget allowed startedAt planStart planEnd decision st =
     (let newTokens = dec_TokensIn decision + dec_TokensOut decision;
          plan = (new_step (ls_steps st) StepPlan planStart planEnd)
                   \<lparr>step_TokensIn := dec_TokensIn decision, step_TokensOut := dec_TokensOut decision\<rparr>
      in if sint (Tokens (ls_usage st) + newTokens) > sint (MaxTokens budget) then
           Break PhaseExpired ''budget:tokens'' (ex_record e (plan\<lparr>step_Error := ''budget:tokens''\<rparr>) st)
         else
           (let st = st\<lparr>ls_usage := Usage_Add (ls_usage st) newTokens 0 0\<rparr>;
                st = ex_record e plan st
            in budget_gate budget 0 st
                 (decide_stage e budget allowed startedAt planEnd decision st)))"

definition plan_stage ::
  "'w Executor \<Rightarrow> ('w \<Rightarrow> ChatRequest \<Rightarrow> (go_error + LLMDecision) \<times> 'w) \<Rightarrow> AgentSpec \<Rightarrow> bytes
   \<Rightarrow> int64 \<Rightarrow> time \<Rightarrow> 'w loop_state \<Rightarrow> 'w flow" where
  "plan_stage e chat agent input seed startedAt st =
     (let allowed = allowedNames (as_Tools agent);
          (planStart, st) = read_now e st;
          (r, w) = chat (ls_world st)
            \<lparr>cr_Model = as_Model agent, cr_Instructions = as_Instructions agent,
             cr_Tools = toolsFor e allowed, cr_History = ls_steps st, cr_Input = input,
             cr_Seed = seed\<rparr>;
          st = st\<lparr>ls_world := w\<rparr>;
          (planEnd, st) = read_now e st;
          st = refresh_wallclock e startedAt st
      in case r of
        Inl err \<Rightarrow>
          (let st = ex_record e ((new_step (ls_steps st) StepPlan planStart planEnd)
                        \<lparr>step_Error := err_Error err\<rparr>) st
           in if err_Is_Canceled err \<or> err_Is_DeadlineExceeded err
              then Break PhaseCancelled (''ctx:'' @ err_Error err) st
              else Break PhaseFailed (''llm:'' @ err_Error err) st)
      | Inr decision \<Rightarrow>
          account_stage e (as_Budget agent) allowed startedAt planStart planEnd decision st)"

definition loop_body ::
  "'w Executor \<Rightarrow> ('w \<Rightarrow> ChatRequest \<Rightarrow> (go_error + LLMDecision) \<times> 'w) \<Rightarrow> AgentSpec \<Rightarrow> bytes
   \<Rightarrow> int64 \<Rightarrow> time \<Rightarrow> 'w loop_state \<Rightarrow> 'w flow" where
  "loop_body e chat agent input seed startedAt st =
     (let (cerr, w) = ex_ctx_Err e (ls_world st); st = st\<lparr>ls_world := w\<rparr>
      in case cerr of
        Some err \<Rightarrow> Break PhaseCancelled (''ctx:'' @ err_Error err) st
      | None \<Rightarrow>
          (let st = refresh_wallclock e startedAt st
           in budget_gate (as_Budget agent) 0 st
                (plan_stage e chat agent input seed startedAt st)))"

partial_function (option) run_loop ::
  "'w Executor \<Rightarrow> ('w \<Rightarrow> ChatRequest \<Rightarrow> (go_error + LLMDecision) \<times> 'w) \<Rightarrow> AgentSpec \<Rightarrow> bytes
   \<Rightarrow> int64 \<Rightarrow> time \<Rightarrow> 'w loop_state \<Rightarrow> (Phase \<times> string \<times> 'w loop_state) option" where
  "run_loop e chat agent input seed startedAt st =
     (case loop_body e chat agent input seed startedAt st of
        Continue st' \<Rightarrow> run_loop e chat agent input seed startedAt st'
      | Break phase reason st' \<Rightarrow> Some (phase, reason, st'))"

definition init_state :: "'w \<Rightarrow> 'w loop_state" where
  "init_state w = \<lparr>ls_usage = zero_Usage, ls_steps = [], ls_output = [], ls_repairRounds = 0,
     ls_world = w\<rparr>"

text \<open>The loop path of \<open>Run\<close>; the sanity check on the phase is the last thing it does.\<close>

definition run_loop_mode ::
  "'w Executor \<Rightarrow> AgentSpec \<Rightarrow> bytes \<Rightarrow> int64 \<Rightarrow> 'w \<Rightarrow> ((string + Result) \<times> 'w) option" where
  "run_loop_mode e agent input seed w =
     (case ex_LLM e of
        None \<Rightarrow> Some (Inl ''agentruntime: LLM is required (mode=loop)'', w)
      | Some chat \<Rightarrow>
          (let (startedAt, w) = ex_Now e w
           in case run_loop e chat agent input seed startedAt (init_state w) of
                None \<Rightarrow> None
              | Some (phase, reason, st) \<Rightarrow>
                  (let (phase, reason) = (if \<not> Phase_Valid phase then (PhaseFailed, ''internal:invalid_phase'')
                                          else (phase, reason))
                   in Some (Inr \<lparr>res_Phase = phase, res_Steps = ls_steps st, res_Usage = ls_usage st,
                        res_TerminationReason = reason, res_Output = ls_output st,
                        res_SessionID = []\<rparr>, ls_world st))))"

subsection \<open>Harness mode\<close>

fun resolveHarnessEnv ::
  "'w Executor \<Rightarrow> HarnessEnvVar list \<Rightarrow> (string \<times> bytes) list \<Rightarrow> 'w
   \<Rightarrow> (string + (string \<times> bytes) list) \<times> 'w" where
  "resolveHarnessEnv e [] out w = (Inr out, w)"
| "resolveHarnessEnv e (v # vs) out w =
     (case hev_SecretRef v of
        None \<Rightarrow> resolveHarnessEnv e vs out w
      | Some ref \<Rightarrow>
          if ar_SecretName ref = [] then resolveHarnessEnv e vs out w
          else case ex_Secrets e of
            None \<Rightarrow> (Inl (''agentruntime: harness env '' @ dquote # hev_Name v @ dquote
                       # '' has a secretRef but no secret broker is configured''), w)
          | Some lease \<Rightarrow>
              (case lease w (ar_SecretName ref) of
                 (Inl err, w') \<Rightarrow>
                   (Inl (''agentruntime: lease secret '' @ dquote # ar_SecretName ref @ dquote
                      # '' for env '' @ dquote # hev_Name v @ dquote # '': '' @ err_Error err), w')
               | (Inr val, w') \<Rightarrow> resolveHarnessEnv e vs (AList.update (hev_Name v) val out) w'))"

definition harnessOutputJSON :: "bytes \<Rightarrow> bytes" where
  "harnessOutputJSON out =
     (let t = bytes_TrimSpace out
      in if t = [] then [] else if json_Valid t then t else json_quote out)"

definition runHarness ::
  "'w Executor \<Rightarrow> AgentSpec \<Rightarrow> bytes \<Rightarrow> int64 \<Rightarrow> 'w \<Rightarrow> (string + Result) \<times> 'w" where
  "runHarness e agent input seed w =
     (case ex_Harness e of
        None \<Rightarrow> (Inl ''agentruntime: Harness is required (mode=harness)'', w)
      | Some harness \<Rightarrow>
     (case as_Harness agent of
        None \<Rightarrow> (Inl ''agentruntime: spec.harness is required (mode=harness)'', w)
      | Some spec \<Rightarrow>
     (case resolveHarnessEnv e (hs_Env spec) [] w of
        (Inl err, w) \<Rightarrow> (Inl err, w)
      | (Inr env, w) \<Rightarrow>
          (let (startedAt, w) = ex_Now e w;
               (resp, herr, w) = harness w
                 \<lparr>hreq_Spec = spec, hreq_Instructions = as_Instructions agent, hreq_Input = input,
                  hreq_WorkingDir = EffectiveWorkingDir agent, hreq_Env = env,
                  hreq_Budget = as_Budget agent, hreq_Seed = seed,
                  hreq_SessionID = ex_ResumeSessionID e\<rparr>;
               (endedAt, w) = ex_Now e w;
               (d, w) = ex_Since e w startedAt;
               usage = \<lparr>Steps = 1, Tokens = resp_TokensIn resp + resp_TokensOut resp,
                        ToolCalls = of_nat (length (resp_ToolCalls resp)), WallClockUsed = d,
                        CostUSDMilli = resp_CostUSDMilli resp\<rparr>;
               step = \<lparr>step_Index = 0, step_Kind = StepFinal, step_StartedAt = startedAt,
                       step_EndedAt = endedAt, step_TokensIn = resp_TokensIn resp,
                       step_TokensOut = resp_TokensOut resp, step_ToolCalls = resp_ToolCalls resp,
                       step_Error = []\<rparr>
           in case herr of
                Some err \<Rightarrow>
                  (Inr \<lparr>res_Phase = PhaseFailed, res_Steps = [step\<lparr>step_Error := err_Error err\<rparr>],
                        res_Usage = usage, res_TerminationReason = ''harness:'' @ err_Error err,
                        res_Output = [], res_SessionID = []\<rparr>, w)
              | None \<Rightarrow>
                  if sint (MaxTokens (as_Budget agent)) > 0
                     \<and> sint (Tokens usage) > sint (MaxTokens (as_Budget agent))
                  then (Inr \<lparr>res_Phase = PhaseExpired, res_Steps = [step], res_Usage = usage,
                             res_TerminationReason = ''budget:tokens'', res_Output = [],
                             res_SessionID = []\<rparr>, w)
                  else (Inr \<lparr>res_Phase = PhaseCompleted, res_Steps = [step], res_Usage = usage,
                             res_TerminationReason = [], res_Output = harnessOutputJSON (resp_Output resp),
                             res_SessionID = resp_SessionID resp\<rparr>, w)))))"

definition Run ::
  "'w Executor \<Rightarrow> AgentSpec \<Rightarrow> bytes \<Rightarrow> int64 \<Rightarrow> 'w \<Rightarrow> ((string + Result) \<times> 'w) option" where
  "Run e agent input seed w =
     (if as_Mode agent = ModeHarness then Some (runHarness e agent input seed w)
      else run_loop_mode e agent input seed w)"

subsection \<open>Reasoning about one iteration\<close>

text \<open>
  \<open>flow_all P Q f\<close>: a continuing stage leaves a state with \<open>P\<close>, a breaking one a phase and a
  state with \<open>Q\<close>.  The lemmas below push it through the stages.
\<close>

definition flow_all ::
  "('w loop_state \<Rightarrow> bool) \<Rightarrow> (Phase \<Rightarrow> 'w loop_state \<Rightarrow> bool) \<Rightarrow> 'w flow \<Rightarrow> bool" where
  "flow_all P Q f = (case f of Continue st \<Rightarrow> P st | Break ph _ st \<Rightarrow> Q ph st)"

lemma flow_all_simps [simp]:
  "flow_all P Q (Continue st) = P st"
  "flow_all P Q (Break ph r st) = Q ph st"
  by (simp_all add: flow_all_def)

lemma read_now_eq [loop_simps]:
  "read_now e st = (fst (ex_Now e (ls_world st)), st\<lparr>ls_world := snd (ex_Now e (ls_world st))\<rparr>)"
  by (simp add: read_now_def split: prod.split)

lemma ex_record_fields [simp]:
  "ls_steps (ex_record e s st) = ls_steps st @ [s]"
  "ls_usage (ex_record e s st) = ls_usage st"
  "ls_output (ex_record e s st) = ls_output st"
  "ls_repairRounds (ex_record e s st) = ls_repairRounds st"
  by (simp_all add: ex_record_def)

lemma refresh_wallclock_fields [simp]:
  "ls_steps (refresh_wallclock e t st) = ls_steps st"
  "Steps (ls_usage (refresh_wallclock e t st)) = Steps (ls_usage st)"
  "Tokens (ls_usage (refresh_wallclock e t st)) = Tokens (ls_usage st)"
  "ToolCalls (ls_usage (refresh_wallclock e t st)) = ToolCalls (ls_usage st)"
  "ls_output (refresh_wallclock e t st) = ls_output st"
  "ls_repairRounds (refresh_wallclock e t st) = ls_repairRounds st"
  by (simp_all add: refresh_wallclock_def split: prod.split)

lemma flow_all_budget_gate [loop_simps]:
  "flow_all P Q (budget_gate b d st k) \<longleftrightarrow>
     (if AllowsStep b (ls_usage st) 0 d = None then flow_all P Q k else Q PhaseExpired st)"
  by (auto simp: budget_gate_def split: option.split)

lemma within_budget_fields:
  "Steps u = Steps v \<Longrightarrow> Tokens u = Tokens v \<Longrightarrow> ToolCalls u = ToolCalls v \<Longrightarrow>
   within_budget b u = within_budget b v"
  by (simp add: within_budget_def)

lemma new_step_fields [simp]:
  "step_Index (new_step xs k s t) = of_nat (length xs)"
  "step_Kind (new_step xs k s t) = k"
  "step_ToolCalls (new_step xs k s t) = []"
  "step_Error (new_step xs k s t) = []"
  by (simp_all add: new_step_def)

subsection \<open>The induction rules of the loop\<close>

lemma run_loop_inv:
  assumes run: "run_loop e chat agent input seed t0 st = Some (ph, r, st')"
    and I: "I st"
    and body: "\<And>st. I st \<Longrightarrow> flow_all I Q (loop_body e chat agent input seed t0 st)"
  shows "Q ph st'"
proof -
  define P where "P = (\<lambda>e' chat' agent' input' seed' t0' st (res :: Phase \<times> string \<times> 'a loop_state).
    (e', chat', agent', input', seed', t0') = (e, chat, agent, input, seed, t0) \<longrightarrow> I st \<longrightarrow>
    Q (fst res) (snd (snd res)))"
  have "P e chat agent input seed t0 st (ph, r, st')"
  proof (rule run_loop.raw_induct [where P = P, OF _ run], goal_cases)
    case (1 f e' chat' agent' input' seed' t0' st1 x)
    then show ?case using body [of st1] by (cases x) (fastforce simp: P_def split: flow.splits)
  qed
  with I show ?thesis by (simp add: P_def)
qed

lemma run_loop_total:
  assumes I: "I st"
    and body: "\<And>st. I st \<Longrightarrow>
      flow_all (\<lambda>st'. I st' \<and> m st' < (m st :: nat)) (\<lambda>_ _. True)
        (loop_body e chat agent input seed t0 st)"
  shows "\<exists>res. run_loop e chat agent input seed t0 st = Some res"
  using I
proof (induction "m st" arbitrary: st rule: less_induct)
  case less
  show ?case
  proof (cases "loop_body e chat agent input seed t0 st")
    case (Continue st')
    with body [OF less.prems] have "I st'" "m st' < m st" by auto
    with less.hyps obtain res where "run_loop e chat agent input seed t0 st' = Some res" by blast
    with Continue have "run_loop e chat agent input seed t0 st = Some res"
      by (subst run_loop.simps) simp
    then show ?thesis ..
  next
    case (Break ph r st')
    then have "run_loop e chat agent input seed t0 st = Some (ph, r, st')"
      by (subst run_loop.simps) simp
    then show ?thesis ..
  qed
qed

subsection \<open>Every iteration ends a phase or spends one step\<close>

text \<open>The measure of termination and what a break reports.\<close>

definition after_plan :: "Budget \<Rightarrow> int32 \<Rightarrow> 'w loop_state \<Rightarrow> bool" where
  "after_plan b n st \<longleftrightarrow> Steps (ls_usage st) = n + 1
     \<and> sint (n + 1) \<le> sint (MaxSteps b) \<and> sint (n + 1 + 1) \<le> sint (MaxSteps b)"

definition outcome_ok :: "Budget \<Rightarrow> int32 \<Rightarrow> Phase \<Rightarrow> 'w loop_state \<Rightarrow> bool" where
  "outcome_ok b n ph st \<longleftrightarrow> Phase_Terminal ph \<and> (ph = PhaseCompleted \<longrightarrow> after_plan b n st)"

lemma outcome_ok_simps [simp]:
  "outcome_ok b n PhaseExpired st" "outcome_ok b n PhaseFailed st" "outcome_ok b n PhaseCancelled st"
  "outcome_ok b n PhaseCompleted st = after_plan b n st"
  by (simp_all add: outcome_ok_def)

lemma invoke_stage_progress:
  "after_plan b n st \<Longrightarrow> flow_all (after_plan b n) Q (invoke_stage e t0 tool tc ivk st)"
  by (simp add: invoke_stage_def Let_def loop_simps case_prod_beta after_plan_def
      split: sum.split option.split)

lemma reject_call_progress:
  "after_plan b n st \<Longrightarrow> flow_all (after_plan b n) Q (reject_call e rec err st)"
  by (simp add: reject_call_def Let_def loop_simps after_plan_def)

lemma tool_stage_progress:
  "after_plan b n st \<Longrightarrow>
   flow_all (after_plan b n) (outcome_ok b n) (tool_stage e b A t0 tc st)"
  by (auto simp: tool_stage_def loop_simps reject_call_progress invoke_stage_progress
      split: option.split)

lemma final_step_fields [simp]:
  "ls_usage (final_step e t st) = ls_usage st"
  "ls_output (final_step e t st) = ls_output st"
  by (simp_all add: final_step_def loop_simps)

lemma final_stage_progress:
  "after_plan b n st \<Longrightarrow>
   flow_all (after_plan b n) (outcome_ok b n) (final_stage e t answer st)"
  by (simp add: final_stage_def Let_def loop_simps case_prod_beta after_plan_def
      split: sum.split option.split)

lemma decide_stage_progress:
  "after_plan b n st \<Longrightarrow>
   flow_all (after_plan b n) (outcome_ok b n) (decide_stage e b A t0 t1 d st)"
  by (simp add: decide_stage_def final_stage_progress tool_stage_progress
      split: option.split)

lemma account_stage_progress:
  "sint (Steps (ls_usage st) + 1) \<le> sint (MaxSteps b) \<Longrightarrow>
   flow_all (after_plan b (Steps (ls_usage st))) (outcome_ok b (Steps (ls_usage st)))
     (account_stage e b A t0 t1 t2 d st)"
  by (auto simp: account_stage_def Let_def loop_simps budget_simps Usage_Add_def after_plan_def
      intro!: decide_stage_progress)

lemma plan_stage_progress:
  assumes "sint (Steps (ls_usage st) + 1) \<le> sint (MaxSteps (as_Budget agent))"
  shows "flow_all (after_plan (as_Budget agent) (Steps (ls_usage st))) (outcome_ok (as_Budget agent) (Steps (ls_usage st)))
     (plan_stage e chat agent input seed t0 st)"
proof -
  have *: "flow_all (after_plan (as_Budget agent) (Steps (ls_usage st))) (outcome_ok (as_Budget agent) (Steps (ls_usage st)))
      (account_stage e (as_Budget agent) A t0 t1 t2 d st')"
    if "Steps (ls_usage st') = Steps (ls_usage st)" for A t1 t2 d st'
    using account_stage_progress [of st' "as_Budget agent" e A t0 t1 t2 d] assms that
    by simp
  show ?thesis
    by (simp add: plan_stage_def Let_def loop_simps case_prod_beta * split: sum.split)
qed

lemma loop_body_progress:
  "flow_all (after_plan (as_Budget agent) (Steps (ls_usage st))) (outcome_ok (as_Budget agent) (Steps (ls_usage st)))
     (loop_body e chat agent input seed t0 st)"
proof -
  have *: "flow_all (after_plan (as_Budget agent) (Steps (ls_usage st))) (outcome_ok (as_Budget agent) (Steps (ls_usage st)))
      (plan_stage e chat agent input seed t0 st')"
    if "Steps (ls_usage st') = Steps (ls_usage st)"
      "sint (Steps (ls_usage st) + 1) \<le> sint (MaxSteps (as_Budget agent))" for st'
    using plan_stage_progress [of st' agent e chat input seed t0] that
    by simp
  show ?thesis
    by (auto simp: loop_body_def Let_def loop_simps case_prod_beta budget_simps
        intro!: * split: option.split)
qed

end
