(* ===== verification/ExecutorSafety.thy ===== *)
theory ExecutorSafety
  imports Executor
begin

section \<open>Safety and termination of the executor\<close>

text \<open>
  The theorems on \<open>Executor.Run\<close>: it ends, it respects the budget, it only reaches the tools it
  may reach, and what it reports is a legal outcome.
\<close>

subsection \<open>Termination\<close>

definition steps_bounded :: "Budget \<Rightarrow> 'w loop_state \<Rightarrow> bool" where
  "steps_bounded b st \<longleftrightarrow> 0 \<le> sint (Steps (ls_usage st)) \<and> sint (Steps (ls_usage st)) < 2 ^ 31 - 1"

lemma flow_all_mono:
  "flow_all P Q f \<Longrightarrow> (\<And>st. P st \<Longrightarrow> P' st) \<Longrightarrow> (\<And>ph st. Q ph st \<Longrightarrow> Q' ph st) \<Longrightarrow> flow_all P' Q' f"
  by (cases f) auto

lemma loop_body_decreases:
  assumes "sint (MaxSteps (as_Budget agent)) < 2 ^ 31 - 1" and "steps_bounded (as_Budget agent) st"
  shows "flow_all (\<lambda>st'. steps_bounded (as_Budget agent) st'
      \<and> nat (sint (MaxSteps (as_Budget agent)) - sint (Steps (ls_usage st')))
        < nat (sint (MaxSteps (as_Budget agent)) - sint (Steps (ls_usage st)))) (\<lambda>_ _. True)
     (loop_body e chat agent input seed t0 st)"
proof (rule flow_all_mono [OF loop_body_progress])
  fix st' :: "'a loop_state"
  assume ap: "after_plan (as_Budget agent) (Steps (ls_usage st)) st'"
  have "sint (Steps (ls_usage st) + 1) = sint (Steps (ls_usage st)) + 1"
    using assms(2) by (subst sint_add_i32) (auto simp: steps_bounded_def)
  with ap assms show "steps_bounded (as_Budget agent) st'
      \<and> nat (sint (MaxSteps (as_Budget agent)) - sint (Steps (ls_usage st')))
        < nat (sint (MaxSteps (as_Budget agent)) - sint (Steps (ls_usage st)))"
    by (auto simp: after_plan_def steps_bounded_def)
qed simp

lemma run_loop_returns:
  assumes "sint (MaxSteps (as_Budget agent)) < 2 ^ 31 - 1"
  shows "\<exists>res. run_loop e chat agent input seed t0 (init_state w) = Some res"
  by (rule run_loop_total [where I = "steps_bounded (as_Budget agent)", OF _ loop_body_decreases [OF assms]])
    (simp_all add: steps_bounded_def init_state_def zero_Usage_def)

lemma run_loop_mode_cases:
  assumes "run_loop_mode e agent input seed w = Some (Inr res, w')"
  obtains chat t0 w1 ph r st where "ex_LLM e = Some chat" "ex_Now e w = (t0, w1)"
    "run_loop e chat agent input seed t0 (init_state w1) = Some (ph, r, st)"
    "res_Steps res = ls_steps st" "res_Usage res = ls_usage st" "res_Output res = ls_output st"
    "w' = ls_world st" "Phase_Valid ph \<Longrightarrow> res_Phase res = ph"
  using assms
  by (fastforce simp: run_loop_mode_def Let_def split: option.splits prod.splits if_splits)

text \<open>
  Claim C7.  A run in loop mode always ends, whatever the model, the tools, the verifier, the
  clock and the context do, as long as the step budget is below the largest \<open>int32\<close>: every
  iteration that continues spends one step.
\<close>

theorem Run_terminates:
  assumes "sint (MaxSteps (as_Budget agent)) < 2 ^ 31 - 1"
  shows "\<exists>res w'. Run e agent input seed w = Some (res, w')"
proof -
  obtain t0 w1 where now: "ex_Now e w = (t0, w1)" by fastforce
  show ?thesis
  proof (cases "ex_LLM e")
    case (Some chat)
    obtain ph r st where "run_loop e chat agent input seed t0 (init_state w1) = Some (ph, r, st)"
      using run_loop_returns [OF assms] by (metis prod_cases3)
    with Some now show ?thesis by (auto simp: Run_def run_loop_mode_def Let_def)
  qed (auto simp: Run_def run_loop_mode_def)
qed

text \<open>An executor whose model keeps asking for a tool the agent may not use, with a clock that stands still.\<close>

definition stubborn_chat :: "unit \<Rightarrow> ChatRequest \<Rightarrow> (go_error + LLMDecision) \<times> unit" where
  "stubborn_chat w rq = (Inr \<lparr>dec_FinalAnswer = None,
     dec_ToolCall = Some \<lparr>tc_Tool = ''rm'', tc_Arguments = ''null''\<rparr>, dec_Reasoning = [],
     dec_TokensIn = 0, dec_TokensOut = 0\<rparr>, ())"

definition stubborn :: "unit Executor" where
  "stubborn = \<lparr>ex_LLM = Some stubborn_chat, ex_Tools = Map.empty, ex_Invokers = Map.empty,
     ex_Now = (\<lambda>w. (0, w)), ex_Since = (\<lambda>w t. (0, w)), ex_ctx_Err = (\<lambda>w. (None, w)),
     ex_Harness = None, ex_Secrets = None, ex_ResumeSessionID = [], ex_StepSink = None,
     ex_RedactPatterns = [], ex_Verifier = None, ex_VerifyCriteria = [], ex_MaxRepairRounds = 0,
     ex_VerifyFailOnReject = False,
     ex_codec = \<lparr>json_Unmarshal = (\<lambda>_. None), json_Marshal = (\<lambda>_. None)\<rparr>,
     ex_schema = (\<lambda>_ _. None)\<rparr>"

definition agent_with :: "Budget \<Rightarrow> AgentSpec" where
  "agent_with b = \<lparr>as_Mode = ModeLoop, as_Model = \<lparr>mr_ProviderRef = ''openai'', mr_Name = ''m''\<rparr>,
     as_Harness = None, as_Instructions = ''be helpful'', as_Tools = [], as_Storage = None,
     as_Budget = b\<rparr>"

theorem Run_terminates_witness:
  "\<exists>res w'. Run stubborn (agent_with \<lparr>MaxSteps = 3, MaxTokens = 10, MaxWallClockSeconds = 5,
     MaxToolCalls = 1\<rparr>) [] 0 () = Some (res, w')"
  by (rule Run_terminates) (simp add: agent_with_def)

lemma stubborn_continues:
  assumes "Tokens (ls_usage st) = 0" "ToolCalls (ls_usage st) = 0"
  shows "flow_all (\<lambda>st'. Tokens (ls_usage st') = 0 \<and> ToolCalls (ls_usage st') = 0) (\<lambda>_ _. False)
     (loop_body stubborn stubborn_chat
        (agent_with \<lparr>MaxSteps = 2147483647, MaxTokens = 10, MaxWallClockSeconds = 5, MaxToolCalls = 1\<rparr>)
        [] 0 0 st)"
proof -
  have le: "sint (n :: int32) \<le> 2147483647" for n using sint_i32_bounds(2) [of n] by simp
  show ?thesis
    by (simp add: loop_body_def plan_stage_def account_stage_def decide_stage_def tool_stage_def
        reject_call_def Let_def loop_simps budget_simps stubborn_def stubborn_chat_def
        agent_with_def allowedNames_def refresh_wallclock_def Usage_Add_def assms le)
qed

text \<open>
  Claim C8.  The bound of C7 is sharp: with \<open>maxSteps\<close> equal to the largest \<open>int32\<close>, a budget
  \<open>Validate\<close> accepts, the step counter wraps before the check can fail and there is a run that
  never ends.
\<close>

theorem Run_diverges_at_MaxInt32:
  "\<exists>b. Budget_Validate b = [] \<and> sint (MaxSteps b) = 2 ^ 31 - 1 \<and>
     Run stubborn (agent_with b) [] 0 () = None"
proof -
  define b :: Budget where
    "b = \<lparr>MaxSteps = 2147483647, MaxTokens = 10, MaxWallClockSeconds = 5, MaxToolCalls = 1\<rparr>"
  have none: "run_loop stubborn stubborn_chat (agent_with b) [] 0 0 (init_state ()) \<noteq> Some (ph, r, st)"
    for ph r st
    using run_loop_inv [of stubborn stubborn_chat "agent_with b" "[]" 0 0 "init_state ()" ph r st
        "\<lambda>st. Tokens (ls_usage st) = 0 \<and> ToolCalls (ls_usage st) = 0" "\<lambda>_ _. False"]
      stubborn_continues
    by (auto simp: b_def init_state_def zero_Usage_def)
  then have "run_loop stubborn stubborn_chat (agent_with b) [] 0 0 (init_state ()) = None"
    by (metis not_Some_eq prod_cases3)
  then have "Run stubborn (agent_with b) [] 0 () = None"
    by (simp add: Run_def run_loop_mode_def stubborn_def agent_with_def ModeLoop_def ModeHarness_def)
  moreover have "Budget_Validate b = []" "sint (MaxSteps b) = 2 ^ 31 - 1"
    by (simp_all add: budget_simps b_def)
  ultimately show ?thesis by blast
qed

subsection \<open>The budget is never exceeded\<close>

text \<open>
  Usage that is reported from inside a call: the tokens of a verifier and the tokens and tool
  calls of a child run.  The executor adds it to its own usage without a check.
\<close>

definition no_rollup :: "'w Executor \<Rightarrow> bool" where
  "no_rollup e \<longleftrightarrow>
     (\<forall>k ivk w tool args obs w'. ex_Invokers e k = Some ivk \<longrightarrow> ivk w tool args = (Inr obs, w') \<longrightarrow>
        obs_Tokens obs = 0 \<and> obs_ToolCalls obs = 0)
   \<and> (\<forall>v w a c vr w'. ex_Verifier e = Some v \<longrightarrow> v w a c = (Inr vr, w') \<longrightarrow> Tokens (vr_Usage vr) = 0)"

definition in_budget :: "Budget \<Rightarrow> 'w loop_state \<Rightarrow> bool" where
  "in_budget b st \<longleftrightarrow> within_budget b (ls_usage st)"

lemma invoke_stage_in_budget:
  assumes "no_rollup e" "ex_Invokers e k = Some ivk" "in_budget b st"
    "sint (ToolCalls (ls_usage st) + 1) \<le> sint (MaxToolCalls b)"
  shows "flow_all (in_budget b) Q (invoke_stage e t0 tool tc ivk st)"
proof -
  obtain r w where c: "ivk (snd (ex_Now e (ls_world st))) tool (tc_Arguments tc) = (r, w)" by fastforce
  have "obs_Tokens obs = 0 \<and> obs_ToolCalls obs = 0" if "r = Inr obs" for obs
    using assms(1,2) c that unfolding no_rollup_def by blast
  with assms(3,4) c show ?thesis
    by (auto simp: invoke_stage_def Let_def loop_simps in_budget_def within_budget_def
        split: sum.split option.split)
qed

lemma tool_stage_in_budget:
  assumes "no_rollup e" "in_budget b st"
  shows "flow_all (in_budget b) (\<lambda>_. in_budget b) (tool_stage e b A t0 tc st)"
proof -
  have r: "flow_all (in_budget b) Q (reject_call e rec err st)" for rec err Q
    using assms(2) by (simp add: reject_call_def Let_def loop_simps in_budget_def)
  show ?thesis
    using assms invoke_stage_in_budget [OF assms(1) _ assms(2)]
    by (auto simp: tool_stage_def loop_simps budget_simps r split: option.split)
qed

lemma final_stage_in_budget:
  assumes "no_rollup e" "in_budget b st"
  shows "flow_all (in_budget b) (\<lambda>_. in_budget b) (final_stage e t answer st)"
proof (cases "ex_Verifier e")
  case None
  with assms show ?thesis by (simp add: final_stage_def Let_def in_budget_def)
next
  case (Some v)
  obtain r w where c: "v (ls_world st) answer (ex_VerifyCriteria e) = (r, w)" by fastforce
  have "Tokens (vr_Usage vr) = 0" if "r = Inr vr" for vr
    using assms(1) Some c that unfolding no_rollup_def by blast
  with assms(2) Some c show ?thesis
    by (auto simp: final_stage_def Let_def loop_simps in_budget_def within_budget_def split: sum.split)
qed

lemma account_stage_in_budget:
  assumes "no_rollup e" "in_budget b st" "sint (Steps (ls_usage st) + 1) \<le> sint (MaxSteps b)"
  shows "flow_all (in_budget b) (\<lambda>_. in_budget b) (account_stage e b A t0 t1 t2 d st)"
proof -
  have d: "flow_all (in_budget b) (\<lambda>_. in_budget b) (decide_stage e b A t0 t2 d st')"
    if "in_budget b st'" for st' :: "'a loop_state"
    using final_stage_in_budget [OF assms(1) that] tool_stage_in_budget [OF assms(1) that] that
    by (simp add: decide_stage_def split: option.split)
  from assms(2,3) show ?thesis
    by (auto simp: account_stage_def Let_def loop_simps in_budget_def within_budget_def Usage_Add_def
        intro!: d)
qed

lemma loop_body_in_budget:
  assumes "no_rollup e" "in_budget (as_Budget agent) st"
  shows "flow_all (in_budget (as_Budget agent)) (\<lambda>_. in_budget (as_Budget agent))
     (loop_body e chat agent input seed t0 st)"
proof -
  have p: "flow_all (in_budget (as_Budget agent)) (\<lambda>_. in_budget (as_Budget agent))
      (plan_stage e chat agent input seed t0 st')"
    if "in_budget (as_Budget agent) st'"
      "sint (Steps (ls_usage st') + 1) \<le> sint (MaxSteps (as_Budget agent))" for st'
    using that
    by (auto simp: plan_stage_def Let_def loop_simps case_prod_beta in_budget_def within_budget_def
        intro!: account_stage_in_budget [OF assms(1)]
        split: sum.split)
  show ?thesis
    using assms(2)
    by (auto simp: loop_body_def Let_def loop_simps case_prod_beta budget_simps
        in_budget_def within_budget_def
        intro!: p split: option.split)
qed


text \<open>An executor whose model answers at once.\<close>

definition answering :: "unit Executor" where
  "answering = stubborn\<lparr>ex_LLM := Some (\<lambda>w rq. (Inr \<lparr>dec_FinalAnswer = Some ''42'', dec_ToolCall = None,
     dec_Reasoning = [], dec_TokensIn = 3, dec_TokensOut = 4\<rparr>, ()))\<rparr>"

abbreviation small_budget :: Budget where
  "small_budget \<equiv> \<lparr>MaxSteps = 2, MaxTokens = 10, MaxWallClockSeconds = 5, MaxToolCalls = 0\<rparr>"

lemma answering_run:
  "\<exists>res. Run answering (agent_with small_budget) [] 0 () = Some (Inr res, ())
     \<and> res_Phase res = PhaseCompleted \<and> res_Output res = ''42''
     \<and> Steps (res_Usage res) = 1 \<and> Tokens (res_Usage res) = 7 \<and> length (res_Steps res) = 2"
  by (simp add: Run_def run_loop_mode_def run_loop.simps answering_def stubborn_def agent_with_def
      ModeLoop_def ModeHarness_def loop_body_def refresh_wallclock_def budget_gate_def AllowsStep_def
      init_state_def zero_Usage_def plan_stage_def read_now_def account_stage_def Usage_Add_def
      ex_record_def decide_stage_def final_stage_def final_step_def Phase_Valid_def)


subsection \<open>Outcomes\<close>

lemma run_loop_outcome:
  assumes "run_loop e chat agent input seed t0 st = Some (ph, r, st')"
  shows "Phase_Terminal ph
    \<and> (ph = PhaseCompleted \<longrightarrow> sint (Steps (ls_usage st') + 1) \<le> sint (MaxSteps (as_Budget agent)))"
  by (rule run_loop_inv [OF assms, where I = "\<lambda>_. True"])
    (auto intro!: flow_all_mono [OF loop_body_progress] simp: outcome_ok_def after_plan_def)

text \<open>
  Claim C10.  A loop-mode run reports a terminal phase, one the lifecycle lets a Running run move
  to, and it reports Completed only with a step left over: the step after the one that answered
  must still fit the budget.
\<close>

theorem Run_outcome:
  assumes "as_Mode agent \<noteq> ModeHarness" and "Run e agent input seed w = Some (Inr res, w')"
  shows "Phase_Terminal (res_Phase res) \<and> CanTransition PhaseRunning (res_Phase res) = None
    \<and> (res_Phase res = PhaseCompleted \<longrightarrow>
         sint (Steps (res_Usage res) + 1) \<le> sint (MaxSteps (as_Budget agent)))"
proof -
  from assms have "run_loop_mode e agent input seed w = Some (Inr res, w')"
    by (simp add: Run_def)
  then obtain chat t0 w1 ph r st where
    run: "run_loop e chat agent input seed t0 (init_state w1) = Some (ph, r, st)"
    and u: "res_Usage res = ls_usage st" and ph: "Phase_Valid ph \<Longrightarrow> res_Phase res = ph"
    by (rule run_loop_mode_cases) blast
  from run_loop_outcome [OF run] u ph show ?thesis
    by (simp add: Terminal_Valid Running_to_terminal)
qed

theorem Run_outcome_witness:
  "\<exists>res. Run answering (agent_with small_budget) [] 0 () = Some (Inr res, ())
     \<and> res_Phase res = PhaseCompleted \<and> CanTransition PhaseRunning (res_Phase res) = None
     \<and> sint (Steps (res_Usage res) + 1) \<le> 2"
proof -
  obtain res where r: "Run answering (agent_with small_budget) [] 0 () = Some (Inr res, ())"
    and c: "res_Phase res = PhaseCompleted"
    using answering_run by blast
  from Run_outcome [OF _ r] r c show ?thesis
    by (auto simp: agent_with_def ModeLoop_def ModeHarness_def)
qed

text \<open>
  An agent whose budget allows one step can never complete in loop mode, although
  \<open>Validate\<close> accepts the budget: the answer of the first and only step is discarded, because the
  check after the plan asks for room for another step.
\<close>

lemma one_step_never_completes:
  assumes "sint (MaxSteps (as_Budget agent)) = 1" and "as_Mode agent \<noteq> ModeHarness"
    and "Run e agent input seed w = Some (Inr res, w')"
  shows "res_Phase res \<noteq> PhaseCompleted"
proof
  assume c: "res_Phase res = PhaseCompleted"
  from assms(2,3) have "run_loop_mode e agent input seed w = Some (Inr res, w')"
    by (simp add: Run_def)
  then obtain chat t0 w1 ph r st where
    run: "run_loop e chat agent input seed t0 (init_state w1) = Some (ph, r, st)"
    and ph: "Phase_Valid ph \<Longrightarrow> res_Phase res = ph"
    by (rule run_loop_mode_cases) blast
  have "ph \<noteq> PhaseCompleted"
  proof (rule run_loop_inv [OF run, where I = "\<lambda>st. Steps (ls_usage st) = 0"])
    fix st :: "'a loop_state"
    assume "Steps (ls_usage st) = 0"
    with assms(1) show "flow_all (\<lambda>st. Steps (ls_usage st) = 0) (\<lambda>ph _. ph \<noteq> PhaseCompleted)
        (loop_body e chat agent input seed t0 st)"
      by (intro flow_all_mono [OF loop_body_progress]) (auto simp: outcome_ok_def after_plan_def)
  qed (simp add: init_state_def zero_Usage_def)
  with run_loop_outcome [OF run] ph c show False
    by (simp add: Terminal_Valid)
qed


subsection \<open>Harness mode\<close>

lemma harnessOutputJSON_valid: "\<not> json_Valid (harnessOutputJSON out) \<Longrightarrow> harnessOutputJSON out = []"
  by (simp add: harnessOutputJSON_def Let_def json_Valid_quote split: if_splits)

text \<open>
  Claim C16.  A harness-mode run records exactly one step, ends in a terminal phase, and its
  output is absent or valid JSON, for every byte string a coding CLI can print; a Completed one is
  within the token budget when there is one.
\<close>

theorem runHarness_result:
  assumes "as_Mode agent = ModeHarness" and "Run e agent input seed w = Some (Inr res, w')"
  shows "length (res_Steps res) = 1 \<and> Phase_Terminal (res_Phase res)
    \<and> (res_Output res = [] \<or> json_Valid (res_Output res))
    \<and> (res_Phase res = PhaseCompleted \<longrightarrow> 0 < sint (MaxTokens (as_Budget agent)) \<longrightarrow>
         sint (Tokens (res_Usage res)) \<le> sint (MaxTokens (as_Budget agent)))"
  using assms
  by (auto simp: Run_def runHarness_def Let_def intro: harnessOutputJSON_valid
      split: option.splits prod.splits sum.splits if_splits)

definition shell_harness :: "unit Executor" where
  "shell_harness = stubborn\<lparr>ex_Harness := Some (\<lambda>w rq. (\<lparr>resp_Output = ''done'', resp_TokensIn = 1, resp_TokensOut = 2,
     resp_CostUSDMilli = 0, resp_ToolCalls = [], resp_SessionID = []\<rparr>, None, ()))\<rparr>"

theorem runHarness_result_witness:
  "\<exists>res. Run shell_harness ((agent_with small_budget)\<lparr>as_Mode := ModeHarness, as_Harness := Some
       \<lparr>hs_Kind = ''cli'', hs_Env = [], hs_SessionPolicy = [], hs_CLI_WorkingDir = None\<rparr>\<rparr>) [] 0 ()
       = Some (Inr res, ())
     \<and> length (res_Steps res) = 1 \<and> (res_Output res = [] \<or> json_Valid (res_Output res))"
proof -
  define a where "a = (agent_with small_budget)\<lparr>as_Mode := ModeHarness, as_Harness := Some
       \<lparr>hs_Kind = ''cli'', hs_Env = [], hs_SessionPolicy = [], hs_CLI_WorkingDir = None\<rparr>\<rparr>"
  have "\<exists>res. Run shell_harness a [] 0 () = Some (Inr res, ())"
    by (simp add: a_def Run_def runHarness_def shell_harness_def stubborn_def agent_with_def)
  then obtain res where r: "Run shell_harness a [] 0 () = Some (Inr res, ())" by blast
  from runHarness_result [OF _ r] r show ?thesis by (auto simp: a_def)
qed

end
