(* ===== verification/ExecutorTrace.thy ===== *)
theory ExecutorTrace
  imports ExecutorSafety
begin

section \<open>What the executor does to the outside\<close>

text \<open>
  The effects of a loop-mode run: which tools it invokes, with which arguments, what it shows to
  the model and what it sends to the step sink.  An executor is instrumented by wrapping the
  functions it holds so that every call appends an event to a log kept in the world; the program
  itself is the same \<^const>\<open>Run\<close>.

  The locale \<open>loop_effects\<close> states what a property of the tool-call counter, the step log and the
  world has to satisfy, call by call, and proves that one iteration of the loop keeps it.
\<close>

definition sink_world :: "'w Executor \<Rightarrow> Step \<Rightarrow> 'w \<Rightarrow> 'w" where
  "sink_world e s w = (case ex_StepSink e of None \<Rightarrow> w | Some emit \<Rightarrow>
     emit w (if ex_RedactPatterns e \<noteq> [] then hd (RedactSteps (ex_codec e) [s] (ex_RedactPatterns e)) else s))"

lemma world_simps [simp]:
  "ls_world (ex_record e s st) = sink_world e s (ls_world st)"
  "ls_world (refresh_wallclock e t st) = snd (ex_Since e (ls_world st) t)"
  by (simp_all add: ex_record_def sink_world_def refresh_wallclock_def case_prod_beta)

definition step_ok :: "string set \<Rightarrow> Step list \<Rightarrow> Step \<Rightarrow> bool" where
  "step_ok A xs s \<longleftrightarrow> step_Index s = of_nat (length xs)
     \<and> (step_Kind s \<noteq> StepToolCallRejected \<longrightarrow> (\<forall>c \<in> set (step_ToolCalls s). tcr_Tool c \<in> insert ''_verify'' A))"

definition reported_calls :: "'w Executor \<Rightarrow> Tool \<Rightarrow> go_error + Observation \<Rightarrow> int32" where
  "reported_calls e tool r = (case r of Inl _ \<Rightarrow> 0
     | Inr obs \<Rightarrow> (case ValidateAgainstSchema e (ts_OutputSchema (tool_Spec tool)) (obs_Output obs) of
         None \<Rightarrow> obs_ToolCalls obs | Some _ \<Rightarrow> 0))"

locale loop_effects =
  fixes e :: "'w Executor" and chat :: "'w \<Rightarrow> ChatRequest \<Rightarrow> (go_error + LLMDecision) \<times> 'w"
    and A :: "string set" and b :: Budget and I :: "int32 \<Rightarrow> Step list \<Rightarrow> 'w \<Rightarrow> bool"
  assumes Now: "I c xs w \<Longrightarrow> I c xs (snd (ex_Now e w))"
    and Since: "I c xs w \<Longrightarrow> I c xs (snd (ex_Since e w t))"
    and Ctx: "I c xs w \<Longrightarrow> I c xs (snd (ex_ctx_Err e w))"
    and Chat: "I c xs w \<Longrightarrow> cr_Tools rq = toolsFor e A \<Longrightarrow> cr_History rq = xs \<Longrightarrow> I c xs (snd (chat w rq))"
    and Verify: "ex_Verifier e = Some v \<Longrightarrow> I c xs w \<Longrightarrow> I c xs (snd (v w a cr))"
    and Record: "I c xs w \<Longrightarrow> step_ok A xs s \<Longrightarrow> I c (xs @ [s]) (sink_world e s w)"
    and Invoke: "I c xs w \<Longrightarrow> n \<in> A \<Longrightarrow> ex_Tools e n = Some tool \<Longrightarrow>
      ValidateAgainstSchema e (ts_InputSchema (tool_Spec tool)) args = None \<Longrightarrow>
      sint (c + 1) \<le> sint (MaxToolCalls b) \<Longrightarrow> ex_Invokers e (ts_Kind (tool_Spec tool)) = Some ivk \<Longrightarrow>
      ivk w tool args = (r, w') \<Longrightarrow> I (c + 1 + reported_calls e tool r) xs w'"
begin

definition holds :: "'w loop_state \<Rightarrow> bool" where
  "holds st = I (ToolCalls (ls_usage st)) (ls_steps st) (ls_world st)"

lemma reject_call_effects:
  "holds st \<Longrightarrow> flow_all holds Q (reject_call e rec err st)"
  by (auto simp: reject_call_def Let_def loop_simps holds_def step_ok_def intro!: Record Now)

lemma invoke_stage_effects:
  assumes "holds st" "tc_Tool tc \<in> A" "ex_Tools e (tc_Tool tc) = Some tool"
    "ValidateAgainstSchema e (ts_InputSchema (tool_Spec tool)) (tc_Arguments tc) = None"
    "sint (ToolCalls (ls_usage st) + 1) \<le> sint (MaxToolCalls b)"
    "ex_Invokers e (ts_Kind (tool_Spec tool)) = Some ivk"
  shows "flow_all holds Q (invoke_stage e t0 tool tc ivk st)"
proof -
  obtain r w where c: "ivk (snd (ex_Now e (ls_world st))) tool (tc_Arguments tc) = (r, w)" by fastforce
  have i: "I (ToolCalls (ls_usage st) + 1 + reported_calls e tool r) (ls_steps st) (snd (ex_Now e w))"
    using assms by (intro Now Invoke [OF _ assms(2-6) c]) (simp add: holds_def)
  with assms(2) c show ?thesis
    by (auto simp: invoke_stage_def Let_def loop_simps holds_def reported_calls_def step_ok_def
        intro!: Since Record split: sum.split option.split)
qed

lemma tool_stage_effects:
  "holds st \<Longrightarrow> flow_all holds (\<lambda>_. holds) (tool_stage e b A t0 tc st)"
  by (auto simp: tool_stage_def loop_simps budget_simps reject_call_effects
      intro!: invoke_stage_effects split: option.split)

lemma final_step_effects:
  "holds st \<Longrightarrow> holds (final_step e t st)"
  by (auto simp: final_step_def Let_def loop_simps holds_def step_ok_def intro!: Record Now)

lemma holds_fields:
  "holds (st\<lparr>ls_output := a\<rparr>) = holds st" "holds (st\<lparr>ls_repairRounds := n\<rparr>) = holds st"
  "holds (st\<lparr>ls_usage := (ls_usage st)\<lparr>Tokens := t\<rparr>\<rparr>) = holds st"
  by (simp_all add: holds_def)

lemma final_stage_effects:
  assumes "holds st"
  shows "flow_all holds (\<lambda>_. holds) (final_stage e t answer st)"
proof (cases "ex_Verifier e")
  case None
  with assms show ?thesis by (simp add: final_stage_def Let_def final_step_effects holds_fields)
next
  case (Some v)
  obtain r w where c: "v (ls_world st) answer (ex_VerifyCriteria e) = (r, w)" by fastforce
  from Verify [OF Some, of _ _ "ls_world st" answer "ex_VerifyCriteria e"] c assms
  have "I (ToolCalls (ls_usage st)) (ls_steps st) w" by (simp add: holds_def)
  with Some c show ?thesis
    by (auto simp: final_stage_def Let_def loop_simps step_ok_def holds_def [of "_\<lparr>ls_world := _\<rparr>"]
        holds_def [of "_\<lparr>ls_usage := _\<rparr>"] holds_def [of "ex_record _ _ _"]
        intro!: final_step_effects Record Now split: sum.split)
qed

lemma decide_stage_effects:
  "holds st \<Longrightarrow> flow_all holds (\<lambda>_. holds) (decide_stage e b A t0 t1 d st)"
  by (simp add: decide_stage_def final_stage_effects tool_stage_effects split: option.split)

lemma account_stage_effects:
  "holds st \<Longrightarrow> flow_all holds (\<lambda>_. holds) (account_stage e b A t0 t1 t2 d st)"
  by (auto simp: account_stage_def Let_def loop_simps holds_def [of "ex_record _ _ _"] holds_def [of st]
      Usage_Add_def step_ok_def intro!: decide_stage_effects Record)

lemma loop_body_effects:
  assumes "holds st" "A = allowedNames (as_Tools agent)" "b = as_Budget agent"
  shows "flow_all holds (\<lambda>_. holds) (loop_body e chat agent input seed t0 st)"
proof -
  have p: "flow_all holds (\<lambda>_. holds) (plan_stage e chat agent input seed t0 st')" if "holds st'" for st'
    using that assms(2,3)
    by (auto simp: plan_stage_def Let_def loop_simps case_prod_beta step_ok_def
        holds_def [of "ex_record _ _ _"] holds_def [of "refresh_wallclock _ _ _"] holds_def [of st']
        intro!: account_stage_effects [unfolded assms(2,3)] Record Now Since Chat split: sum.split)
  show ?thesis
    using assms(1)
    by (auto simp: loop_body_def Let_def loop_simps case_prod_beta intro!: p split: option.split)
      (auto simp: holds_def intro!: Since Ctx)
qed

lemma run_loop_effects:
  assumes "run_loop e chat agent input seed t0 st = Some (ph, r, st')" "holds st"
    "A = allowedNames (as_Tools agent)" "b = as_Budget agent"
  shows "holds st'"
  using run_loop_inv [OF assms(1), of holds "\<lambda>_. holds"] assms(2-4) loop_body_effects by blast

end

subsection \<open>The instrumented executor\<close>

datatype event = Invoked Tool bytes | Chatted ChatRequest | Emitted Step

abbreviation lift_world :: "('w \<Rightarrow> 'x \<times> 'w) \<Rightarrow> 'w \<times> event list \<Rightarrow> 'x \<times> ('w \<times> event list)" where
  "lift_world f w \<equiv> (fst (f (fst w)), (snd (f (fst w)), snd w))"

abbreviation note_event :: "event \<Rightarrow> ('w \<Rightarrow> 'x \<times> 'w) \<Rightarrow> 'w \<times> event list \<Rightarrow> 'x \<times> ('w \<times> event list)" where
  "note_event ev f w \<equiv> (fst (f (fst w)), (snd (f (fst w)), snd w @ [ev]))"

definition traced :: "'w Executor \<Rightarrow> ('w \<times> event list) Executor" where
  "traced e =
     \<lparr>ex_LLM = map_option (\<lambda>chat w rq. note_event (Chatted rq) (\<lambda>w. chat w rq) w) (ex_LLM e),
      ex_Tools = ex_Tools e,
      ex_Invokers = (\<lambda>k. map_option (\<lambda>ivk w tool args.
        note_event (Invoked tool args) (\<lambda>w. ivk w tool args) w) (ex_Invokers e k)),
      ex_Now = lift_world (ex_Now e),
      ex_Since = (\<lambda>w t. lift_world (\<lambda>w. ex_Since e w t) w),
      ex_ctx_Err = lift_world (ex_ctx_Err e),
      ex_Harness = map_option (\<lambda>h w rq.
        (fst (h (fst w) rq), fst (snd (h (fst w) rq)), (snd (snd (h (fst w) rq)), snd w))) (ex_Harness e),
      ex_Secrets = map_option (\<lambda>lease w n. lift_world (\<lambda>w. lease w n) w) (ex_Secrets e),
      ex_ResumeSessionID = ex_ResumeSessionID e,
      ex_StepSink = map_option (\<lambda>emit w s. (emit (fst w) s, snd w @ [Emitted s])) (ex_StepSink e),
      ex_RedactPatterns = ex_RedactPatterns e,
      ex_Verifier = map_option (\<lambda>v w a c. lift_world (\<lambda>w. v w a c) w) (ex_Verifier e),
      ex_VerifyCriteria = ex_VerifyCriteria e, ex_MaxRepairRounds = ex_MaxRepairRounds e,
      ex_VerifyFailOnReject = ex_VerifyFailOnReject e, ex_codec = ex_codec e, ex_schema = ex_schema e\<rparr>"

fun invocations :: "event list \<Rightarrow> (Tool \<times> bytes) list" where
  "invocations [] = []"
| "invocations (Invoked tool args # es) = (tool, args) # invocations es"
| "invocations (_ # es) = invocations es"

fun requests :: "event list \<Rightarrow> ChatRequest list" where
  "requests [] = []"
| "requests (Chatted rq # es) = rq # requests es"
| "requests (_ # es) = requests es"

fun emissions :: "event list \<Rightarrow> Step list" where
  "emissions [] = []"
| "emissions (Emitted s # es) = s # emissions es"
| "emissions (_ # es) = emissions es"

lemma event_append [simp]:
  "invocations (xs @ ys) = invocations xs @ invocations ys"
  "requests (xs @ ys) = requests xs @ requests ys"
  "emissions (xs @ ys) = emissions xs @ emissions ys"
  by (induction xs rule: invocations.induct) auto

text \<open>What the step sink may see of a step.\<close>

definition shown :: "'w Executor \<Rightarrow> Step \<Rightarrow> Step" where
  "shown e s = (if ex_RedactPatterns e \<noteq> [] then hd (RedactSteps (ex_codec e) [s] (ex_RedactPatterns e)) else s)"

lemma traced_simps [simp]:
  "ex_LLM (traced e) = map_option (\<lambda>chat w rq. note_event (Chatted rq) (\<lambda>w. chat w rq) w) (ex_LLM e)"
  "ex_Tools (traced e) = ex_Tools e"
  "ex_Invokers (traced e) k = map_option (\<lambda>ivk w tool args.
     note_event (Invoked tool args) (\<lambda>w. ivk w tool args) w) (ex_Invokers e k)"
  "ex_Now (traced e) w = lift_world (ex_Now e) w"
  "ex_Since (traced e) w t = lift_world (\<lambda>w. ex_Since e w t) w"
  "ex_ctx_Err (traced e) w = lift_world (ex_ctx_Err e) w"
  "ex_Verifier (traced e) = map_option (\<lambda>v w a c. lift_world (\<lambda>w. v w a c) w) (ex_Verifier e)"
  "toolsFor (traced e) A = toolsFor e A"
  by (simp_all add: traced_def toolsFor_def)

lemma ValidateAgainstSchema_traced [simp]:
  "ValidateAgainstSchema (traced e) = ValidateAgainstSchema e"
  by (simp add: ValidateAgainstSchema_def fun_eq_iff traced_def)

lemma sink_world_traced [simp]:
  "sink_world (traced e) s w = (sink_world e s (fst w), snd w @ (if ex_StepSink e = None then [] else [Emitted (shown e s)]))"
  by (auto simp: sink_world_def traced_def shown_def split: option.split)

definition permitted :: "'w Executor \<Rightarrow> string set \<Rightarrow> Tool \<times> bytes \<Rightarrow> bool" where
  "permitted e A = (\<lambda>(tool, args). (\<exists>n \<in> A. ex_Tools e n = Some tool)
     \<and> ValidateAgainstSchema e (ts_InputSchema (tool_Spec tool)) args = None)"

definition log_ok :: "string set \<Rightarrow> Step list \<Rightarrow> bool" where
  "log_ok A xs \<longleftrightarrow> (\<forall>i < length xs. step_ok A (take i xs) (xs ! i))"

lemma log_ok_snoc: "log_ok A (xs @ [s]) \<longleftrightarrow> log_ok A xs \<and> step_ok A xs s"
  by (auto simp: log_ok_def nth_append less_Suc_eq)

definition trace_ok ::
  "'w Executor \<Rightarrow> string set \<Rightarrow> Budget \<Rightarrow> int32 \<Rightarrow> Step list \<Rightarrow> 'w \<times> event list \<Rightarrow> bool" where
  "trace_ok e A b c xs w \<longleftrightarrow>
     list_all (permitted e A) (invocations (snd w))
   \<and> list_all (\<lambda>rq. cr_Tools rq = toolsFor e A) (requests (snd w))
   \<and> (ex_StepSink e \<noteq> None \<longrightarrow> emissions (snd w) = map (shown e) xs) \<and> log_ok A xs"

definition count_ok ::
  "'w Executor \<Rightarrow> Budget \<Rightarrow> int32 \<Rightarrow> Step list \<Rightarrow> 'w \<times> event list \<Rightarrow> bool" where
  "count_ok e b c xs w \<longleftrightarrow>
     (no_rollup e \<and> sint (MaxToolCalls b) < 2 ^ 31 - 1 \<and> 0 \<le> sint (MaxToolCalls b) \<longrightarrow>
        int (length (invocations (snd w))) = sint c \<and> sint c \<le> sint (MaxToolCalls b))"

lemma no_rollup_reported:
  "no_rollup e \<Longrightarrow> ex_Invokers e k = Some ivk \<Longrightarrow> reported_calls (traced e) tool (fst (ivk w tool args)) = 0"
  by (auto simp: no_rollup_def reported_calls_def split: sum.split option.split)
    (metis prod.collapse)+

interpretation tr: loop_effects "traced e" "\<lambda>w rq. note_event (Chatted rq) (\<lambda>w. chat w rq) w" A b "trace_ok e A b"
  for e :: "'w Executor" and chat A b
  by unfold_locales (auto simp: trace_ok_def log_ok_snoc permitted_def)

lemma sint_suc_i32:
  "0 \<le> sint c \<Longrightarrow> sint c \<le> m \<Longrightarrow> m < 2 ^ 31 - 1 \<Longrightarrow> sint ((c :: int32) + 1) = sint c + 1"
  by (subst sint_add_i32) auto

interpretation cnt: loop_effects "traced e" "\<lambda>w rq. note_event (Chatted rq) (\<lambda>w. chat w rq) w" A b "count_ok e b"
  for e :: "'w Executor" and chat A b
proof unfold_locales
  fix c :: int32 and xs w n tool args ivk r w'
  assume inv: "count_ok e b c xs w" and g: "sint (c + 1) \<le> sint (MaxToolCalls b)"
    and k: "ex_Invokers (traced e) (ts_Kind (tool_Spec tool)) = Some ivk" and v: "ivk w tool args = (r, w')"
  from k v show "count_ok e b (c + 1 + reported_calls (traced e) tool r) xs w'"
    using inv g
    by (auto simp: count_ok_def no_rollup_reported sint_suc_i32 [where m = "sint (MaxToolCalls b)"])
qed (auto simp: count_ok_def)

lemma traced_run:
  assumes "as_Mode agent \<noteq> ModeHarness" "Run (traced e) agent input seed (w, []) = Some (Inr res, (w', evs))"
  shows "\<exists>c. trace_ok e (allowedNames (as_Tools agent)) (as_Budget agent) c (res_Steps res) (w', evs)
    \<and> count_ok e (as_Budget agent) c (res_Steps res) (w', evs)"
proof -
  from assms have "run_loop_mode (traced e) agent input seed (w, []) = Some (Inr res, (w', evs))"
    by (simp add: Run_def)
  then obtain chat t0 w1 ph r st where l: "ex_LLM (traced e) = Some chat" and n: "ex_Now (traced e) (w, []) = (t0, w1)"
    and run: "run_loop (traced e) chat agent input seed t0 (init_state w1) = Some (ph, r, st)"
    and s: "res_Steps res = ls_steps st" "(w', evs) = ls_world st"
    by (rule run_loop_mode_cases)
  from l obtain c0 where c: "chat = (\<lambda>w rq. note_event (Chatted rq) (\<lambda>w. c0 w rq) w)"
    by auto
  have "tr.holds e (allowedNames (as_Tools agent)) (as_Budget agent) st"
    by (rule tr.run_loop_effects [OF run [unfolded c]])
      (use n in \<open>auto simp: tr.holds_def init_state_def trace_ok_def log_ok_def zero_Usage_def\<close>)
  moreover have "cnt.holds e (as_Budget agent) st"
    by (rule cnt.run_loop_effects [OF run [unfolded c]])
      (use n in \<open>auto simp: cnt.holds_def init_state_def count_ok_def zero_Usage_def\<close>)
  ultimately show ?thesis
    using s by (auto simp: tr.holds_def cnt.holds_def)
qed

subsection \<open>Properties of the effects\<close>

text \<open>An executor over a world that counts the model calls: one tool call, then an answer.\<close>

definition echo_tool :: Tool where
  "echo_tool = \<lparr>tool_Name = ''echo'', tool_Spec = \<lparr>ts_Kind = ToolFunction, ts_Description = [],
     ts_InputSchema = [], ts_OutputSchema = [], ts_MCP = None, ts_HTTP = None, ts_Agent = None,
     ts_Function = Some ''echo'', ts_Fanout = None\<rparr>\<rparr>"

definition caller :: "nat Executor" where
  "caller = \<lparr>ex_LLM = Some (\<lambda>w rq. (Inr \<lparr>dec_FinalAnswer = (if w = 0 then None else Some ''1''),
       dec_ToolCall = Some \<lparr>tc_Tool = ''echo'', tc_Arguments = ''1''\<rparr>, dec_Reasoning = [],
       dec_TokensIn = 1, dec_TokensOut = 1\<rparr>, Suc w)),
     ex_Tools = [''echo'' \<mapsto> echo_tool],
     ex_Invokers = [ToolFunction \<mapsto> (\<lambda>w tool args. (Inr \<lparr>obs_Output = args, obs_DurationMs = 0,
       obs_Tokens = 0, obs_ToolCalls = 0\<rparr>, w))],
     ex_Now = (\<lambda>w. (0, w)), ex_Since = (\<lambda>w t. (0, w)), ex_ctx_Err = (\<lambda>w. (None, w)),
     ex_Harness = None, ex_Secrets = None, ex_ResumeSessionID = [],
     ex_StepSink = Some (\<lambda>w s. w), ex_RedactPatterns = [], ex_Verifier = None,
     ex_VerifyCriteria = [], ex_MaxRepairRounds = 0, ex_VerifyFailOnReject = False,
     ex_codec = \<lparr>json_Unmarshal = (\<lambda>_. None), json_Marshal = (\<lambda>_. None)\<rparr>,
     ex_schema = (\<lambda>_ _. None)\<rparr>"

definition caller_agent :: AgentSpec where
  "caller_agent = (agent_with \<lparr>MaxSteps = 3, MaxTokens = 10, MaxWallClockSeconds = 5, MaxToolCalls = 1\<rparr>)
     \<lparr>as_Tools := [\<lparr>tr_Name = ''echo'', tr_Namespace = []\<rparr>]\<rparr>"

lemma json_Valid_1: "json_Valid ''1''"
  by code_simp

lemma bytes_TrimSpace_Nil: "bytes_TrimSpace [] = []"
  by code_simp

lemma echo_run:
  "\<exists>res evs. Run (traced caller) caller_agent [] 0 (0, []) = Some (Inr res, (2, evs))
     \<and> invocations evs = [(echo_tool, ''1'')] \<and> length (requests evs) = 2 \<and> length (res_Steps res) = 4"
  by (simp add: Let_def Run_def run_loop_mode_def run_loop.simps caller_def caller_agent_def agent_with_def
      traced_def ModeLoop_def ModeHarness_def loop_body_def refresh_wallclock_def budget_gate_def
      AllowsStep_def init_state_def zero_Usage_def plan_stage_def read_now_def account_stage_def
      Usage_Add_def ex_record_def decide_stage_def tool_stage_def invoke_stage_def allowedNames_def
      ValidateAgainstSchema_def echo_tool_def json_Valid_1 final_stage_def final_step_def
      Phase_Valid_def bytes_TrimSpace_Nil)

text \<open>
  Claim C12.  In loop mode, every tool the executor invokes is a catalog tool whose name is on the
  agent's allow-list, called with arguments that satisfy the tool's input schema; and every
  request to the model offers exactly the allowed part of the catalog.  When tools report no calls of
  their own, the run invokes at most \<open>maxToolCalls\<close> tools, failed calls included.
\<close>

theorem Run_invokes_only_allowed:
  assumes "as_Mode agent \<noteq> ModeHarness"
    and "Run (traced e) agent input seed (w, []) = Some (Inr res, (w', evs))"
  shows "(\<forall>tool args. (tool, args) \<in> set (invocations evs) \<longrightarrow>
            (\<exists>n \<in> allowedNames (as_Tools agent). ex_Tools e n = Some tool)
          \<and> ValidateAgainstSchema e (ts_InputSchema (tool_Spec tool)) args = None)
    \<and> (\<forall>rq. rq \<in> set (requests evs) \<longrightarrow> cr_Tools rq = ex_Tools e |` allowedNames (as_Tools agent))
    \<and> (no_rollup e \<longrightarrow> 0 \<le> sint (MaxToolCalls (as_Budget agent)) \<longrightarrow> sint (MaxToolCalls (as_Budget agent)) < 2 ^ 31 - 1 \<longrightarrow>
        int (length (invocations evs)) \<le> sint (MaxToolCalls (as_Budget agent)))"
  using traced_run [OF assms]
  by (auto simp: trace_ok_def permitted_def list_all_iff toolsFor_def count_ok_def split: prod.splits)

theorem Run_invokes_only_allowed_witness:
  "\<exists>res evs. Run (traced caller) caller_agent [] 0 (0, []) = Some (Inr res, (2, evs))
     \<and> invocations evs = [(echo_tool, ''1'')] \<and> int (length (invocations evs)) \<le> sint (MaxToolCalls (as_Budget caller_agent))
     \<and> (\<exists>n \<in> allowedNames (as_Tools caller_agent). ex_Tools caller n = Some echo_tool)"
proof -
  obtain res evs where r: "Run (traced caller) caller_agent [] 0 (0, []) = Some (Inr res, (2, evs))"
    and i: "invocations evs = [(echo_tool, ''1'')]"
    using echo_run by blast
  have m: "as_Mode caller_agent \<noteq> ModeHarness" "no_rollup caller" "sint (MaxToolCalls (as_Budget caller_agent)) = 1"
    by (simp_all add: caller_agent_def agent_with_def ModeLoop_def ModeHarness_def no_rollup_def caller_def)
  from Run_invokes_only_allowed [OF m(1) r] i m(2,3) r show ?thesis by auto
qed



end
