(* ===== verification/GoStrings.thy ===== *)
theory GoStrings
  imports Prelude "HOL-Library.Sublist"
begin

section \<open>Strings and paths of the Go library\<close>

text \<open>
  The functions of \<open>strings\<close> and \<open>path\<close> the modelled code calls.  \<open>path_Clean\<close> works on the
  components between slashes: empty and dot components are dropped, a dot-dot component removes
  the component before it when there is one that is not itself dot-dot, is dropped at a root
  and kept otherwise.
\<close>

abbreviation slash :: char where "slash \<equiv> CHR ''/''"

text \<open>A name without a slash.\<close>

definition plain :: "string \<Rightarrow> bool" where
  "plain s \<longleftrightarrow> slash \<notin> set s"

text \<open>The \<open>%q\<close> verb on a string that needs no escapes.\<close>

definition quoted :: "string \<Rightarrow> string" where
  "quoted s = CHR 0x22 # s @ [CHR 0x22]"

definition HasPrefix :: "string \<Rightarrow> string \<Rightarrow> bool" where
  "HasPrefix s pre \<longleftrightarrow> take (length pre) s = pre"

definition TrimPrefix :: "string \<Rightarrow> string \<Rightarrow> string" where
  "TrimPrefix s pre = (if HasPrefix s pre then drop (length pre) s else s)"

fun str_Contains :: "string \<Rightarrow> string \<Rightarrow> bool" where
  "str_Contains [] sub = (sub = [])"
| "str_Contains (c # s) sub = (HasPrefix (c # s) sub \<or> str_Contains s sub)"

definition HasSuffix :: "string \<Rightarrow> string \<Rightarrow> bool" where
  "HasSuffix s suf \<longleftrightarrow> length suf \<le> length s \<and> drop (length s - length suf) s = suf"

text \<open>The index of the first occurrence, \<^term>\<open>None\<close> for -1.\<close>

fun str_Index :: "string \<Rightarrow> string \<Rightarrow> nat option" where
  "str_Index [] sub = (if sub = [] then Some 0 else None)"
| "str_Index (c # s) sub = (if HasPrefix (c # s) sub then Some 0 else map_option Suc (str_Index s sub))"

text \<open>\<open>strings.Split\<close> at a separator of one byte.\<close>

fun str_Split :: "char \<Rightarrow> string \<Rightarrow> string list" where
  "str_Split d [] = [[]]"
| "str_Split d (c # s) = (if c = d then [] # str_Split d s else (c # hd (str_Split d s)) # tl (str_Split d s))"

fun split_slash :: "string \<Rightarrow> string list" where
  "split_slash [] = [[]]"
| "split_slash (c # s) =
     (if c = slash then [] # split_slash s
      else (c # hd (split_slash s)) # tl (split_slash s))"

fun join_slash :: "string list \<Rightarrow> string" where
  "join_slash [] = []"
| "join_slash [c] = c"
| "join_slash (c # cs) = c @ slash # join_slash cs"

fun clean_step :: "bool \<Rightarrow> string \<Rightarrow> string list \<Rightarrow> string list" where
  "clean_step rooted c stack =
     (if c = [] \<or> c = ''.'' then stack
      else if c = ''..'' then
        (case stack of
           [] \<Rightarrow> if rooted then [] else [c]
         | t # rest \<Rightarrow> if t = ''..'' then c # stack else rest)
      else c # stack)"

definition path_IsAbs :: "string \<Rightarrow> bool" where
  "path_IsAbs p \<longleftrightarrow> p \<noteq> [] \<and> hd p = slash"

definition path_Clean :: "string \<Rightarrow> string" where
  "path_Clean p =
     (let rooted = path_IsAbs p;
          out = (if rooted then [slash] else []) @ join_slash (rev (fold (clean_step rooted) (split_slash p) []))
      in if out = [] then ''.'' else out)"

subsection \<open>Laws\<close>

lemma HasPrefix_iff: "HasPrefix s pre \<longleftrightarrow> (\<exists>r. s = pre @ r)"
  unfolding HasPrefix_def by (metis append_eq_conv_conj append_take_drop_id)

lemma HasPrefix_append [simp]: "HasPrefix (pre @ r) pre" "TrimPrefix (pre @ r) pre = r"
  by (simp_all add: HasPrefix_def TrimPrefix_def)

lemma plain_append [simp]: "plain (a @ b) \<longleftrightarrow> plain a \<and> plain b"
  and plain_simps [simp]: "plain []" "plain (c # s) \<longleftrightarrow> c \<noteq> slash \<and> plain s"
  by (auto simp: plain_def)

lemma plain_slash_inject:
  "plain a \<Longrightarrow> plain b \<Longrightarrow> a @ slash # x = b @ slash # y \<longleftrightarrow> a = b \<and> x = y"
proof (induction a arbitrary: b)
  case Nil
  then show ?case by (cases b) auto
next
  case (Cons c a)
  then show ?case by (cases b) auto
qed

lemma split_slash_not_Nil [simp]: "split_slash s \<noteq> []"
  by (cases s) auto

lemma split_slash_plain: "c \<in> set (split_slash s) \<Longrightarrow> plain c"
proof (induction s arbitrary: c)
  case (Cons a s)
  then show ?case by (cases "split_slash s") (auto split: if_splits)
qed simp

lemma split_slash_app: "plain a \<Longrightarrow> split_slash (a @ slash # s) = a # split_slash s"
  by (induction a) auto

lemma split_slash_one: "plain a \<Longrightarrow> split_slash a = [a]"
  by (induction a) auto

lemma split_join: "cs \<noteq> [] \<Longrightarrow> \<forall>c \<in> set cs. plain c \<Longrightarrow> split_slash (join_slash cs) = cs"
  by (induction cs rule: join_slash.induct) (auto simp: split_slash_app split_slash_one)

text \<open>The stack of \<open>path.Clean\<close>: real names above dot-dots, which appear only without a root.\<close>

definition clean_stack :: "bool \<Rightarrow> string list \<Rightarrow> bool" where
  "clean_stack rooted st \<longleftrightarrow> (\<exists>names n. st = names @ replicate n ''..'' \<and> (rooted \<longrightarrow> n = 0)
     \<and> (\<forall>c \<in> set names. c \<noteq> [] \<and> c \<noteq> ''.'' \<and> c \<noteq> ''..'' \<and> plain c))"

lemma clean_stack_Nil [simp]: "clean_stack r []"
  by (simp add: clean_stack_def)

lemma clean_step_keeps:
  assumes "clean_stack r st" "plain c"
  shows "clean_stack r (clean_step r c st)"
proof -
  obtain names n where st: "st = names @ replicate n ''..''" "r \<longrightarrow> n = 0"
    "\<forall>c \<in> set names. c \<noteq> [] \<and> c \<noteq> ''.'' \<and> c \<noteq> ''..'' \<and> plain c"
    using assms(1) unfolding clean_stack_def by blast
  consider "c = [] \<or> c = ''.''" | "c = ''..''" "names = []" | "c = ''..''" "names \<noteq> []"
    | "c \<noteq> []" "c \<noteq> ''.''" "c \<noteq> ''..''" by blast
  then show ?thesis
  proof cases
    case 1
    with assms show ?thesis by auto
  next
    case 2
    with st have "clean_step r c st = [] @ replicate (if r then 0 else Suc n) ''..''"
      by (cases n) auto
    then show ?thesis unfolding clean_stack_def by (metis empty_iff list.set(1))
  next
    case 3
    then obtain x xs where "names = x # xs" by (cases names) auto
    with 3 st have "clean_step r c st = xs @ replicate n ''..''" by auto
    with st \<open>names = x # xs\<close> show ?thesis unfolding clean_stack_def by fastforce
  next
    case 4
    with st have "clean_step r c st = (c # names) @ replicate n ''..''" by auto
    with st 4 assms(2) show ?thesis unfolding clean_stack_def
      by (intro exI [of _ "c # names"] exI [of _ n]) auto
  qed
qed

lemma fold_clean_step: "\<forall>c \<in> set cs. plain c \<Longrightarrow> clean_stack r st \<Longrightarrow> clean_stack r (fold (clean_step r) cs st)"
  by (induction cs arbitrary: st) (auto simp del: clean_step.simps intro: clean_step_keeps)

text \<open>A cleaned path that is relative and does not begin with dot-dot has only real names.\<close>

lemma path_Clean_names:
  assumes "\<not> path_IsAbs (path_Clean p)" "path_Clean p \<noteq> ''..''" "\<not> HasPrefix (path_Clean p) ''../''"
  shows "path_Clean p = ''.'' \<or> (\<forall>c \<in> set (split_slash (path_Clean p)). c \<noteq> [] \<and> c \<noteq> ''.'' \<and> c \<noteq> ''..'')"
proof -
  define st where "st = fold (clean_step (path_IsAbs p)) (split_slash p) []"
  have rel: "\<not> path_IsAbs p"
    using assms(1) by (auto simp: path_Clean_def Let_def path_IsAbs_def split: if_splits)
  have "clean_stack (path_IsAbs p) st"
    unfolding st_def by (intro fold_clean_step) (auto dest: split_slash_plain)
  then obtain names n where s: "st = names @ replicate n ''..''"
    "\<forall>c \<in> set names. c \<noteq> [] \<and> c \<noteq> ''.'' \<and> c \<noteq> ''..'' \<and> plain c"
    unfolding clean_stack_def by blast
  have cl: "path_Clean p = (if join_slash (rev st) = [] then ''.'' else join_slash (rev st))"
    using rel by (simp add: path_Clean_def st_def)
  show ?thesis
  proof (cases "st = [] \<or> join_slash (rev st) = []")
    case False
    have "n = 0"
    proof (rule ccontr)
      assume "n \<noteq> 0"
      then obtain m where "n = Suc m" by (cases n) auto
      then have "rev st = ''..'' # replicate m ''..'' @ rev names"
        using s(1) by (simp add: replicate_append_same [symmetric])
      then obtain cs where "rev st = ''..'' # cs" by blast
      then have "path_Clean p = ''..'' \<or> HasPrefix (path_Clean p) ''../''"
        using cl by (cases cs) (auto simp: HasPrefix_def)
      with assms show False by blast
    qed
    with s False cl show ?thesis by (auto simp: split_join)
  qed (use cl in auto)
qed

end
