(* ===== verification/MemoryTypes.thy ===== *)
theory MemoryTypes
  imports GoStrings Json AgentTypes Complex_Main
begin

section \<open>Memory documents, errors and the backend contract\<close>

text \<open>
  \<open>pkg/memory/types.go\<close>, \<open>errors.go\<close> and the part of the \<open>Backend\<close> interface of \<open>backend.go\<close>
  every storage engine shares.  A \<open>float32\<close> is its bit pattern; a nil map is the empty map; an error
  of any other type is a \<open>plain_error\<close> with its text.

  The locale \<open>memory_backend\<close> states what a client may rely on: a lookup only returns documents
  of the caller's tenant and namespace, a document is found after it is written and not found
  after it is deleted, and an operation on one id leaves the others alone.  The lemmas in it are
  about sequences of calls; the engines interpret it in their own theories.
\<close>

record Document =
  doc_ID :: string
  doc_Namespace :: string
  doc_Tenant :: string
  doc_Content :: bytes
  doc_Path :: string
  doc_Metadata :: "string \<rightharpoonup> string"
  doc_Embedding :: "32 word list"
  doc_Version :: string
  doc_CreatedAt :: time
  doc_UpdatedAt :: time

record Chunk =
  ch_Index :: int
  ch_Text :: string
  ch_Embedding :: "32 word list"
  ch_DocumentID :: string
  ch_StartByte :: int
  ch_EndByte :: int

record ScoredChunk =
  sc_Chunk :: Chunk
  sc_Score :: rat

record WriteResult =
  wr_ID :: string
  wr_Version :: string

record BranchInfo =
  bi_Name :: string
  bi_Base :: string
  bi_CreatedAt :: time
  bi_CommittedAt :: time
  bi_DiscardedAt :: time

record Filter =
  f_Namespace :: string
  f_Tenant :: string
  f_Metadata :: "string \<rightharpoonup> string"

type_synonym Kind = string

definition KindUnauthenticated :: Kind where "KindUnauthenticated = ''unauthenticated''"
definition KindPermissionDenied :: Kind where "KindPermissionDenied = ''permission_denied''"
definition KindQuotaExceeded :: Kind where "KindQuotaExceeded = ''quota_exceeded''"
definition KindNotFound :: Kind where "KindNotFound = ''not_found''"
definition KindNotSupported :: Kind where "KindNotSupported = ''not_supported''"
definition KindInvalid :: Kind where "KindInvalid = ''invalid''"
definition KindBackendUnavailable :: Kind where "KindBackendUnavailable = ''backend_unavailable''"
definition KindInternal :: Kind where "KindInternal = ''internal''"

lemmas kind_defs = KindUnauthenticated_def KindPermissionDenied_def KindQuotaExceeded_def
  KindNotFound_def KindNotSupported_def KindInvalid_def KindBackendUnavailable_def KindInternal_def

datatype mem_error =
  Error (err_Kind: Kind) (err_Msg: string)
| ErrNotSupported (ns_Op: string) (ns_Backend: string)
| plain_error (pe_Text: string)

abbreviation Unauthenticated where "Unauthenticated m \<equiv> Error KindUnauthenticated m"
abbreviation PermissionDenied where "PermissionDenied m \<equiv> Error KindPermissionDenied m"
abbreviation QuotaExceeded where "QuotaExceeded m \<equiv> Error KindQuotaExceeded m"
abbreviation NotFound where "NotFound m \<equiv> Error KindNotFound m"
abbreviation Invalid where "Invalid m \<equiv> Error KindInvalid m"
abbreviation BackendUnavailable where "BackendUnavailable m \<equiv> Error KindBackendUnavailable m"
abbreviation Internal where "Internal m \<equiv> Error KindInternal m"

fun KindOf :: "mem_error \<Rightarrow> Kind" where
  "KindOf (Error k _) = k"
| "KindOf (ErrNotSupported _ _) = KindNotSupported"
| "KindOf (plain_error _) = KindInternal"

subsection \<open>Iteration over a Go map\<close>

text \<open>
  A \<open>range\<close> over a map visits every key that is there from start to end once, in any order; a
  key inserted during the loop may be visited or not.  The visited keys are a parameter of each
  loop: a list without repetition that covers the keys at the start.  A key that is absent when
  its turn comes is skipped.
\<close>

definition range_order :: "'k list \<Rightarrow> ('k \<rightharpoonup> 'v) \<Rightarrow> bool" where
  "range_order ks m \<longleftrightarrow> distinct ks \<and> dom m \<subseteq> set ks"

subsection \<open>The contract of a backend\<close>

definition in_scope :: "Filter \<Rightarrow> Document \<Rightarrow> bool" where
  "in_scope f d \<longleftrightarrow> doc_Tenant d = f_Tenant f \<and> (f_Namespace f \<noteq> [] \<longrightarrow> doc_Namespace d = f_Namespace f)"

definition scope_of :: "Document \<Rightarrow> Filter" where
  "scope_of d = \<lparr>f_Namespace = doc_Namespace d, f_Tenant = doc_Tenant d, f_Metadata = Map.empty\<rparr>"

text \<open>A call with what its environment supplies: the context, the clock, a fresh id.\<close>

datatype 'e backend_op = OpWrite 'e Document | OpDelete 'e string Filter

locale memory_backend =
  fixes ok :: "'s \<Rightarrow> bool"
    and put :: "'e \<Rightarrow> Document \<Rightarrow> 's \<Rightarrow> (mem_error + WriteResult) \<times> 's"
    and get :: "string \<Rightarrow> Filter \<Rightarrow> 's \<Rightarrow> mem_error + Document"
    and delete :: "'e \<Rightarrow> string \<Rightarrow> Filter \<Rightarrow> 's \<Rightarrow> mem_error option \<times> 's"
  assumes get_scoped: "get i f s = Inr d \<Longrightarrow> in_scope f d"
    and write_get: "put e d s = (Inr r, s') \<Longrightarrow> ok s \<Longrightarrow>
      \<exists>d'. get (wr_ID r) (scope_of d) s' = Inr d' \<and> doc_Content d' = doc_Content d"
    and write_frame: "put e d s = (Inr r, s') \<Longrightarrow> ok s \<Longrightarrow> wr_ID r \<noteq> i \<Longrightarrow> get i f s' = get i f s"
    and write_fails: "put e d s = (Inl er, s') \<Longrightarrow> s' = s"
    and delete_get: "delete e i f s = (None, s') \<Longrightarrow> ok s \<Longrightarrow> \<exists>x. get i f' s' = Inl x"
    and delete_scoped: "delete e i f s = (None, s') \<Longrightarrow> ok s \<Longrightarrow> \<exists>d. get i f s = Inr d"
    and delete_frame: "delete e i f s = (None, s') \<Longrightarrow> ok s \<Longrightarrow> i \<noteq> j \<Longrightarrow> get j f' s' = get j f' s"
    and delete_fails: "delete e i f s = (Some er, s') \<Longrightarrow> s' = s"
    and write_ok: "put e d s = (res, s') \<Longrightarrow> ok s \<Longrightarrow> ok s'"
    and delete_ok: "delete e i f s = (y, s') \<Longrightarrow> ok s \<Longrightarrow> ok s'"
begin

fun run_op :: "'e backend_op \<Rightarrow> 's \<Rightarrow> 's" where
  "run_op (OpWrite e d) s = snd (put e d s)"
| "run_op (OpDelete e i f) s = snd (delete e i f s)"

fun touches :: "'e backend_op \<Rightarrow> string \<Rightarrow> 's \<Rightarrow> bool" where
  "touches (OpWrite e d) i s = (case fst (put e d s) of Inr r \<Rightarrow> wr_ID r = i | Inl _ \<Rightarrow> False)"
| "touches (OpDelete e j f) i s = (j = i \<and> fst (delete e j f s) = None)"

fun touched :: "'e backend_op list \<Rightarrow> string \<Rightarrow> 's \<Rightarrow> bool" where
  "touched [] i s = False"
| "touched (p # ps) i s = (touches p i s \<or> touched ps i (run_op p s))"

lemma run_op_ok: "ok s \<Longrightarrow> ok (run_op p s)"
  by (cases p) (auto intro: write_ok delete_ok prod.collapse [symmetric])

lemma run_op_frame: "ok s \<Longrightarrow> \<not> touches p i s \<Longrightarrow> get i f (run_op p s) = get i f s"
proof (cases p)
  case (OpWrite e d)
  assume "ok s" "\<not> touches p i s"
  with OpWrite show ?thesis
    by (cases "put e d s"; cases "fst (put e d s)") (auto dest: write_fails intro: write_frame)
next
  case (OpDelete e j g)
  assume "ok s" "\<not> touches p i s"
  with OpDelete show ?thesis
    by (cases "delete e j g s"; cases "fst (delete e j g s)") (auto dest: delete_fails intro: delete_frame)
qed

text \<open>A document stays as it is through any sequence of calls none of which touches its id.\<close>

lemma untouched_stable:
  "ok s \<Longrightarrow> \<not> touched ps i s \<Longrightarrow> get i f (fold run_op ps s) = get i f s"
proof (induction ps arbitrary: s)
  case (Cons p ps)
  then show ?case using run_op_frame [of s p i f] run_op_ok [of s p] by simp
qed simp

lemma delete_only_own:
  "delete e i f s = (None, s') \<Longrightarrow> ok s \<Longrightarrow> \<exists>d. get i f s = Inr d \<and> in_scope f d"
  using delete_scoped get_scoped by blast

end

end
