(* ===== verification/AgentFS.thy ===== *)
theory AgentFS
  imports MemoryTypes
begin

section \<open>The branching file store\<close>

text \<open>
  \<open>pkg/memory/backend_agentfs.go\<close> without \<open>Merge\<close> (its own theory) and \<open>Snapshot\<close> (object
  storage).  The mutex makes every method one step on the two maps of the backend.  \<open>ctx\<close> is the
  error of the context, if any; the clock readings are arguments; \<open>hash\<close> stands for the SHA-256
  digest in hexadecimal.  The visited keys of a loop over a map are an argument as well.

  The invariant \<open>fs_ok\<close> says that each stored file sits under the key of its own tenant and
  namespace, in a registered branch.  The backend joins names with slashes, so the isolation
  results need names without slashes; a file path may have them.
\<close>

record fsBranch =
  br_info :: BranchInfo
  br_ForkedFrom :: string
  br_ForkBase :: "string \<rightharpoonup> string"
  br_ForkBaseContent :: "string \<rightharpoonup> bytes"

record agentFSBackend =
  fs_branches :: "string \<rightharpoonup> fsBranch"
  fs_files :: "string \<rightharpoonup> Document"

definition NewAgentFSBackend :: agentFSBackend where
  "NewAgentFSBackend = \<lparr>fs_branches = Map.empty, fs_files = Map.empty\<rparr>"

definition branchKey :: "string \<Rightarrow> string \<Rightarrow> string \<Rightarrow> string" where
  "branchKey tenant namespace branch = tenant @ slash # namespace @ slash # branch"

definition fileKey :: "string \<Rightarrow> string \<Rightarrow> string \<Rightarrow> string \<Rightarrow> string" where
  "fileKey tenant namespace branch filePath = tenant @ slash # namespace @ slash # branch @ slash # filePath"

definition safePath :: "string \<Rightarrow> mem_error + string" where
  "safePath p =
     (if p = [] then Inl (Invalid ''path is required for filesystem documents'')
      else if CHR 0x00 \<in> set p then Inl (PermissionDenied ''path contains null byte'')
      else let cleaned = path_Clean p
           in if cleaned = ''..'' \<or> HasPrefix cleaned ''../'' \<or> path_IsAbs cleaned
              then Inl (PermissionDenied (''path traversal denied: '' @ quoted p))
              else Inr cleaned)"

definition checkTenantNamespace :: "Document \<Rightarrow> Filter \<Rightarrow> mem_error option" where
  "checkTenantNamespace doc f =
     (if doc_Tenant doc \<noteq> f_Tenant f then Some (PermissionDenied ''cross-tenant access denied'')
      else if doc_Namespace doc \<noteq> f_Namespace f then Some (PermissionDenied ''cross-namespace access denied'')
      else None)"

definition new_info :: "string \<Rightarrow> string \<Rightarrow> time \<Rightarrow> BranchInfo" where
  "new_info name base t = \<lparr>bi_Name = name, bi_Base = base, bi_CreatedAt = t,
     bi_CommittedAt = zero_time, bi_DiscardedAt = zero_time\<rparr>"

definition ensureBranch :: "time \<Rightarrow> string \<Rightarrow> string \<Rightarrow> string \<Rightarrow> agentFSBackend \<Rightarrow> agentFSBackend" where
  "ensureBranch now tenant namespace branchName b =
     (let key = branchKey tenant namespace branchName
      in case fs_branches b key of
           Some br \<Rightarrow> b
         | None \<Rightarrow> b\<lparr>fs_branches := (fs_branches b)(key \<mapsto>
             \<lparr>br_info = new_info branchName [] now, br_ForkedFrom = [],
              br_ForkBase = Map.empty, br_ForkBaseContent = Map.empty\<rparr>)\<rparr>)"

definition doc_branch :: "Document \<Rightarrow> string" where
  "doc_branch doc = (case doc_Metadata doc ''branch'' of
     Some br \<Rightarrow> if br \<noteq> [] then br else ''main'' | None \<Rightarrow> ''main'')"

text \<open>\<open>now.UnixNano()\<close> is an \<open>int64\<close>.\<close>

definition show_nanos :: "time \<Rightarrow> string" where
  "show_nanos t = show_int (sint (word_of_int t :: int64))"

definition ctx_error :: "string \<Rightarrow> mem_error" where
  "ctx_error e = BackendUnavailable (''context: '' @ e)"

definition stored_doc :: "string \<Rightarrow> Document \<Rightarrow> string \<Rightarrow> time \<Rightarrow> time \<Rightarrow> Document" where
  "stored_doc key doc cleanedPath createdAt now =
     \<lparr>doc_ID = key, doc_Namespace = doc_Namespace doc, doc_Tenant = doc_Tenant doc,
      doc_Content = doc_Content doc, doc_Path = cleanedPath, doc_Metadata = doc_Metadata doc,
      doc_Embedding = [], doc_Version = show_nanos now, doc_CreatedAt = createdAt,
      doc_UpdatedAt = now\<rparr>"

definition fs_Write ::
  "string option \<Rightarrow> time \<Rightarrow> time \<Rightarrow> Document \<Rightarrow> agentFSBackend \<Rightarrow> (mem_error + WriteResult) \<times> agentFSBackend" where
  "fs_Write ctx t0 now doc b =
     (case ctx of Some e \<Rightarrow> (Inl (ctx_error e), b) | None \<Rightarrow>
     (case safePath (doc_Path doc) of Inl e \<Rightarrow> (Inl e, b) | Inr cleanedPath \<Rightarrow>
     if doc_Tenant doc = [] then (Inl (Invalid ''document.Tenant is required''), b)
     else if doc_Namespace doc = [] then (Inl (Invalid ''document.Namespace is required''), b)
     else
       let branchName = doc_branch doc;
           b = ensureBranch t0 (doc_Tenant doc) (doc_Namespace doc) branchName b;
           key = fileKey (doc_Tenant doc) (doc_Namespace doc) branchName cleanedPath;
           createdAt = (case fs_files b key of Some existing \<Rightarrow> doc_CreatedAt existing | None \<Rightarrow> now);
           b = b\<lparr>fs_files := (fs_files b)(key \<mapsto> stored_doc key doc cleanedPath createdAt now)\<rparr>
       in (Inr \<lparr>wr_ID = key, wr_Version = show_nanos now\<rparr>, b)))"

definition fs_Get ::
  "string option \<Rightarrow> string \<Rightarrow> Filter \<Rightarrow> agentFSBackend \<Rightarrow> mem_error + Document" where
  "fs_Get ctx i f b =
     (case ctx of Some e \<Rightarrow> Inl (ctx_error e) | None \<Rightarrow>
      if f_Tenant f = [] then Inl (Invalid ''filter.Tenant is required'')
      else case fs_files b i of
        None \<Rightarrow> Inl (NotFound (''document not found: '' @ i))
      | Some doc \<Rightarrow> (case checkTenantNamespace doc f of Some e \<Rightarrow> Inl e | None \<Rightarrow> Inr doc))"

definition fs_Delete ::
  "string option \<Rightarrow> string \<Rightarrow> Filter \<Rightarrow> agentFSBackend \<Rightarrow> mem_error option \<times> agentFSBackend" where
  "fs_Delete ctx i f b =
     (case ctx of Some e \<Rightarrow> (Some (ctx_error e), b) | None \<Rightarrow>
      if f_Tenant f = [] then (Some (Invalid ''filter.Tenant is required''), b)
      else case fs_files b i of
        None \<Rightarrow> (Some (NotFound (''document not found: '' @ i)), b)
      | Some doc \<Rightarrow>
          (case checkTenantNamespace doc f of
             Some e \<Rightarrow> (Some e, b)
           | None \<Rightarrow> (None, b\<lparr>fs_files := (fs_files b)(i := None)\<rparr>)))"

text \<open>A map is finite; the wanted pairs are listed so that the test can be run.\<close>

definition metadataMatches :: "(string \<rightharpoonup> string) \<Rightarrow> (string \<times> string) list \<Rightarrow> bool" where
  "metadataMatches got want \<longleftrightarrow>
     list_all (\<lambda>(k, v). (case got k of Some x \<Rightarrow> x | None \<Rightarrow> []) = v) want"

definition fs_match :: "string \<Rightarrow> Filter \<Rightarrow> (string \<times> string) list \<Rightarrow> Document \<Rightarrow> ScoredChunk option" where
  "fs_match query f want doc =
     (if doc_Tenant doc \<noteq> f_Tenant f \<or> doc_Namespace doc \<noteq> f_Namespace f then None
      else if \<not> metadataMatches (doc_Metadata doc) want then None
      else let chunk = \<lparr>ch_Index = 0, ch_Text = doc_Content doc, ch_Embedding = [],
                        ch_DocumentID = doc_ID doc, ch_StartByte = 0, ch_EndByte = 0\<rparr>
           in if query \<noteq> [] then
                if str_Contains (doc_Content doc) query \<or> str_Contains (doc_Path doc) query
                then Some \<lparr>sc_Chunk = chunk, sc_Score = 1\<rparr> else None
              else Some \<lparr>sc_Chunk = chunk, sc_Score = 1 / 2\<rparr>)"

definition fs_Retrieve ::
  "string option \<Rightarrow> string list \<Rightarrow> string \<Rightarrow> int \<Rightarrow> Filter \<Rightarrow> (string \<times> string) list \<Rightarrow> agentFSBackend
   \<Rightarrow> mem_error + (ScoredChunk list \<times> int)" where
  "fs_Retrieve ctx keys query topK f want b =
     (case ctx of Some e \<Rightarrow> Inl (ctx_error e) | None \<Rightarrow>
      if f_Tenant f = [] then Inl (Invalid ''filter.Tenant is required'')
      else if f_Namespace f = [] then Inl (Invalid ''filter.Namespace is required'')
      else let topK = (if topK \<le> 0 then 10 else topK);
               scored = List.map_filter (\<lambda>k. Option.bind (fs_files b k) (fs_match query f want)) keys
           in Inr (if int (length scored) > topK then take (nat topK) scored else scored, int (length scored)))"

definition fs_ListNamespaces ::
  "string option \<Rightarrow> string list \<Rightarrow> Filter \<Rightarrow> agentFSBackend \<Rightarrow> mem_error + string list" where
  "fs_ListNamespaces ctx keys f b =
     (case ctx of Some e \<Rightarrow> Inl (ctx_error e) | None \<Rightarrow>
      if f_Tenant f = [] then Inl (Invalid ''filter.Tenant is required'')
      else Inr (remdups (List.map_filter (\<lambda>k. case fs_files b k of
             Some doc \<Rightarrow> if doc_Tenant doc = f_Tenant f then Some (doc_Namespace doc) else None
           | None \<Rightarrow> None) keys)))"

definition fs_Summarize :: "mem_error + string" where
  "fs_Summarize = Inl (ErrNotSupported ''Summarize'' ''agentfs'')"

subsection \<open>Branches\<close>

definition clone_doc :: "string \<Rightarrow> Document \<Rightarrow> Document" where
  "clone_doc newFileKey doc = doc\<lparr>doc_ID := newFileKey, doc_Embedding := []\<rparr>"

record fork_state =
  fk_files :: "string \<rightharpoonup> Document"
  fk_base :: "string \<rightharpoonup> string"
  fk_content :: "string \<rightharpoonup> bytes"

definition fork_file ::
  "(bytes \<Rightarrow> string) \<Rightarrow> string \<Rightarrow> string \<Rightarrow> string \<Rightarrow> fork_state \<Rightarrow> fork_state" where
  "fork_file hash basePrefix newPrefix key s =
     (case fk_files s key of
        None \<Rightarrow> s
      | Some doc \<Rightarrow>
          if HasPrefix key basePrefix then
            let relPath = TrimPrefix key basePrefix; newFileKey = newPrefix @ relPath
            in \<lparr>fk_files = (fk_files s)(newFileKey \<mapsto> clone_doc newFileKey doc),
                fk_base = (fk_base s)(relPath \<mapsto> hash (doc_Content doc)),
                fk_content = (fk_content s)(relPath \<mapsto> doc_Content doc)\<rparr>
          else s)"

definition fs_Branch ::
  "(bytes \<Rightarrow> string) \<Rightarrow> string option \<Rightarrow> time \<Rightarrow> time \<Rightarrow> string list \<Rightarrow> string \<Rightarrow> string \<Rightarrow> Filter
   \<Rightarrow> agentFSBackend \<Rightarrow> (mem_error + BranchInfo) \<times> agentFSBackend" where
  "fs_Branch hash ctx t0 now keys baseBranch newBranch f b =
     (case ctx of Some e \<Rightarrow> (Inl (ctx_error e), b) | None \<Rightarrow>
      if f_Tenant f = [] then (Inl (Invalid ''filter.Tenant is required''), b)
      else if f_Namespace f = [] then (Inl (Invalid ''filter.Namespace is required''), b)
      else if baseBranch = [] then (Inl (Invalid ''baseBranch is required''), b)
      else if newBranch = [] then (Inl (Invalid ''newBranch is required''), b)
      else if baseBranch = newBranch then (Inl (Invalid ''newBranch must differ from baseBranch''), b)
      else let newKey = branchKey (f_Tenant f) (f_Namespace f) newBranch
      in if fs_branches b newKey \<noteq> None
         then (Inl (Invalid (''branch '' @ quoted newBranch @ '' already exists'')), b)
         else
           let b = ensureBranch t0 (f_Tenant f) (f_Namespace f) baseBranch b;
               s = fold (fork_file hash (fileKey (f_Tenant f) (f_Namespace f) baseBranch [])
                           (fileKey (f_Tenant f) (f_Namespace f) newBranch []))
                     keys \<lparr>fk_files = fs_files b, fk_base = Map.empty, fk_content = Map.empty\<rparr>;
               info = new_info newBranch baseBranch now
           in (Inr info, \<lparr>fs_branches = (fs_branches b)(newKey \<mapsto>
                            \<lparr>br_info = info, br_ForkedFrom = baseBranch, br_ForkBase = fk_base s,
                             br_ForkBaseContent = fk_content s\<rparr>),
                          fs_files = fk_files s\<rparr>))"

definition fs_ListBranches ::
  "string option \<Rightarrow> string list \<Rightarrow> Filter \<Rightarrow> agentFSBackend \<Rightarrow> mem_error + BranchInfo list" where
  "fs_ListBranches ctx keys f b =
     (case ctx of Some e \<Rightarrow> Inl (ctx_error e) | None \<Rightarrow>
      if f_Tenant f = [] then Inl (Invalid ''filter.Tenant is required'')
      else if f_Namespace f = [] then Inl (Invalid ''filter.Namespace is required'')
      else Inr (List.map_filter (\<lambda>k. case fs_branches b k of
             Some br \<Rightarrow> if HasPrefix k (f_Tenant f @ slash # f_Namespace f @ [slash]) then Some (br_info br) else None
           | None \<Rightarrow> None) keys))"

subsection \<open>Keys\<close>

lemma fileKey_inject:
  "plain t \<Longrightarrow> plain n \<Longrightarrow> plain br \<Longrightarrow> plain t' \<Longrightarrow> plain n' \<Longrightarrow> plain br' \<Longrightarrow>
   fileKey t n br p = fileKey t' n' br' p' \<longleftrightarrow> t = t' \<and> n = n' \<and> br = br' \<and> p = p'"
  by (simp add: fileKey_def plain_slash_inject)

lemma branchKey_inject:
  "plain t \<Longrightarrow> plain n \<Longrightarrow> plain t' \<Longrightarrow> plain n' \<Longrightarrow>
   branchKey t n br = branchKey t' n' br' \<longleftrightarrow> t = t' \<and> n = n' \<and> br = br'"
  by (simp add: branchKey_def plain_slash_inject)

lemma fileKey_prefix: "fileKey t n br [] @ p = fileKey t n br p"
  by (simp add: fileKey_def)

lemma HasPrefix_fileKey:
  "plain t \<Longrightarrow> plain n \<Longrightarrow> plain br \<Longrightarrow> plain t' \<Longrightarrow> plain n' \<Longrightarrow> plain br' \<Longrightarrow>
   HasPrefix (fileKey t' n' br' p) (fileKey t n br []) \<longleftrightarrow> t' = t \<and> n' = n \<and> br' = br"
  by (auto simp: HasPrefix_iff fileKey_prefix fileKey_inject)

subsection \<open>The invariant\<close>

definition file_ok :: "agentFSBackend \<Rightarrow> string \<Rightarrow> Document \<Rightarrow> bool" where
  "file_ok b k d \<longleftrightarrow> doc_ID d = k \<and> plain (doc_Tenant d) \<and> plain (doc_Namespace d)
     \<and> (\<exists>br p. plain br \<and> k = fileKey (doc_Tenant d) (doc_Namespace d) br p
          \<and> fs_branches b (branchKey (doc_Tenant d) (doc_Namespace d) br) \<noteq> None)"

definition branch_ok :: "(bytes \<Rightarrow> string) \<Rightarrow> fsBranch \<Rightarrow> bool" where
  "branch_ok hash br \<longleftrightarrow> br_ForkBase br = (\<lambda>p. map_option hash (br_ForkBaseContent br p))"

definition fs_ok :: "(bytes \<Rightarrow> string) \<Rightarrow> agentFSBackend \<Rightarrow> bool" where
  "fs_ok hash b \<longleftrightarrow> (\<forall>k d. fs_files b k = Some d \<longrightarrow> file_ok b k d)
     \<and> (\<forall>k br. fs_branches b k = Some br \<longrightarrow> branch_ok hash br)"

lemma fs_ok_New: "fs_ok hash NewAgentFSBackend"
  by (simp add: fs_ok_def NewAgentFSBackend_def)

lemma ensureBranch_fields [simp]:
  "fs_files (ensureBranch t tn ns br b) = fs_files b"
  "fs_branches (ensureBranch t tn ns br b) (branchKey tn ns br) \<noteq> None"
  "fs_branches b k \<noteq> None \<Longrightarrow> fs_branches (ensureBranch t tn ns br b) k = fs_branches b k"
  "k \<noteq> branchKey tn ns br \<Longrightarrow> fs_branches (ensureBranch t tn ns br b) k = fs_branches b k"
  by (auto simp: ensureBranch_def Let_def split: option.split)

lemma ensureBranch_ok:
  assumes "fs_ok hash b"
  shows "fs_ok hash (ensureBranch t tn ns br b)"
proof -
  have "file_ok (ensureBranch t tn ns br b) k d" if "fs_files b k = Some d" for k d
    using assms that by (fastforce simp: fs_ok_def file_ok_def)
  moreover have "branch_ok hash x" if "fs_branches (ensureBranch t tn ns br b) k = Some x" for k x
    using assms that
    by (auto simp: fs_ok_def ensureBranch_def Let_def branch_ok_def split: option.splits if_splits)
  ultimately show ?thesis by (simp add: fs_ok_def)
qed

definition plain_doc :: "Document \<Rightarrow> bool" where
  "plain_doc d \<longleftrightarrow> plain (doc_Tenant d) \<and> plain (doc_Namespace d) \<and> plain (doc_branch d)"

lemma fs_Write_cases:
  assumes "fs_Write ctx t0 now doc b = (Inr r, b')"
  obtains p cr where "ctx = None" "safePath (doc_Path doc) = Inr p" "doc_Tenant doc \<noteq> []" "doc_Namespace doc \<noteq> []"
    "wr_ID r = fileKey (doc_Tenant doc) (doc_Namespace doc) (doc_branch doc) p"
    "fs_branches b' = fs_branches (ensureBranch t0 (doc_Tenant doc) (doc_Namespace doc) (doc_branch doc) b)"
    "fs_files b' = (fs_files b)(wr_ID r \<mapsto> stored_doc (wr_ID r) doc p cr now)"
  using assms by (auto simp: fs_Write_def Let_def split: option.splits sum.splits if_splits)

lemma fs_Write_fails: "fs_Write ctx t0 now doc b = (Inl e, b') \<Longrightarrow> b' = b"
  by (auto simp: fs_Write_def Let_def split: option.splits sum.splits if_splits)

lemma stored_doc_fields [simp]:
  "doc_ID (stored_doc k d p c t) = k" "doc_Tenant (stored_doc k d p c t) = doc_Tenant d"
  "doc_Namespace (stored_doc k d p c t) = doc_Namespace d" "doc_Content (stored_doc k d p c t) = doc_Content d"
  "doc_Path (stored_doc k d p c t) = p"
  by (simp_all add: stored_doc_def)

lemma fs_Write_ok:
  assumes "fs_ok hash b" "plain_doc doc" "fs_Write ctx t0 now doc b = (r, b')"
  shows "fs_ok hash b'"
proof (cases r)
  case (Inl e)
  with assms fs_Write_fails show ?thesis by blast
next
  case (Inr w)
  with assms(3) have "fs_Write ctx t0 now doc b = (Inr w, b')" by simp
  then obtain p cr where key: "wr_ID w = fileKey (doc_Tenant doc) (doc_Namespace doc) (doc_branch doc) p"
    and br: "fs_branches b' = fs_branches (ensureBranch t0 (doc_Tenant doc) (doc_Namespace doc) (doc_branch doc) b)"
    and fl: "fs_files b' = (fs_files b)(wr_ID w \<mapsto> stored_doc (wr_ID w) doc p cr now)"
    by (rule fs_Write_cases)
  have E: "fs_ok hash (ensureBranch t0 (doc_Tenant doc) (doc_Namespace doc) (doc_branch doc) b)"
    by (rule ensureBranch_ok [OF assms(1)])
  have "file_ok b' (wr_ID w) (stored_doc (wr_ID w) doc p cr now)"
    using assms(2) unfolding file_ok_def plain_doc_def br
    by (intro conjI exI [of _ "doc_branch doc"] exI [of _ p]) (simp_all add: key)
  then show ?thesis using E br fl by (auto simp: fs_ok_def file_ok_def)
qed

lemma fs_Delete_cases:
  assumes "fs_Delete ctx i f b = (None, b')"
  obtains d where "ctx = None" "f_Tenant f \<noteq> []" "fs_files b i = Some d" "doc_Tenant d = f_Tenant f"
    "doc_Namespace d = f_Namespace f" "fs_branches b' = fs_branches b" "fs_files b' = (fs_files b)(i := None)"
  using assms by (auto simp: fs_Delete_def checkTenantNamespace_def split: option.splits if_splits)

lemma fs_Delete_fails: "fs_Delete ctx i f b = (Some e, b') \<Longrightarrow> b' = b"
  by (auto simp: fs_Delete_def split: option.splits if_splits)

lemma fs_Delete_ok:
  assumes "fs_ok hash b" "fs_Delete ctx i f b = (r, b')"
  shows "fs_ok hash b'"
proof (cases r)
  case None
  with assms(2) have "fs_Delete ctx i f b = (None, b')" by simp
  then show ?thesis
    by (rule fs_Delete_cases) (use assms(1) in \<open>auto simp: fs_ok_def file_ok_def split: if_splits\<close>)
qed (use assms fs_Delete_fails in blast)

lemma fs_Get_iff:
  "fs_Get None i f b = Inr d \<longleftrightarrow> f_Tenant f \<noteq> [] \<and> fs_files b i = Some d
     \<and> doc_Tenant d = f_Tenant f \<and> doc_Namespace d = f_Namespace f"
  by (auto simp: fs_Get_def checkTenantNamespace_def split: option.splits if_splits)

lemma fs_Get_files: "fs_files b' i = fs_files b i \<Longrightarrow> fs_Get ctx i f b' = fs_Get ctx i f b"
  by (cases ctx) (simp_all add: fs_Get_def)

interpretation afs: memory_backend "\<lambda>_. True" "\<lambda>(ctx, t0, now). fs_Write ctx t0 now" "fs_Get None" "\<lambda>(ctx, _, _). fs_Delete ctx"
proof (unfold_locales, goal_cases)
  case (1 i f s d)
  then show ?case by (simp add: fs_Get_iff in_scope_def)
next
  case (2 e d s r s')
  then show ?case by (auto simp: fs_Get_iff scope_of_def split: prod.splits elim!: fs_Write_cases)
next
  case (3 e d s r s' i f)
  then show ?case by (auto split: prod.splits elim!: fs_Write_cases intro!: fs_Get_files)
next
  case (4 e d s er s')
  then show ?case by (auto split: prod.splits dest: fs_Write_fails)
next
  case (5 e i f s s' f')
  then show ?case by (auto split: prod.splits elim!: fs_Delete_cases simp: fs_Get_def)
next
  case (6 e i f s s')
  then show ?case by (auto simp: fs_Get_iff split: prod.splits elim!: fs_Delete_cases)
next
  case (7 e i f s s' j f')
  then show ?case by (auto split: prod.splits elim!: fs_Delete_cases intro!: fs_Get_files)
next
  case (8 e i f s er s')
  then show ?case by (auto split: prod.splits dest: fs_Delete_fails)
qed simp_all

subsection \<open>Forking\<close>

definition forked ::
  "(bytes \<Rightarrow> string) \<Rightarrow> string \<Rightarrow> string \<Rightarrow> (string \<rightharpoonup> Document) \<Rightarrow> string set \<Rightarrow> fork_state \<Rightarrow> bool" where
  "forked hash P Q F ks s \<longleftrightarrow>
     (\<forall>r. fk_files s (Q @ r) = (if P @ r \<in> ks then map_option (clone_doc (Q @ r)) (F (P @ r)) else None))
   \<and> (\<forall>k. \<not> HasPrefix k Q \<longrightarrow> fk_files s k = F k)
   \<and> (\<forall>r. fk_content s r = (if P @ r \<in> ks then map_option doc_Content (F (P @ r)) else None))
   \<and> fk_base s = (\<lambda>r. map_option hash (fk_content s r))"

lemma forked_step:
  assumes "forked hash P Q F ks s" "\<And>x y. P @ x \<noteq> Q @ y" "\<And>y. F (Q @ y) = None"
  shows "forked hash P Q F (insert k ks) (fork_file hash P Q k s)"
proof (cases "HasPrefix k P")
  case True
  then obtain r where k: "k = P @ r" by (auto simp: HasPrefix_iff)
  have nQ: "\<not> HasPrefix k Q" using assms(2) k by (auto simp: HasPrefix_iff)
  then have "fk_files s k = F k" using assms(1) by (simp add: forked_def)
  with True nQ assms(1) show ?thesis
    by (cases "F k") (auto simp: forked_def fork_file_def k fun_eq_iff Let_def HasPrefix_iff)
next
  case False
  then have "fork_file hash P Q k s = s" by (simp add: fork_file_def split: option.split)
  moreover have "P @ r \<noteq> k" for r using False by auto
  ultimately show ?thesis using assms(1) by (auto simp: forked_def)
qed

lemma forked_fold:
  assumes "forked hash P Q F ks0 s" "\<And>x y. P @ x \<noteq> Q @ y" "\<And>y. F (Q @ y) = None"
  shows "forked hash P Q F (ks0 \<union> set ks) (fold (fork_file hash P Q) ks s)"
  using assms(1)
proof (induction ks arbitrary: s ks0)
  case (Cons k ks)
  show ?case using Cons.IH [OF forked_step [OF Cons.prems assms(2,3), of k]] by simp
qed simp

lemma fs_Branch_cases:
  assumes "fs_Branch hash ctx t0 now keys base new f b = (Inr info, b')"
  obtains s where "ctx = None" "f_Tenant f \<noteq> []" "f_Namespace f \<noteq> []" "base \<noteq> new" "base \<noteq> []" "new \<noteq> []"
    "info = new_info new base now" "fs_branches b (branchKey (f_Tenant f) (f_Namespace f) new) = None"
    "s = fold (fork_file hash (fileKey (f_Tenant f) (f_Namespace f) base []) (fileKey (f_Tenant f) (f_Namespace f) new []))
       keys \<lparr>fk_files = fs_files b, fk_base = Map.empty, fk_content = Map.empty\<rparr>"
    "fs_files b' = fk_files s"
    "fs_branches b' = (fs_branches (ensureBranch t0 (f_Tenant f) (f_Namespace f) base b))
       (branchKey (f_Tenant f) (f_Namespace f) new \<mapsto> \<lparr>br_info = info, br_ForkedFrom = base,
          br_ForkBase = fk_base s, br_ForkBaseContent = fk_content s\<rparr>)"
  using assms unfolding fs_Branch_def Let_def
  by (auto simp del: not_None_eq split: option.splits if_splits)

lemma fs_Branch_fails: "fs_Branch hash ctx t0 now keys base new f b = (Inl e, b') \<Longrightarrow> b' = b"
  by (auto simp: fs_Branch_def Let_def split: option.splits if_splits)

lemma fs_ok_unregistered:
  assumes "fs_ok hash b" "fs_branches b (branchKey t n br) = None" "plain t" "plain n" "plain br"
  shows "fs_files b (fileKey t n br p) = None"
proof (rule ccontr)
  assume "fs_files b (fileKey t n br p) \<noteq> None"
  then obtain d where "fs_files b (fileKey t n br p) = Some d" by blast
  with assms(1) obtain br' p' where "plain br'" "plain (doc_Tenant d)" "plain (doc_Namespace d)"
    "fileKey t n br p = fileKey (doc_Tenant d) (doc_Namespace d) br' p'"
    "fs_branches b (branchKey (doc_Tenant d) (doc_Namespace d) br') \<noteq> None"
    unfolding fs_ok_def file_ok_def by blast
  with assms(2-5) show False by (simp add: fileKey_inject)
qed

lemma fs_Branch_forked:
  assumes "fs_ok hash b" "fs_Branch hash ctx t0 now keys base new f b = (Inr info, b')" "range_order keys (fs_files b)"
    "plain (f_Tenant f)" "plain (f_Namespace f)" "plain base" "plain new"
  shows "fs_files b' (fileKey (f_Tenant f) (f_Namespace f) new p)
      = map_option (clone_doc (fileKey (f_Tenant f) (f_Namespace f) new p)) (fs_files b (fileKey (f_Tenant f) (f_Namespace f) base p))"
    and "\<not> HasPrefix k (fileKey (f_Tenant f) (f_Namespace f) new []) \<Longrightarrow> fs_files b' k = fs_files b k"
    and "fs_branches b' (branchKey (f_Tenant f) (f_Namespace f) new) = Some
      \<lparr>br_info = new_info new base now, br_ForkedFrom = base,
       br_ForkBase = (\<lambda>p. map_option (\<lambda>d. hash (doc_Content d)) (fs_files b (fileKey (f_Tenant f) (f_Namespace f) base p))),
       br_ForkBaseContent = (\<lambda>p. map_option doc_Content (fs_files b (fileKey (f_Tenant f) (f_Namespace f) base p)))\<rparr>"
proof -
  let ?P = "fileKey (f_Tenant f) (f_Namespace f) base []" and ?Q = "fileKey (f_Tenant f) (f_Namespace f) new []"
  obtain s where "base \<noteq> new" "fs_branches b (branchKey (f_Tenant f) (f_Namespace f) new) = None"
    and info: "info = new_info new base now"
    and s: "s = fold (fork_file hash ?P ?Q) keys \<lparr>fk_files = fs_files b, fk_base = Map.empty, fk_content = Map.empty\<rparr>"
    and f': "fs_files b' = fk_files s"
    and b': "fs_branches b' = (fs_branches (ensureBranch t0 (f_Tenant f) (f_Namespace f) base b))
       (branchKey (f_Tenant f) (f_Namespace f) new \<mapsto> \<lparr>br_info = info, br_ForkedFrom = base,
          br_ForkBase = fk_base s, br_ForkBaseContent = fk_content s\<rparr>)"
    by (rule fs_Branch_cases [OF assms(2)])
  then have ne: "?P @ x \<noteq> ?Q @ y" for x y using assms(4-7) by (simp add: fileKey_prefix fileKey_inject)
  have none: "fs_files b (?Q @ y) = None" for y
    using fs_ok_unregistered [OF assms(1) \<open>fs_branches b _ = None\<close>] assms(4-7) by (simp add: fileKey_prefix)
  have "forked hash ?P ?Q (fs_files b) {} \<lparr>fk_files = fs_files b, fk_base = Map.empty, fk_content = Map.empty\<rparr>"
    using none by (simp add: forked_def fun_eq_iff)
  from forked_fold [OF this ne none, of keys] have F: "forked hash ?P ?Q (fs_files b) (set keys) s" by (simp add: s)
  have vis: "(if ?P @ r \<in> set keys then map_option g (fs_files b (?P @ r)) else None) = map_option g (fs_files b (?P @ r))"
    for r and g :: "Document \<Rightarrow> 'x"
    using assms(3) by (auto simp: range_order_def)
  show "fs_files b' (fileKey (f_Tenant f) (f_Namespace f) new p)
      = map_option (clone_doc (fileKey (f_Tenant f) (f_Namespace f) new p)) (fs_files b (fileKey (f_Tenant f) (f_Namespace f) base p))"
    using F unfolding forked_def vis f' by (metis fileKey_prefix)
  show "\<not> HasPrefix k ?Q \<Longrightarrow> fs_files b' k = fs_files b k"
    using F unfolding forked_def f' by blast
  have c: "fk_content s = (\<lambda>p. map_option doc_Content (fs_files b (fileKey (f_Tenant f) (f_Namespace f) base p)))"
    using F unfolding forked_def vis unfolding fileKey_prefix by (simp add: fun_eq_iff)
  show "fs_branches b' (branchKey (f_Tenant f) (f_Namespace f) new) = Some
      \<lparr>br_info = new_info new base now, br_ForkedFrom = base,
       br_ForkBase = (\<lambda>p. map_option (\<lambda>d. hash (doc_Content d)) (fs_files b (fileKey (f_Tenant f) (f_Namespace f) base p))),
       br_ForkBaseContent = (\<lambda>p. map_option doc_Content (fs_files b (fileKey (f_Tenant f) (f_Namespace f) base p)))\<rparr>"
    using F unfolding forked_def by (simp add: b' info c option.map_comp comp_def)
qed

lemma fs_Branch_ok:
  assumes "fs_ok hash b" "fs_Branch hash ctx t0 now keys base new f b = (r, b')" "range_order keys (fs_files b)"
    "plain (f_Tenant f)" "plain (f_Namespace f)" "plain base" "plain new"
  shows "fs_ok hash b'"
proof (cases r)
  case (Inr info)
  let ?t = "f_Tenant f" and ?n = "f_Namespace f"
  from Inr assms(2) have br: "fs_Branch hash ctx t0 now keys base new f b = (Inr info, b')" by simp
  note F = fs_Branch_forked [OF assms(1) br assms(3-7)]
  have reg: "fs_branches b' k \<noteq> None" if "fs_branches b k \<noteq> None" for k
    by (rule fs_Branch_cases [OF br]) (use that in \<open>auto simp del: not_None_eq\<close>)
  have "file_ok b' k d" if d: "fs_files b' k = Some d" for k d
  proof (cases "HasPrefix k (fileKey ?t ?n new [])")
    case True
    then obtain p where k: "k = fileKey ?t ?n new p" by (auto simp: HasPrefix_iff fileKey_prefix)
    with d F(1) [of p] obtain d0 where d0: "fs_files b (fileKey ?t ?n base p) = Some d0" "d = clone_doc k d0" by auto
    then have "doc_Tenant d = ?t" "doc_Namespace d = ?n"
      using assms(1,4-6) by (fastforce simp: fs_ok_def file_ok_def fileKey_inject clone_doc_def)+
    then show ?thesis using assms(4-7) d0 k F(3) by (auto simp: file_ok_def clone_doc_def)
  next
    case False
    with d F(2) have "fs_files b k = Some d" by simp
    with assms(1) reg show ?thesis unfolding fs_ok_def file_ok_def by meson
  qed
  moreover have "branch_ok hash x" if "fs_branches b' k = Some x" for k x
  proof (cases "k = branchKey ?t ?n new")
    case True
    with that F(3) show ?thesis by (auto simp: branch_ok_def option.map_comp comp_def)
  next
    case False
    have "fs_ok hash (ensureBranch t0 ?t ?n base b)" by (rule ensureBranch_ok [OF assms(1)])
    then show ?thesis
      by (rule_tac fs_Branch_cases [OF br]) (use that False in \<open>auto simp: fs_ok_def\<close>)
  qed
  ultimately show ?thesis by (simp add: fs_ok_def)
qed (use assms fs_Branch_fails in blast)

subsection \<open>Properties of the file store\<close>

text \<open>
  Claim C22.  A path the store accepts stays inside the branch: it is relative, and it is the
  root itself or a sequence of real names, with no dot-dot, dot or empty component.
\<close>

theorem safePath_contained:
  assumes "safePath p = Inr c"
  shows "\<not> path_IsAbs c \<and> (c = ''.'' \<or> (\<forall>x \<in> set (split_slash c). x \<noteq> [] \<and> x \<noteq> ''.'' \<and> x \<noteq> ''..''))"
  using assms path_Clean_names [of p]
  by (auto simp: safePath_def Let_def split: if_splits)

theorem safePath_contained_witness:
  "safePath ''a//b/../c/.'' = Inr ''a/c'' \<and> \<not> path_IsAbs ''a/c''"
proof -
  have e: "safePath ''a//b/../c/.'' = Inr ''a/c''" by code_simp
  with safePath_contained [OF e] show ?thesis by blast
qed


definition note_doc :: "string \<Rightarrow> string \<Rightarrow> bytes \<Rightarrow> Document" where
  "note_doc tenant p content = \<lparr>doc_ID = [], doc_Namespace = ''n'', doc_Tenant = tenant, doc_Content = content,
     doc_Path = p, doc_Metadata = Map.empty, doc_Embedding = [], doc_Version = [],
     doc_CreatedAt = 0, doc_UpdatedAt = 0\<rparr>"

lemma safePath_x: "safePath ''x'' = Inr ''x''"
  by code_simp

lemma doc_branch_note: "doc_branch (note_doc t p c) = ''main''"
  by (simp add: note_doc_def doc_branch_def)

lemma note_written:
  "\<exists>b. fs_Write None 0 1 (note_doc ''t'' ''x'' c) NewAgentFSBackend =
     (Inr \<lparr>wr_ID = ''t/n/main/x'', wr_Version = show_nanos 1\<rparr>, b)
   \<and> fs_files b = [''t/n/main/x'' \<mapsto> stored_doc ''t/n/main/x'' (note_doc ''t'' ''x'' c) ''x'' 1 1]
   \<and> fs_branches b (branchKey ''t'' ''n'' ''dev'') = None"
  by (simp add: Let_def fs_Write_def note_doc_def doc_branch_def safePath_x NewAgentFSBackend_def ensureBranch_def
      fileKey_def branchKey_def)



abbreviation tn_filter :: Filter where
  "tn_filter \<equiv> \<lparr>f_Namespace = ''n'', f_Tenant = ''t'', f_Metadata = Map.empty\<rparr>"


end
