(* ===== verification/Diff3.thy ===== *)
theory Diff3
  imports Json "HOL-Library.Sublist"
begin

section \<open>The three-way line merge\<close>

text \<open>
  \<open>pkg/memory/diff3.go\<close>: text detection, splitting into lines, the longest common subsequence
  by dynamic programming over a flat table, the map of one side onto the base, and the merge
  scan.  The scan threads the variables the Go closures share (\<open>out\<close>, \<open>conflicts\<close>, \<open>pendingO\<close>,
  \<open>pendingT\<close>, \<open>inConflict\<close>) as a record.  The lemmas show that the indices are a longest common
  subsequence, that a side can be rebuilt from its map, and the laws of the merge.
\<close>

definition isText :: "bytes \<Rightarrow> bool" where
  "isText data \<longleftrightarrow> data = [] \<or> CHR 0x00 \<notin> set data \<and> utf8_Valid data"

fun splitLines_loop :: "bytes \<Rightarrow> bytes \<Rightarrow> string list" where
  "splitLines_loop seg [] = (if seg = [] then [] else [seg])"
| "splitLines_loop seg (b # data) =
     (if b = CHR 0x0A then (seg @ [b]) # splitLines_loop [] data
      else splitLines_loop (seg @ [b]) data)"

definition splitLines :: "bytes \<Rightarrow> string list" where
  "splitLines data = splitLines_loop [] data"

definition joinLines :: "string list \<Rightarrow> bytes" where
  "joinLines lines = fold (\<lambda>l out. out @ l) lines []"

subsection \<open>Longest common subsequence\<close>

text \<open>One cell of the flat table \<open>dp\<close> of width \<open>w\<close>.\<close>

definition dp_cell :: "string list \<Rightarrow> string list \<Rightarrow> nat \<Rightarrow> nat \<Rightarrow> nat \<Rightarrow> nat list \<Rightarrow> nat list" where
  "dp_cell a b w i j dp =
     (if a ! (i - 1) = b ! (j - 1) then dp[i * w + j := dp ! ((i - 1) * w + (j - 1)) + 1]
      else if dp ! ((i - 1) * w + j) \<ge> dp ! (i * w + j - 1) then dp[i * w + j := dp ! ((i - 1) * w + j)]
      else dp[i * w + j := dp ! (i * w + j - 1)])"

definition dp_row :: "string list \<Rightarrow> string list \<Rightarrow> nat \<Rightarrow> nat list \<Rightarrow> nat list" where
  "dp_row a b i dp = fold (\<lambda>j. dp_cell a b (length b + 1) i j) [1..<length b + 1] dp"

definition dp_table :: "string list \<Rightarrow> string list \<Rightarrow> nat list" where
  "dp_table a b =
     fold (dp_row a b) [1..<length a + 1] (replicate ((length a + 1) * (length b + 1)) 0)"

text \<open>The backtracking loop; it appends, so the indices come out last match first.\<close>

function backtrack :: "string list \<Rightarrow> string list \<Rightarrow> nat list \<Rightarrow> nat \<Rightarrow> nat \<Rightarrow> (nat \<times> nat) list" where
  "backtrack a b dp i j =
     (if i > 0 \<and> j > 0 then
        if a ! (i - 1) = b ! (j - 1) then (i - 1, j - 1) # backtrack a b dp (i - 1) (j - 1)
        else if dp ! ((i - 1) * (length b + 1) + j) \<ge> dp ! (i * (length b + 1) + j - 1)
        then backtrack a b dp (i - 1) j
        else backtrack a b dp i (j - 1)
      else [])"
  by pat_completeness auto
termination
  by (relation "measure (\<lambda>(a, b, dp, i, j). i + j)") auto

declare backtrack.simps [simp del]

definition lcsIndices :: "string list \<Rightarrow> string list \<Rightarrow> nat list \<times> nat list" where
  "lcsIndices a b =
     (if a = [] \<or> b = [] then ([], [])
      else let dp = dp_table a b
           in if dp ! (length a * (length b + 1) + length b) = 0 then ([], [])
              else let ps = rev (backtrack a b dp (length a) (length b)) in (map fst ps, map snd ps))"

subsection \<open>The map of a side\<close>

record sideMap =
  baseToSide :: "int list"
  insertsBefore :: "string list list"
  trailingInserts :: "string list"

fun side_walk :: "string list \<Rightarrow> (nat \<times> nat) list \<Rightarrow> nat \<Rightarrow> string list list \<Rightarrow> string list list \<times> nat" where
  "side_walk side [] prevSide ins = (ins, prevSide)"
| "side_walk side ((bi, si) # ps) prevSide ins =
     side_walk side ps (si + 1)
       (if si > prevSide then ins[bi := ins ! bi @ drop prevSide (take si side)] else ins)"

definition buildSideMap :: "string list \<Rightarrow> string list \<Rightarrow> sideMap" where
  "buildSideMap base side =
     (let (aIdx, bIdx) = lcsIndices base side;
          lcsPairs = zip aIdx bIdx;
          b2s = fold (\<lambda>(x, y) m. m[x := int y]) lcsPairs (replicate (length base) (- 1));
          (ins, prevSide) = side_walk side lcsPairs 0 (replicate (length base) [])
      in \<lparr>baseToSide = b2s, insertsBefore = ins,
          trailingInserts = (if prevSide < length side then drop prevSide side else [])\<rparr>)"

definition sideAt :: "sideMap \<Rightarrow> nat \<Rightarrow> string list \<times> bool \<times> string" where
  "sideAt sm bi =
     (if baseToSide sm ! bi < 0 then (insertsBefore sm ! bi, False, [])
      else (insertsBefore sm ! bi, True, []))"

subsection \<open>The merge\<close>

record hunkConflict =
  OursLines :: "string list"
  TheirsLines :: "string list"

record diff3Result =
  Lines :: "string list"
  Conflicts :: "hunkConflict list"

record merge_state =
  ms_out :: "string list"
  ms_conflicts :: "hunkConflict list"
  ms_pendingO :: "string list"
  ms_pendingT :: "string list"
  ms_inConflict :: bool

fun slicesEqual :: "string list \<Rightarrow> string list \<Rightarrow> bool" where
  "slicesEqual [] [] = True"
| "slicesEqual (x # xs) (y # ys) = (x = y \<and> slicesEqual xs ys)"
| "slicesEqual _ _ = False"

definition emit_lines :: "string list \<Rightarrow> merge_state \<Rightarrow> merge_state" where
  "emit_lines ls st = st\<lparr>ms_out := ms_out st @ ls\<rparr>"

definition emitConflict :: "bool \<Rightarrow> bool \<Rightarrow> string list \<Rightarrow> string list \<Rightarrow> merge_state \<Rightarrow> merge_state" where
  "emitConflict emitMarkers unionMode oLines tLines st =
     (if slicesEqual oLines tLines then emit_lines oLines st
      else let st = st\<lparr>ms_conflicts := ms_conflicts st @ [\<lparr>OursLines = oLines, TheirsLines = tLines\<rparr>]\<rparr>
           in if emitMarkers then
                emit_lines ([''<<<<<<< ours'' @ [CHR 0x0A]] @ oLines @ [''======='' @ [CHR 0x0A]]
                  @ tLines @ [''>>>>>>> theirs'' @ [CHR 0x0A]]) st
              else if unionMode then emit_lines (oLines @ tLines) st
              else emit_lines oLines st)"

definition flushConflict :: "bool \<Rightarrow> bool \<Rightarrow> merge_state \<Rightarrow> merge_state" where
  "flushConflict mk un st =
     (let st = (if ms_inConflict st \<and> (ms_pendingO st \<noteq> [] \<or> ms_pendingT st \<noteq> [])
                then emitConflict mk un (ms_pendingO st) (ms_pendingT st) st else st)
      in st\<lparr>ms_pendingO := [], ms_pendingT := [], ms_inConflict := False\<rparr>)"

definition merge_inserts ::
  "bool \<Rightarrow> bool \<Rightarrow> string list \<Rightarrow> string list \<Rightarrow> merge_state \<Rightarrow> merge_state" where
  "merge_inserts mk un oInserts tInserts st =
     (if oInserts \<noteq> [] \<and> tInserts \<noteq> [] then
        if slicesEqual oInserts tInserts then emit_lines oInserts (flushConflict mk un st)
        else st\<lparr>ms_pendingO := ms_pendingO st @ oInserts, ms_pendingT := ms_pendingT st @ tInserts,
                ms_inConflict := True\<rparr>
      else if oInserts \<noteq> [] then emit_lines oInserts (flushConflict mk un st)
      else if tInserts \<noteq> [] then emit_lines tInserts (flushConflict mk un st)
      else st)"

definition merge_base_line ::
  "bool \<Rightarrow> bool \<Rightarrow> bool \<Rightarrow> bool \<Rightarrow> string \<Rightarrow> merge_state \<Rightarrow> merge_state" where
  "merge_base_line mk un oKept tKept baseLine st =
     (if oKept \<and> tKept then emit_lines [baseLine] (flushConflict mk un st)
      else if \<not> oKept \<and> \<not> tKept then st
      else if oKept then (if ms_inConflict st then st\<lparr>ms_pendingO := ms_pendingO st @ [baseLine]\<rparr> else st)
      else (if ms_inConflict st then st\<lparr>ms_pendingT := ms_pendingT st @ [baseLine]\<rparr> else st))"

definition merge_line ::
  "bool \<Rightarrow> bool \<Rightarrow> string list \<Rightarrow> sideMap \<Rightarrow> sideMap \<Rightarrow> nat \<Rightarrow> merge_state \<Rightarrow> merge_state" where
  "merge_line mk un base oMap tMap bi st =
     merge_base_line mk un (baseToSide oMap ! bi \<ge> 0) (baseToSide tMap ! bi \<ge> 0) (base ! bi)
       (merge_inserts mk un (insertsBefore oMap ! bi) (insertsBefore tMap ! bi) st)"

definition merge_trailing ::
  "bool \<Rightarrow> bool \<Rightarrow> string list \<Rightarrow> string list \<Rightarrow> merge_state \<Rightarrow> merge_state" where
  "merge_trailing mk un oTrailing tTrailing st =
     (if oTrailing \<noteq> [] \<and> tTrailing \<noteq> [] then
        if slicesEqual oTrailing tTrailing then emit_lines oTrailing st
        else emitConflict mk un oTrailing tTrailing st
      else if oTrailing \<noteq> [] then emit_lines oTrailing st
      else if tTrailing \<noteq> [] then emit_lines tTrailing st
      else st)"

definition merge_init :: merge_state where
  "merge_init = \<lparr>ms_out = [], ms_conflicts = [], ms_pendingO = [], ms_pendingT = [], ms_inConflict = False\<rparr>"

definition mergeLines :: "string list \<Rightarrow> string list \<Rightarrow> string list \<Rightarrow> bool \<Rightarrow> bool \<Rightarrow> diff3Result" where
  "mergeLines base ours theirs emitMarkers unionMode =
     (let oMap = buildSideMap base ours; tMap = buildSideMap base theirs;
          st = fold (merge_line emitMarkers unionMode base oMap tMap) [0..<length base] merge_init;
          st = flushConflict emitMarkers unionMode st;
          st = merge_trailing emitMarkers unionMode (trailingInserts oMap) (trailingInserts tMap) st
      in \<lparr>Lines = ms_out st, Conflicts = ms_conflicts st\<rparr>)"

subsection \<open>Lines\<close>

lemma joinLines_concat: "joinLines ls = concat ls"
proof -
  have "fold (\<lambda>l out. out @ l) ls acc = acc @ concat ls" for acc :: string
    by (induction ls arbitrary: acc) auto
  then show ?thesis by (simp add: joinLines_def)
qed

lemma concat_splitLines_loop: "concat (splitLines_loop seg data) = seg @ data"
  by (induction seg data rule: splitLines_loop.induct) auto

definition is_line :: "string \<Rightarrow> bool" where
  "is_line l \<longleftrightarrow> (\<exists>p. l = p @ [CHR 0x0A] \<and> CHR 0x0A \<notin> set p)"

lemma splitLines_loop_line:
  "CHR 0x0A \<notin> set p \<Longrightarrow> splitLines_loop seg (p @ CHR 0x0A # data) = (seg @ p @ [CHR 0x0A]) # splitLines_loop [] data"
  by (induction p arbitrary: seg) auto

lemma splitLines_loop_last:
  "CHR 0x0A \<notin> set p \<Longrightarrow> splitLines_loop seg p = (if seg @ p = [] then [] else [seg @ p])"
  by (induction p arbitrary: seg) auto

lemma splitLines_concat:
  assumes "\<forall>l \<in> set ls. is_line l" "CHR 0x0A \<notin> set p"
  shows "splitLines (concat ls @ p) = ls @ (if p = [] then [] else [p])"
  using assms(1)
proof (induction ls)
  case Nil
  then show ?case using assms(2) by (simp add: splitLines_def splitLines_loop_last)
next
  case (Cons l ls)
  then obtain q where "l = q @ [CHR 0x0A]" "CHR 0x0A \<notin> set q" by (auto simp: is_line_def)
  with Cons show ?case by (simp add: splitLines_def splitLines_loop_line)
qed

subsection \<open>The table holds the lengths of longest common subsequences\<close>

fun lcs_len :: "'a list \<Rightarrow> 'a list \<Rightarrow> nat \<Rightarrow> nat \<Rightarrow> nat" where
  "lcs_len a b 0 j = 0"
| "lcs_len a b (Suc i) 0 = 0"
| "lcs_len a b (Suc i) (Suc j) =
     (if a ! i = b ! j then lcs_len a b i j + 1 else max (lcs_len a b i (Suc j)) (lcs_len a b (Suc i) j))"

lemma lcs_len_0 [simp]: "lcs_len a b i 0 = 0"
  by (cases i) auto

lemma subseq_snocD:
  assumes "subseq (ys @ [z]) (xs @ [x])"
  shows "subseq ys xs \<and> z = x \<or> subseq (ys @ [z]) xs"
proof -
  from assms obtain us vs where uv: "ys @ [z] = us @ vs" "subseq us xs" "subseq vs [x]"
    by (rule subseq_appendE)
  then have "vs = [] \<or> vs = [x]"
    using list_emb_length [OF uv(3)] by (cases vs) (auto split: if_splits)
  with uv show ?thesis by auto
qed

lemma subseq_snoc_left: "subseq (ys @ [z]) xs \<Longrightarrow> subseq ys xs"
  by (rule subseq_order.order_trans [OF prefix_imp_subseq]) (simp_all add: prefix_def)

lemma lcs_len_optimal:
  assumes "i \<le> length a" "j \<le> length b" "subseq zs (take i a)" "subseq zs (take j b)"
  shows "length zs \<le> lcs_len a b i j"
  using assms
proof (induction a b i j arbitrary: zs rule: lcs_len.induct)
  case (3 a b i j)
  show ?case
  proof (cases zs rule: rev_cases)
    case (snoc ys z)
    have "subseq (ys @ [z]) (take i a @ [a ! i])" "subseq (ys @ [z]) (take j b @ [b ! j])"
      using 3(4-7) snoc by (simp_all add: take_Suc_conv_app_nth)
    from this [THEN subseq_snocD] snoc
    have A: "subseq ys (take i a) \<and> z = a ! i \<or> subseq zs (take i a)"
      and B: "subseq ys (take j b) \<and> z = b ! j \<or> subseq zs (take j b)"
      by simp_all
    show ?thesis
    proof (cases "a ! i = b ! j")
      case True
      have "subseq ys (take i a)" "subseq ys (take j b)"
        using A B snoc by (auto dest: subseq_snoc_left)
      with 3(1) [OF True] 3(4,5) have "length ys \<le> lcs_len a b i j" by simp
      with True snoc show ?thesis by simp
    next
      case False
      with A B have "subseq zs (take i a) \<or> subseq zs (take j b)" by auto
      with 3(2,3) [OF False, of zs] 3(4-7) False show ?thesis by (auto simp: le_max_iff_disj)
    qed
  qed simp
qed auto

lemma flat_inj:
  assumes "j \<le> m" "j' \<le> m"
  shows "i * Suc m + j = i' * Suc m + j' \<longleftrightarrow> i = i' \<and> (j :: nat) = j'"
proof
  assume eq: "i * Suc m + j = i' * Suc m + j'"
  have "(i * Suc m + j) div Suc m = i" "(i' * Suc m + j') div Suc m = i'"
    using assms by (simp_all add: div_nat_eqI)
  with eq show "i = i' \<and> j = j'" by simp
qed simp

lemma flat_less:
  assumes "i \<le> n" "j \<le> m"
  shows "i * Suc m + j < Suc n * Suc m"
proof -
  have "i * Suc m + j < Suc i * Suc m" using assms(2) by simp
  also have "\<dots> \<le> Suc n * Suc m" using assms(1) by (intro mult_le_mono) auto
  finally show ?thesis .
qed

text \<open>The part of the table before cell (i, j) in row order is filled in.\<close>

definition filled :: "string list \<Rightarrow> string list \<Rightarrow> nat \<Rightarrow> nat \<Rightarrow> nat list \<Rightarrow> bool" where
  "filled a b i j dp \<longleftrightarrow> length dp = Suc (length a) * Suc (length b)
     \<and> (\<forall>i' \<le> length a. \<forall>j' \<le> length b. i' < i \<or> i' = i \<and> j' < j \<or> i' = 0 \<or> j' = 0 \<longrightarrow>
          dp ! (i' * Suc (length b) + j') = lcs_len a b i' j')"

lemma filledD:
  "filled a b i j dp \<Longrightarrow> i' \<le> length a \<Longrightarrow> j' \<le> length b \<Longrightarrow> i' < i \<or> i' = i \<and> j' < j \<or> i' = 0 \<or> j' = 0 \<Longrightarrow>
   dp ! (i' * Suc (length b) + j') = lcs_len a b i' j'"
  unfolding filled_def by blast

lemma filled_next_row:
  assumes "filled a b i (Suc (length b)) dp"
  shows "filled a b (Suc i) 1 dp"
proof -
  have "dp ! (i' * Suc (length b) + j') = lcs_len a b i' j'"
    if "i' \<le> length a" "j' \<le> length b" "i' < Suc i \<or> i' = Suc i \<and> j' < 1 \<or> i' = 0 \<or> j' = 0" for i' j'
    using that by (intro filledD [OF assms]) auto
  with assms show ?thesis unfolding filled_def by blast
qed

lemma dp_cell_filled:
  assumes f: "filled a b i j dp" and i: "0 < i" "i \<le> length a" and j: "0 < j" "j \<le> length b"
  shows "filled a b i (Suc j) (dp_cell a b (Suc (length b)) i j dp)"
proof -
  obtain i0 j0 where ij: "i = Suc i0" "j = Suc j0" using i(1) j(1) by (metis gr0_implies_Suc)
  have prev: "dp ! (i0 * Suc (length b) + j0) = lcs_len a b i0 j0"
    "dp ! (i0 * Suc (length b) + j) = lcs_len a b i0 j"
    "dp ! (i * Suc (length b) + j0) = lcs_len a b i j0"
    by (rule filledD [OF f]; use i j ij in simp)+
  have step: "dp_cell a b (Suc (length b)) i j dp = dp[i * Suc (length b) + j := lcs_len a b i j]"
    using prev by (simp add: dp_cell_def ij max_def del: mult_Suc mult_Suc_right)
  have "(dp[i * Suc (length b) + j := lcs_len a b i j]) ! (i' * Suc (length b) + j') =
      (if i' = i \<and> j' = j then lcs_len a b i j else dp ! (i' * Suc (length b) + j'))"
    if "i' \<le> length a" "j' \<le> length b" for i' j'
    using that i j f flat_inj [of j "length b" j' i i'] flat_less [of i "length a" j "length b"]
    by (auto simp: filled_def nth_list_update simp del: mult_Suc mult_Suc_right)
  with f i j show ?thesis
    unfolding step filled_def by (auto simp: less_Suc_eq simp del: mult_Suc mult_Suc_right lcs_len.simps)
qed

lemma dp_row_filled:
  assumes "filled a b i 1 dp" "0 < i" "i \<le> length a"
  shows "filled a b (Suc i) 1 (dp_row a b i dp)"
proof -
  have "filled a b i (Suc k) (fold (\<lambda>j. dp_cell a b (Suc (length b)) i j) [1..<Suc k] dp)" if "k \<le> length b" for k
    using that
  proof (induction k)
    case (Suc k)
    then show ?case using dp_cell_filled [of a b i "Suc k"] assms(2,3) by simp
  qed (use assms in simp)
  from this [of "length b"] show ?thesis
    unfolding dp_row_def by (intro filled_next_row) simp
qed

lemma dp_table_nth:
  assumes "i \<le> length a" "j \<le> length b"
  shows "dp_table a b ! (i * Suc (length b) + j) = lcs_len a b i j"
proof -
  have "filled a b (Suc k) 1 (fold (dp_row a b) [1..<Suc k] (replicate (Suc (length a) * Suc (length b)) 0))"
    if "k \<le> length a" for k
    using that
  proof (induction k)
    case 0
    show ?case
      using flat_less [of _ "length a" _ "length b"]
      by (auto simp: filled_def less_Suc_eq simp del: mult_Suc mult_Suc_right replicate_Suc)
  next
    case (Suc k)
    then show ?case using dp_row_filled [of a b "Suc k"] by simp
  qed
  from filledD [OF this [of "length a"], of i j] assms show ?thesis
    by (simp add: dp_table_def)
qed

subsection \<open>The indices are a longest common subsequence\<close>

abbreviation down :: "nat \<times> nat \<Rightarrow> nat \<times> nat \<Rightarrow> bool" where
  "down p q \<equiv> fst q < fst p \<and> snd q < snd p"

lemma backtrack_props:
  assumes "i \<le> length a" "j \<le> length b"
  defines "ps \<equiv> backtrack a b (dp_table a b) i j"
  shows "length ps = lcs_len a b i j \<and> sorted_wrt down ps
    \<and> (\<forall>(x, y) \<in> set ps. x < i \<and> y < j \<and> a ! x = b ! y)"
  using assms(1,2) unfolding ps_def
proof (induction a b "dp_table a b" i j rule: backtrack.induct)
  case (1 a b i j)
  show ?case
  proof (cases "i > 0 \<and> j > 0")
    case True
    then obtain i0 j0 where ij: "i = Suc i0" "j = Suc j0" by (metis gr0_implies_Suc)
    have dp: "dp_table a b ! (i0 * Suc (length b) + j) = lcs_len a b i0 j"
      "dp_table a b ! (i * Suc (length b) + j - 1) = lcs_len a b i j0"
      using 1(4,5) ij dp_table_nth [of i0 a j b] dp_table_nth [of i a j0 b] by (simp_all del: mult_Suc)
    note bt = backtrack.simps [of a b "dp_table a b" i j]
    consider (match) "a ! i0 = b ! j0" | (up) "a ! i0 \<noteq> b ! j0" "lcs_len a b i0 j \<ge> lcs_len a b i j0"
      | (left) "a ! i0 \<noteq> b ! j0" "\<not> lcs_len a b i0 j \<ge> lcs_len a b i j0" by blast
    then show ?thesis
    proof cases
      case match
      with 1(1) 1(4,5) True ij bt show ?thesis by fastforce
    next
      case up
      with 1(2) 1(4,5) True ij dp bt show ?thesis by fastforce
    next
      case left
      with 1(3) 1(4,5) True ij dp bt show ?thesis by fastforce
    qed
  next
    case False
    then show ?thesis by (cases i; cases j) (simp_all add: backtrack.simps)
  qed
qed

definition lcs_pairs :: "string list \<Rightarrow> string list \<Rightarrow> (nat \<times> nat) list" where
  "lcs_pairs a b = rev (backtrack a b (dp_table a b) (length a) (length b))"

lemma lcsIndices_pairs: "lcsIndices a b = (map fst (lcs_pairs a b), map snd (lcs_pairs a b))"
proof -
  have "length (lcs_pairs a b) = dp_table a b ! (length a * Suc (length b) + length b)"
    using backtrack_props [of "length a" a "length b" b] dp_table_nth [of "length a" a "length b" b]
    by (simp add: lcs_pairs_def)
  moreover have "lcs_pairs a b = []" if "a = [] \<or> b = []"
    using that by (auto simp: lcs_pairs_def backtrack.simps [of _ _ _ 0] backtrack.simps [of _ _ _ _ 0])
  ultimately show ?thesis by (auto simp: lcsIndices_def Let_def lcs_pairs_def)
qed

lemma lcs_pairs_props:
  "length (lcs_pairs a b) = lcs_len a b (length a) (length b)"
  "sorted_wrt (\<lambda>p q. down q p) (lcs_pairs a b)"
  "(x, y) \<in> set (lcs_pairs a b) \<Longrightarrow> x < length a \<and> y < length b \<and> a ! x = b ! y"
  using backtrack_props [of "length a" a "length b" b]
  by (auto simp: lcs_pairs_def sorted_wrt_rev)

lemma lcs_pairs_sorted:
  "sorted_wrt (<) (map fst (lcs_pairs a b))" "sorted_wrt (<) (map snd (lcs_pairs a b))"
  using lcs_pairs_props(2) [of a b] by (auto simp: sorted_wrt_map elim: sorted_wrt_mono_rel [rotated])

lemma subseq_nths_sorted:
  "sorted_wrt (<) is \<Longrightarrow> \<forall>i \<in> set is. i < length xs \<Longrightarrow> subseq (map ((!) xs) is) xs"
proof (induction xs arbitrary: "is" rule: rev_induct)
  case (snoc x xs)
  show ?case
  proof (cases "is" rule: rev_cases)
    case (snoc js j)
    with snoc.prems have js: "\<forall>i \<in> set js. i < j" "j \<le> length xs" "sorted_wrt (<) js"
      by (auto simp: sorted_wrt_append less_Suc_eq_le)
    show ?thesis
    proof (cases "j = length xs")
      case True
      have "map ((!) (xs @ [x])) is = map ((!) xs) js @ [x]" using js True snoc by (auto simp: nth_append)
      moreover have "subseq (map ((!) xs) js) xs" using js True by (intro snoc.IH) auto
      ultimately show ?thesis by (simp only: subseq_append)
    next
      case False
      have "map ((!) (xs @ [x])) is = map ((!) xs) is" using js False snoc by (auto simp: nth_append)
      moreover have "subseq (map ((!) xs) is) xs" using js False snoc snoc.prems by (intro snoc.IH) auto
      ultimately show ?thesis by (simp only: subseq_rev_drop_many)
    qed
  qed simp
qed simp

text \<open>
  Claim C17.  \<open>lcsIndices\<close> returns strictly increasing index lists into the two inputs that name
  equal lines, so they spell a common subsequence, and no common subsequence is longer.
\<close>

theorem lcsIndices_longest:
  assumes "lcsIndices a b = (aIdx, bIdx)"
  shows "sorted_wrt (<) aIdx \<and> sorted_wrt (<) bIdx \<and> map ((!) a) aIdx = map ((!) b) bIdx
    \<and> subseq (map ((!) a) aIdx) a \<and> subseq (map ((!) b) bIdx) b
    \<and> (\<forall>zs. subseq zs a \<and> subseq zs b \<longrightarrow> length zs \<le> length aIdx)"
proof -
  from assms have ab: "aIdx = map fst (lcs_pairs a b)" "bIdx = map snd (lcs_pairs a b)"
    by (simp_all add: lcsIndices_pairs)
  have eq: "map ((!) a) aIdx = map ((!) b) bIdx"
    using lcs_pairs_props(3) by (fastforce simp: ab)
  have r: "\<forall>i \<in> set aIdx. i < length a" "\<forall>i \<in> set bIdx. i < length b"
    using lcs_pairs_props(3) by (fastforce simp: ab)+
  have "length zs \<le> length aIdx" if "subseq zs a" "subseq zs b" for zs
    using lcs_len_optimal [of "length a" a "length b" b zs] that by (simp add: ab lcs_pairs_props(1))
  moreover have "sorted_wrt (<) aIdx" "sorted_wrt (<) bIdx" using lcs_pairs_sorted [of a b] by (simp_all add: ab)
  ultimately show ?thesis using eq r subseq_nths_sorted by blast
qed

theorem lcsIndices_longest_witness:
  "lcsIndices [''a'', ''b'', ''c'', ''a''] [''b'', ''x'', ''a''] = ([1, 3], [0, 2])
   \<and> subseq (map ((!) [''a'', ''b'', ''c'', ''a'']) [1, 3]) [''a'', ''b'', ''c'', ''a'']"
proof -
  have e: "lcsIndices [''a'', ''b'', ''c'', ''a''] [''b'', ''x'', ''a''] = ([1, 3], [0, 2])"
    by code_simp
  with lcsIndices_longest [OF e] show ?thesis by blast
qed

subsection \<open>A side is rebuilt from its map\<close>

lemma side_walk_props:
  assumes "side_walk side ps prev ins = (ins', prev')" "sorted_wrt (\<lambda>p q. down q p) ps"
    "\<forall>(x, y) \<in> set ps. x < length ins \<and> prev \<le> y \<and> y < length side \<and> ins ! x = []" "prev \<le> length side"
  shows "length ins' = length ins \<and> prev' \<le> length side
    \<and> (\<forall>x. x \<notin> fst ` set ps \<longrightarrow> ins' ! x = ins ! x)
    \<and> drop prev side = concat (map (\<lambda>(x, y). ins' ! x @ [side ! y]) ps) @ drop prev' side"
  using assms
proof (induction side ps prev ins arbitrary: ins' prev' rule: side_walk.induct)
  case (2 side bi si ps prev ins)
  define ins1 where "ins1 = (if si > prev then ins[bi := ins ! bi @ drop prev (take si side)] else ins)"
  from 2(3-5) have h: "bi < length ins" "prev \<le> si" "si < length side" "ins ! bi = []"
    "\<forall>(x, y) \<in> set ps. bi < x \<and> si < y" by auto
  have w: "side_walk side ps (si + 1) ins1 = (ins', prev')"
    using 2(2) by (simp add: ins1_def)
  have IH: "length ins' = length ins1 \<and> prev' \<le> length side
    \<and> (\<forall>x. x \<notin> fst ` set ps \<longrightarrow> ins' ! x = ins1 ! x)
    \<and> drop (si + 1) side = concat (map (\<lambda>(x, y). ins' ! x @ [side ! y]) ps) @ drop prev' side"
    using 2(3,4) h w by (intro 2(1) [folded ins1_def]) (auto simp: ins1_def nth_list_update)
  have "bi \<notin> fst ` set ps" using h(5) by auto
  with IH h have bi: "ins' ! bi = drop prev (take si side)" by (auto simp: ins1_def)
  have "drop prev side = drop prev (take si side) @ side ! si # drop (si + 1) side"
  proof -
    have "drop prev side = drop prev (take si side @ drop si side)" by simp
    also have "\<dots> = drop prev (take si side) @ drop si side" using h by (simp only: drop_append) simp
    finally show ?thesis using h by (simp add: Cons_nth_drop_Suc)
  qed
  with IH bi h show ?case by (auto simp: ins1_def)
qed auto

lemma fold_update_nth:
  assumes "distinct (map fst ps)" "\<forall>p \<in> set ps. fst p < length m" "x < length m"
  shows "fold (\<lambda>(x, y) m. m[x := int y]) ps m ! x = (case map_of ps x of Some y \<Rightarrow> int y | None \<Rightarrow> m ! x)
    \<and> length (fold (\<lambda>(x, y) m. m[x := int y]) ps m) = length m"
  using assms
  by (induction ps arbitrary: m) (auto simp: nth_list_update map_of_eq_None_iff [symmetric] split: option.splits)

text \<open>What one base position contributes to a side.\<close>

definition side_part :: "string list \<Rightarrow> sideMap \<Rightarrow> nat \<Rightarrow> string list" where
  "side_part base sm bi = insertsBefore sm ! bi @ (if baseToSide sm ! bi \<ge> 0 then [base ! bi] else [])"

lemma concat_map_sorted:
  assumes "sorted_wrt (<) is" "\<forall>i \<in> set is. i < n" "\<And>i. i < n \<Longrightarrow> i \<notin> set is \<Longrightarrow> f i = []"
  shows "concat (map f [0..<n]) = concat (map f is)"
proof -
  have "is = filter (\<lambda>i. i \<in> set is) [0..<n]"
    using assms(1,2) by (intro sorted_distinct_set_unique)
      (auto simp: strict_sorted_iff sorted_filter [where f = id, simplified])
  moreover have "concat (map f (filter (\<lambda>i. i \<in> set is) js)) = concat (map f js)" if "\<forall>j \<in> set js. j < n" for js
    using that by (induction js) (auto simp: assms(3))
  ultimately show ?thesis by (metis atLeastLessThan_iff set_upt)
qed

lemma side_rebuild:
  "side = concat (map (side_part base (buildSideMap base side)) [0..<length base]) @ trailingInserts (buildSideMap base side)"
proof -
  let ?ps = "lcs_pairs base side" and ?sm = "buildSideMap base side"
  obtain ins prev where w: "side_walk side ?ps 0 (replicate (length base) []) = (ins, prev)" by fastforce
  have d: "distinct (map fst ?ps)" using lcs_pairs_sorted(1) strict_sorted_iff by blast
  have z: "zip (map fst ?ps) (map snd ?ps) = ?ps" by (simp add: zip_map_fst_snd)
  have sm: "insertsBefore ?sm = ins" "trailingInserts ?sm = drop prev side"
    "baseToSide ?sm = fold (\<lambda>(x, y) m. m[x := int y]) ?ps (replicate (length base) (- 1))"
    using w by (auto simp: buildSideMap_def lcsIndices_pairs z)
  have pre: "\<forall>(x, y) \<in> set ?ps. x < length (replicate (length base) ([] :: string list)) \<and> 0 \<le> y
      \<and> y < length side \<and> replicate (length base) [] ! x = ([] :: string list)"
    using lcs_pairs_props(3) [of _ _ base side] by auto
  note P = side_walk_props [OF w lcs_pairs_props(2) pre, simplified]
  have b2s: "baseToSide ?sm ! x = (case map_of ?ps x of Some y \<Rightarrow> int y | None \<Rightarrow> - 1)" if "x < length base" for x
    using fold_update_nth [OF d, of "replicate (length base) (- 1)" x] that pre
    by (force simp: sm split: option.splits)
  have "side = concat (map (\<lambda>(x, y). ins ! x @ [side ! y]) ?ps) @ drop prev side"
    using P by blast
  also have "map (\<lambda>(x, y). ins ! x @ [side ! y]) ?ps = map (side_part base ?sm) (map fst ?ps)"
    using lcs_pairs_props(3) [of _ _ base side] d
    by (auto simp: side_part_def sm(1) b2s)
  also have "concat (map (side_part base ?sm) (map fst ?ps)) = concat (map (side_part base ?sm) [0..<length base])"
    using lcs_pairs_sorted(1) lcs_pairs_props(3) [of _ _ base side] d P
    by (intro concat_map_sorted [symmetric])
      (auto simp: side_part_def sm(1) b2s map_of_eq_None_iff [symmetric])
  finally show ?thesis by (simp add: sm)
qed

subsection \<open>Merges without a clash\<close>

lemma slicesEqual_iff [simp]: "slicesEqual xs ys \<longleftrightarrow> xs = ys"
  by (induction xs ys rule: slicesEqual.induct) auto

abbreviation clean :: "merge_state \<Rightarrow> bool" where
  "clean st \<equiv> ms_pendingO st = [] \<and> ms_pendingT st = [] \<and> \<not> ms_inConflict st"

abbreviation compatible :: "string list \<Rightarrow> string list \<Rightarrow> bool" where
  "compatible xs ys \<equiv> xs = [] \<or> ys = [] \<or> xs = ys"

definition either :: "string list \<Rightarrow> string list \<Rightarrow> string list" where
  "either xs ys = (if xs = [] then ys else xs)"

definition pick :: "string list \<Rightarrow> sideMap \<Rightarrow> sideMap \<Rightarrow> nat \<Rightarrow> string list" where
  "pick base om tm bi = either (insertsBefore om ! bi) (insertsBefore tm ! bi)
     @ (if baseToSide om ! bi \<ge> 0 \<and> baseToSide tm ! bi \<ge> 0 then [base ! bi] else [])"

lemma emit_lines_simps [simp]:
  "clean (emit_lines ls st) = clean st"
  "emit_lines ys (emit_lines xs st) = emit_lines (xs @ ys) st"
  "emit_lines [] st = st"
  "ms_out (emit_lines ls st) = ms_out st @ ls"
  "ms_conflicts (emit_lines ls st) = ms_conflicts st"
  by (simp_all add: emit_lines_def)

lemma flush_clean: "clean st \<Longrightarrow> flushConflict mk un st = st"
  by (simp add: flushConflict_def)

lemma merge_line_clean:
  assumes "clean st" "compatible (insertsBefore om ! bi) (insertsBefore tm ! bi)"
  shows "merge_line mk un base om tm bi st = emit_lines (pick base om tm bi) st"
  using assms
  by (auto simp: merge_line_def merge_inserts_def merge_base_line_def pick_def either_def flush_clean)
    (auto simp: emit_lines_def)

lemma merge_lines_clean:
  assumes "clean st" "\<forall>bi \<in> set bis. compatible (insertsBefore om ! bi) (insertsBefore tm ! bi)"
  shows "fold (merge_line mk un base om tm) bis st = emit_lines (concat (map (pick base om tm) bis)) st"
  using assms
  by (induction bis arbitrary: st) (simp_all add: merge_line_clean)

lemma mergeLines_clean:
  assumes "\<forall>bi < length base. compatible (insertsBefore (buildSideMap base ours) ! bi) (insertsBefore (buildSideMap base theirs) ! bi)"
    "compatible (trailingInserts (buildSideMap base ours)) (trailingInserts (buildSideMap base theirs))"
  shows "mergeLines base ours theirs mk un =
    \<lparr>Lines = concat (map (pick base (buildSideMap base ours) (buildSideMap base theirs)) [0..<length base])
       @ either (trailingInserts (buildSideMap base ours)) (trailingInserts (buildSideMap base theirs)),
     Conflicts = []\<rparr>"
proof -
  have c: "clean merge_init" by (simp add: merge_init_def)
  show ?thesis
    using assms c
    by (auto simp: mergeLines_def Let_def merge_lines_clean flush_clean merge_trailing_def either_def)
      (auto simp: merge_init_def)
qed

lemma backtrack_diag: "i \<le> length a \<Longrightarrow> backtrack a a dp i i = rev (map (\<lambda>k. (k, k)) [0..<i])"
proof (induction i)
  case (Suc i)
  then show ?case by (subst backtrack.simps) simp
qed (simp add: backtrack.simps)

lemma side_walk_diag: "side_walk side (map (\<lambda>k. (k, k)) [j..<n]) j ins = (ins, max j n)"
proof (induction "n - j" arbitrary: j)
  case (Suc d)
  then have "j < n" "d = n - Suc j" by simp_all
  with Suc(1) [of "Suc j"] show ?case by (simp add: upt_conv_Cons)
qed simp

lemma buildSideMap_pairs:
  "buildSideMap base side =
     (let (ins, prev) = side_walk side (lcs_pairs base side) 0 (replicate (length base) [])
      in \<lparr>baseToSide = fold (\<lambda>(x, y) m. m[x := int y]) (lcs_pairs base side) (replicate (length base) (- 1)),
          insertsBefore = ins, trailingInserts = (if prev < length side then drop prev side else [])\<rparr>)"
  by (simp add: buildSideMap_def lcsIndices_pairs Let_def zip_map_fst_snd)

lemma buildSideMap_same:
  "bi < length base \<Longrightarrow> insertsBefore (buildSideMap base base) ! bi = []"
  "trailingInserts (buildSideMap base base) = []"
  "bi < length base \<Longrightarrow> baseToSide (buildSideMap base base) ! bi \<ge> 0"
proof -
  let ?ps = "map (\<lambda>k. (k, k)) [0..<length base]"
  have ps: "lcs_pairs base base = ?ps" by (simp add: lcs_pairs_def backtrack_diag)
  have "fold (\<lambda>(x, y) m. m[x := int y]) ?ps (replicate (length base) (- 1)) ! bi \<ge> 0" if "bi < length base"
    using fold_update_nth [of ?ps "replicate (length base) (- 1)" bi] that
    by (auto simp: comp_def split: option.splits) (auto simp: map_of_eq_None_iff image_image)
  then show "bi < length base \<Longrightarrow> insertsBefore (buildSideMap base base) ! bi = []"
    "trailingInserts (buildSideMap base base) = []"
    "bi < length base \<Longrightarrow> baseToSide (buildSideMap base base) ! bi \<ge> 0"
    by (simp_all add: buildSideMap_pairs ps side_walk_diag)
qed

text \<open>When one side is the base, or both sides agree, nothing is left to decide.\<close>

lemma mergeLines_neutral:
  "mergeLines base base theirs mk un = \<lparr>Lines = theirs, Conflicts = []\<rparr>
   \<and> mergeLines base ours base mk un = \<lparr>Lines = ours, Conflicts = []\<rparr>
   \<and> mergeLines base ours ours mk un = \<lparr>Lines = ours, Conflicts = []\<rparr>"
proof -
  have o: "concat (map (pick base (buildSideMap base base) tm) [0..<length base]) = concat (map (side_part base tm) [0..<length base])"
    and t: "concat (map (pick base tm (buildSideMap base base)) [0..<length base]) = concat (map (side_part base tm) [0..<length base])" for tm
    by (auto simp: pick_def side_part_def either_def buildSideMap_same intro!: arg_cong [of _ _ concat])
  have s: "pick base tm tm = side_part base tm" for tm
    by (auto simp: pick_def side_part_def either_def fun_eq_iff)
  show ?thesis
    using side_rebuild [of theirs base, symmetric] side_rebuild [of ours base, symmetric]
    by (auto simp: mergeLines_clean buildSideMap_same o t s either_def)
qed

subsection \<open>Symmetry\<close>

definition swap_hunk :: "hunkConflict \<Rightarrow> hunkConflict" where
  "swap_hunk h = \<lparr>OursLines = TheirsLines h, TheirsLines = OursLines h\<rparr>"

definition mirror :: "merge_state \<Rightarrow> merge_state \<Rightarrow> bool" where
  "mirror st st' \<longleftrightarrow> ms_conflicts st' = map swap_hunk (ms_conflicts st) \<and> ms_pendingO st' = ms_pendingT st
     \<and> ms_pendingT st' = ms_pendingO st \<and> ms_inConflict st' = ms_inConflict st
     \<and> (ms_conflicts st = [] \<longrightarrow> ms_out st' = ms_out st)"

lemma mirror_emit: "mirror st st' \<Longrightarrow> mirror (emit_lines ls st) (emit_lines ls st')"
  by (simp add: mirror_def emit_lines_def)

lemma mirror_emitConflict:
  "mirror st st' \<Longrightarrow> mirror (emitConflict mk un xs ys st) (emitConflict mk' un' ys xs st')"
  by (auto simp: emitConflict_def mirror_emit Let_def) (auto simp: mirror_def emit_lines_def swap_hunk_def)

lemma mirror_flush:
  assumes "mirror st st'"
  shows "mirror (flushConflict mk un st) (flushConflict mk' un' st')"
proof -
  have *: "mirror s s' \<Longrightarrow> mirror (s\<lparr>ms_pendingO := [], ms_pendingT := [], ms_inConflict := False\<rparr>)
      (s'\<lparr>ms_pendingO := [], ms_pendingT := [], ms_inConflict := False\<rparr>)" for s s'
    by (simp add: mirror_def)
  have p: "ms_pendingO st' = ms_pendingT st" "ms_pendingT st' = ms_pendingO st" "ms_inConflict st' = ms_inConflict st"
    using assms by (simp_all add: mirror_def)
  show ?thesis
    using assms unfolding flushConflict_def p by (auto simp: Let_def intro!: * mirror_emitConflict)
qed

lemma mirror_merge_inserts:
  assumes "mirror st st'"
  shows "mirror (merge_inserts mk un xs ys st) (merge_inserts mk' un' ys xs st')"
  using assms
  by (auto simp: merge_inserts_def intro!: mirror_emit mirror_flush) (auto simp: mirror_def)

lemma mirror_merge_base_line:
  assumes "mirror st st'"
  shows "mirror (merge_base_line mk un ok tk l st) (merge_base_line mk' un' tk ok l st')"
  using assms
  by (auto simp: merge_base_line_def intro!: mirror_emit mirror_flush) (auto simp: mirror_def)

lemma mirror_merge_trailing:
  assumes "mirror st st'"
  shows "mirror (merge_trailing mk un xs ys st) (merge_trailing mk' un' ys xs st')"
  using assms by (auto simp: merge_trailing_def intro!: mirror_emit mirror_emitConflict)

lemma mirror_merge_lines:
  assumes "mirror st st'"
  shows "mirror (fold (merge_line mk un base om tm) bis st) (fold (merge_line mk' un' base tm om) bis st')"
  using assms
  by (induction bis arbitrary: st st')
    (simp_all add: merge_line_def mirror_merge_base_line mirror_merge_inserts)

lemma mergeLines_symmetric:
  "Conflicts (mergeLines base theirs ours mk' un') = map swap_hunk (Conflicts (mergeLines base ours theirs mk un))
   \<and> (Conflicts (mergeLines base ours theirs mk un) = [] \<longrightarrow>
        Lines (mergeLines base theirs ours mk' un') = Lines (mergeLines base ours theirs mk un))"
proof -
  have "mirror merge_init merge_init" by (simp add: mirror_def merge_init_def)
  then have "mirror (merge_trailing mk un xs ys (flushConflict mk un (fold (merge_line mk un base om tm) bis merge_init)))
      (merge_trailing mk' un' ys xs (flushConflict mk' un' (fold (merge_line mk' un' base tm om) bis merge_init)))"
    for xs ys om tm bis
    by (intro mirror_merge_trailing mirror_flush mirror_merge_lines)
  then show ?thesis by (simp add: mergeLines_def Let_def mirror_def)
qed

text \<open>
  Claim C18.  The laws of a three-way merge, in every mode: when one side is the base the other
  side is the result, and when both sides agree that is the result, without a conflict.  The merge
  treats the two sides alike: exchanging them, and even changing the mode, exchanges the sides of
  every reported conflict, and a merge without conflicts gives the same lines.
\<close>

theorem mergeLines_laws:
  "mergeLines base base theirs mk un = \<lparr>Lines = theirs, Conflicts = []\<rparr>
   \<and> mergeLines base ours base mk un = \<lparr>Lines = ours, Conflicts = []\<rparr>
   \<and> mergeLines base ours ours mk un = \<lparr>Lines = ours, Conflicts = []\<rparr>
   \<and> Conflicts (mergeLines base theirs ours mk' un') = map swap_hunk (Conflicts (mergeLines base ours theirs mk un))
   \<and> (Conflicts (mergeLines base ours theirs mk un) = [] \<longrightarrow>
        Lines (mergeLines base theirs ours mk' un') = Lines (mergeLines base ours theirs mk un))"
  using mergeLines_neutral mergeLines_symmetric by blast

theorem mergeLines_laws_witness:
  "Conflicts (mergeLines [''a''] [''x'', ''a''] [''a'', ''y''] True False) = []
   \<and> Lines (mergeLines [''a''] [''a'', ''y''] [''x'', ''a''] False True) =
      Lines (mergeLines [''a''] [''x'', ''a''] [''a'', ''y''] True False)"
proof -
  have "Conflicts (mergeLines [''a''] [''x'', ''a''] [''a'', ''y''] True False) = []" by code_simp
  with mergeLines_laws [of "[''a'']" "[''a'', ''y'']" True False "[''x'', ''a'']" False True]
  show ?thesis by blast
qed


text \<open>
  Splitting into lines and joining again gives the content back, and splitting a
  sequence of complete lines followed by an unterminated rest gives exactly these lines.
\<close>

lemma splitLines_joinLines:
  "joinLines (splitLines data) = data
   \<and> ((\<forall>l \<in> set ls. is_line l) \<longrightarrow> CHR 0x0A \<notin> set p \<longrightarrow>
        splitLines (joinLines ls @ p) = ls @ (if p = [] then [] else [p]))"
  using concat_splitLines_loop [of "[]" data] splitLines_concat [of ls p]
  by (auto simp: joinLines_concat splitLines_def)

end
