(* ===== verification/AgentFSMerge.thy ===== *)
theory AgentFSMerge
  imports AgentFS Diff3
begin

section \<open>Merging branches\<close>

text \<open>
  \<open>Merge\<close> of \<open>pkg/memory/backend_agentfs.go\<close> with the merge types of \<open>types.go\<close>: the collection of
  the files of both branches, the classification of every path against the fork base, the
  conflict policy and the commit.  The orders of the five loops over maps are a record of lists.

  The policy loop ranges over the slice of conflicts while \<open>removeConflict\<close> filters the same
  backing array in place.  The model keeps the array and the length of the slice apart, as the
  machine does: the loop reads the array at each index of the original slice.

  The specification is the textbook rule \<open>three_way\<close> on contents; the classifier works on
  digests, so the refinement assumes that the contents at hand have no digest collision.
\<close>

definition MergeFail :: string where "MergeFail = ''fail''"
definition MergeOurs :: string where "MergeOurs = ''ours''"
definition MergeTheirs :: string where "MergeTheirs = ''theirs''"
definition MergeMarkers :: string where "MergeMarkers = ''markers''"
definition MergeUnion :: string where "MergeUnion = ''union''"

lemmas policy_defs = MergeFail_def MergeOurs_def MergeTheirs_def MergeMarkers_def MergeUnion_def

record MergeOptions =
  mo_OnConflict :: string
  mo_DryRun :: bool

record ConflictInfo =
  ci_Path :: string
  ci_Kind :: string

record MergeResult =
  mg_Branch :: BranchInfo
  mg_Conflicts :: "ConflictInfo list"
  mg_Committed :: bool
  mg_Merged :: nat
  mg_Added :: nat
  mg_Deleted :: nat

definition zero_BranchInfo :: BranchInfo where
  "zero_BranchInfo = new_info [] [] zero_time"

datatype planned =
  actionKeep
| actionTakeT Document
| actionDelete
| actionWriteContent bytes string

text \<open>The keys each loop over a map visits.\<close>

record merge_orders =
  mo_src :: "string list"
  mo_dst :: "string list"
  mo_paths :: "string list"
  mo_count :: "string list"
  mo_commit :: "string list"

fun collect_files ::
  "string list \<Rightarrow> string \<Rightarrow> Filter \<Rightarrow> (string \<rightharpoonup> Document) \<Rightarrow> (string \<rightharpoonup> Document) \<Rightarrow> (string \<rightharpoonup> Document) option" where
  "collect_files [] pre f files acc = Some acc"
| "collect_files (key # keys) pre f files acc =
     (case files key of
        None \<Rightarrow> collect_files keys pre f files acc
      | Some doc \<Rightarrow>
          if \<not> HasPrefix key pre then collect_files keys pre f files acc
          else if doc_Tenant doc \<noteq> f_Tenant f \<or> doc_Namespace doc \<noteq> f_Namespace f then None
          else collect_files keys pre f files (acc(TrimPrefix key pre \<mapsto> doc)))"

definition classify ::
  "(bytes \<Rightarrow> string) \<Rightarrow> string option \<Rightarrow> Document option \<Rightarrow> Document option \<Rightarrow> planned \<times> string option" where
  "classify hash baseHash src dst =
     (case (src, dst) of
        (None, None) \<Rightarrow> (actionKeep, None)
      | (None, Some dstDoc) \<Rightarrow>
          (case baseHash of
             Some bh \<Rightarrow> if hash (doc_Content dstDoc) = bh then (actionDelete, None)
                       else (actionKeep, Some ''edit/delete'')
           | None \<Rightarrow> (actionKeep, None))
      | (Some srcDoc, None) \<Rightarrow>
          (case baseHash of
             Some bh \<Rightarrow> if hash (doc_Content srcDoc) = bh then (actionKeep, None)
                       else (actionKeep, Some ''edit/delete'')
           | None \<Rightarrow> (actionTakeT srcDoc, None))
      | (Some srcDoc, Some dstDoc) \<Rightarrow>
          let oHash = hash (doc_Content dstDoc); tHash = hash (doc_Content srcDoc)
          in if oHash = tHash then (actionKeep, None)
             else case baseHash of
               None \<Rightarrow> (actionKeep, Some ''add/add'')
             | Some bh \<Rightarrow>
                 if oHash = bh \<and> tHash \<noteq> bh then (actionTakeT srcDoc, None)
                 else if oHash \<noteq> bh \<and> tHash = bh then (actionKeep, None)
                 else (actionKeep, Some ''edit/edit''))"

definition classify_path ::
  "(bytes \<Rightarrow> string) \<Rightarrow> (string \<rightharpoonup> string) \<Rightarrow> (string \<rightharpoonup> Document) \<Rightarrow> (string \<rightharpoonup> Document) \<Rightarrow> string
   \<Rightarrow> (string \<rightharpoonup> planned) \<times> ConflictInfo list \<Rightarrow> (string \<rightharpoonup> planned) \<times> ConflictInfo list" where
  "classify_path hash base src dst rel = (\<lambda>(plan, cs).
     let (act, kind) = classify hash (base rel) (src rel) (dst rel)
     in (plan(rel \<mapsto> act), case kind of None \<Rightarrow> cs | Some k \<Rightarrow> cs @ [\<lparr>ci_Path = rel, ci_Kind = k\<rparr>]))"

definition binary_marker :: bytes where
  "binary_marker = ''<<<<<<< ours (binary conflict '' @ [CHR 0xE2, CHR 0x80, CHR 0x94] @ '' resolve manually)'' @ [CHR 0x0A]
     @ ''======='' @ [CHR 0x0A] @ ''>>>>>>> theirs'' @ [CHR 0x0A]"

text \<open>
  The policy on one conflict: the new plan entry, when there is one, and whether the conflict is
  resolved and leaves the list.
\<close>

definition resolve_conflict ::
  "string \<Rightarrow> (string \<rightharpoonup> bytes) \<Rightarrow> (string \<rightharpoonup> Document) \<Rightarrow> (string \<rightharpoonup> Document) \<Rightarrow> ConflictInfo
   \<Rightarrow> planned option \<times> bool" where
  "resolve_conflict policy baseContent src dst ci =
     (let rel = ci_Path ci
      in if policy = MergeOurs then (Some actionKeep, False)
         else if policy = MergeTheirs then
           (Some (case src rel of Some srcDoc \<Rightarrow> actionTakeT srcDoc | None \<Rightarrow> actionDelete), False)
         else if policy = MergeMarkers \<or> policy = MergeUnion then
           if ci_Kind ci = ''edit/delete'' then (Some actionKeep, False)
           else (case (dst rel, src rel) of
             (Some dstDoc, Some srcDoc) \<Rightarrow>
               (let fileBase = (case baseContent rel of Some c \<Rightarrow> c | None \<Rightarrow> []);
                    filePath = (if doc_Path dstDoc = [] then doc_Path srcDoc else doc_Path dstDoc)
                in if \<not> isText (doc_Content dstDoc) \<or> \<not> isText (doc_Content srcDoc) then
                     if policy = MergeMarkers then (Some (actionWriteContent binary_marker filePath), False)
                     else (Some actionKeep, False)
                   else let r = mergeLines (splitLines fileBase) (splitLines (doc_Content dstDoc))
                                  (splitLines (doc_Content srcDoc)) (policy = MergeMarkers) (policy = MergeUnion)
                        in (Some (actionWriteContent (joinLines (Lines r)) filePath), Conflicts r = []))
           | _ \<Rightarrow> (Some actionKeep, False))
         else (None, False))"

text \<open>A slice over an array: its length, which may be less than that of the array.\<close>

definition removeConflict :: "string \<Rightarrow> ConflictInfo list \<times> nat \<Rightarrow> ConflictInfo list \<times> nat" where
  "removeConflict rel = (\<lambda>(arr, n).
     let out = filter (\<lambda>c. ci_Path c \<noteq> rel) (take n arr) in (out @ drop (length out) arr, length out))"

definition resolve_at ::
  "string \<Rightarrow> (string \<rightharpoonup> bytes) \<Rightarrow> (string \<rightharpoonup> Document) \<Rightarrow> (string \<rightharpoonup> Document) \<Rightarrow> nat
   \<Rightarrow> (string \<rightharpoonup> planned) \<times> ConflictInfo list \<times> nat \<Rightarrow> (string \<rightharpoonup> planned) \<times> ConflictInfo list \<times> nat" where
  "resolve_at policy baseContent src dst i = (\<lambda>(plan, cs).
     let ci = fst cs ! i; (act, resolved) = resolve_conflict policy baseContent src dst ci
     in (case act of Some a \<Rightarrow> plan(ci_Path ci \<mapsto> a) | None \<Rightarrow> plan,
         if resolved then removeConflict (ci_Path ci) cs else cs))"

definition resolve_all ::
  "string \<Rightarrow> (string \<rightharpoonup> bytes) \<Rightarrow> (string \<rightharpoonup> Document) \<Rightarrow> (string \<rightharpoonup> Document)
   \<Rightarrow> (string \<rightharpoonup> planned) \<Rightarrow> ConflictInfo list \<Rightarrow> (string \<rightharpoonup> planned) \<times> ConflictInfo list" where
  "resolve_all policy baseContent src dst plan cs =
     (let (plan, arr, n) = fold (resolve_at policy baseContent src dst) [0..<length cs] (plan, cs, length cs)
      in (plan, take n arr))"

definition count_actions ::
  "(string \<rightharpoonup> planned) \<Rightarrow> (string \<rightharpoonup> Document) \<Rightarrow> string \<Rightarrow> nat \<times> nat \<times> nat \<Rightarrow> nat \<times> nat \<times> nat" where
  "count_actions plan dst rel = (\<lambda>(m, a, d).
     case plan rel of
       Some (actionTakeT _) \<Rightarrow> if dst rel \<noteq> None then (m + 1, a, d) else (m, a + 1, d)
     | Some (actionWriteContent _ _) \<Rightarrow> if dst rel \<noteq> None then (m + 1, a, d) else (m, a + 1, d)
     | Some actionDelete \<Rightarrow> (m, a, d + 1)
     | _ \<Rightarrow> (m, a, d))"

definition merged_doc ::
  "string \<Rightarrow> Filter \<Rightarrow> bytes \<Rightarrow> string \<Rightarrow> (string \<rightharpoonup> string) \<Rightarrow> time \<Rightarrow> time \<Rightarrow> Document" where
  "merged_doc key f content p md createdAt now =
     \<lparr>doc_ID = key, doc_Namespace = f_Namespace f, doc_Tenant = f_Tenant f, doc_Content = content,
      doc_Path = p, doc_Metadata = md, doc_Embedding = [], doc_Version = show_nanos now,
      doc_CreatedAt = createdAt, doc_UpdatedAt = now\<rparr>"

definition commit_path ::
  "(string \<rightharpoonup> planned) \<Rightarrow> Filter \<Rightarrow> string \<Rightarrow> time \<Rightarrow> string \<Rightarrow> (string \<rightharpoonup> Document) \<Rightarrow> (string \<rightharpoonup> Document)" where
  "commit_path plan f dstBranch now rel files =
     (let key = fileKey (f_Tenant f) (f_Namespace f) dstBranch rel
      in case plan rel of
           Some (actionTakeT srcDoc) \<Rightarrow>
             files(key \<mapsto> merged_doc key f (doc_Content srcDoc) (doc_Path srcDoc) (doc_Metadata srcDoc)
               (case files key of Some ex \<Rightarrow> doc_CreatedAt ex | None \<Rightarrow> doc_CreatedAt srcDoc) now)
         | Some (actionWriteContent content p) \<Rightarrow>
             files(key \<mapsto> merged_doc key f content p Map.empty
               (case files key of Some ex \<Rightarrow> doc_CreatedAt ex | None \<Rightarrow> now) now)
         | Some actionDelete \<Rightarrow> files(key := None)
         | _ \<Rightarrow> files)"

text \<open>Classification, policy and commit, once the files of both branches are collected.\<close>

definition merge_collected ::
  "(bytes \<Rightarrow> string) \<Rightarrow> time \<Rightarrow> merge_orders \<Rightarrow> string \<Rightarrow> MergeOptions \<Rightarrow> Filter \<Rightarrow> string \<Rightarrow> fsBranch \<Rightarrow> fsBranch
   \<Rightarrow> (string \<rightharpoonup> Document) \<Rightarrow> (string \<rightharpoonup> Document) \<Rightarrow> agentFSBackend \<Rightarrow> MergeResult \<times> agentFSBackend" where
  "merge_collected hash now ords dstBranch opts f policy srcBr dstBr src dst b =
     (let (plan, cs) = fold (classify_path hash (br_ForkBase srcBr) src dst) (mo_paths ords) (Map.empty, [])
      in if policy = MergeFail \<and> cs \<noteq> [] then
           (\<lparr>mg_Branch = zero_BranchInfo, mg_Conflicts = cs, mg_Committed = False,
             mg_Merged = 0, mg_Added = 0, mg_Deleted = 0\<rparr>, b)
         else
           let (plan, cs) = resolve_all policy (br_ForkBaseContent srcBr) src dst plan cs;
               (m, a, d) = fold (count_actions plan dst) (mo_count ords) (0, 0, 0)
           in if mo_DryRun opts then
                (\<lparr>mg_Branch = zero_BranchInfo, mg_Conflicts = cs, mg_Committed = False,
                  mg_Merged = m, mg_Added = a, mg_Deleted = d\<rparr>, b)
              else
                let files = fold (commit_path plan f dstBranch now) (mo_commit ords) (fs_files b);
                    dstBr = dstBr\<lparr>br_info := (br_info dstBr)\<lparr>bi_CommittedAt := now\<rparr>\<rparr>
                in (\<lparr>mg_Branch = br_info dstBr, mg_Conflicts = cs, mg_Committed = True,
                      mg_Merged = m, mg_Added = a, mg_Deleted = d\<rparr>,
                    \<lparr>fs_branches = (fs_branches b)(branchKey (f_Tenant f) (f_Namespace f) dstBranch \<mapsto> dstBr),
                     fs_files = files\<rparr>))"

definition effective_policy :: "MergeOptions \<Rightarrow> string" where
  "effective_policy opts = (if mo_OnConflict opts = [] then MergeFail else mo_OnConflict opts)"

definition fs_Merge ::
  "(bytes \<Rightarrow> string) \<Rightarrow> string option \<Rightarrow> time \<Rightarrow> merge_orders \<Rightarrow> string \<Rightarrow> string \<Rightarrow> MergeOptions \<Rightarrow> Filter
   \<Rightarrow> agentFSBackend \<Rightarrow> (mem_error + MergeResult) \<times> agentFSBackend" where
  "fs_Merge hash ctx now ords srcBranch dstBranch opts f b =
     (case ctx of Some e \<Rightarrow> (Inl (ctx_error e), b) | None \<Rightarrow>
      if f_Tenant f = [] then (Inl (Invalid ''filter.Tenant is required''), b)
      else if f_Namespace f = [] then (Inl (Invalid ''filter.Namespace is required''), b)
      else if srcBranch = [] then (Inl (Invalid ''srcBranch is required''), b)
      else if dstBranch = [] then (Inl (Invalid ''dstBranch is required''), b)
      else if srcBranch = dstBranch then (Inl (Invalid ''srcBranch and dstBranch must differ''), b)
      else case fs_branches b (branchKey (f_Tenant f) (f_Namespace f) srcBranch) of
           None \<Rightarrow> (Inl (NotFound (''branch '' @ quoted srcBranch @ '' not found'')), b)
         | Some srcBr \<Rightarrow>
      (case fs_branches b (branchKey (f_Tenant f) (f_Namespace f) dstBranch) of
           None \<Rightarrow> (Inl (NotFound (''branch '' @ quoted dstBranch @ '' not found'')), b)
         | Some dstBr \<Rightarrow>
      (case collect_files (mo_src ords) (fileKey (f_Tenant f) (f_Namespace f) srcBranch []) f (fs_files b) Map.empty of
           None \<Rightarrow> (Inl (PermissionDenied ''cross-tenant file in srcBranch; merge aborted''), b)
         | Some src \<Rightarrow>
      (case collect_files (mo_dst ords) (fileKey (f_Tenant f) (f_Namespace f) dstBranch []) f (fs_files b) Map.empty of
           None \<Rightarrow> (Inl (PermissionDenied ''cross-tenant file in dstBranch; merge aborted''), b)
         | Some dst \<Rightarrow> apfst Inr (merge_collected hash now ords dstBranch opts f (effective_policy opts) srcBr dstBr src dst b)))))"

subsection \<open>The specification\<close>

abbreviation content_of :: "Document option \<Rightarrow> bytes option" where
  "content_of \<equiv> map_option doc_Content"

definition conflict_kind :: "bytes option \<Rightarrow> bytes option \<Rightarrow> bytes option \<Rightarrow> string" where
  "conflict_kind base ours theirs =
     (if base = None then ''add/add'' else if ours = None \<or> theirs = None then ''edit/delete'' else ''edit/edit'')"

text \<open>Three versions of a file, absent ones included: the kind of conflict or the merged version.\<close>

definition three_way :: "bytes option \<Rightarrow> bytes option \<Rightarrow> bytes option \<Rightarrow> string + bytes option" where
  "three_way base ours theirs =
     (if ours = theirs then Inr ours
      else if ours = base then Inr theirs
      else if theirs = base then Inr ours
      else Inl (conflict_kind base ours theirs))"

fun outcome :: "planned option \<Rightarrow> bytes option \<Rightarrow> bytes option" where
  "outcome (Some (actionTakeT d)) c = Some (doc_Content d)"
| "outcome (Some (actionWriteContent x p)) c = Some x"
| "outcome (Some actionDelete) c = None"
| "outcome _ c = c"

lemma classify_three_way:
  assumes "inj_on hash (set_option base \<union> set_option (content_of src) \<union> set_option (content_of dst))"
  shows "case three_way base (content_of dst) (content_of src) of
      Inr r \<Rightarrow> outcome (Some (fst (classify hash (map_option hash base) src dst))) (content_of dst) = r
        \<and> snd (classify hash (map_option hash base) src dst) = None
    | Inl k \<Rightarrow> classify hash (map_option hash base) src dst = (actionKeep, Some k)"
  using assms
  by (cases base; cases src; cases dst)
    (auto simp: classify_def three_way_def conflict_kind_def Let_def inj_on_def)

subsection \<open>The stages\<close>

lemma collect_files_eq:
  assumes "\<And>k d. files k = Some d \<Longrightarrow> HasPrefix k pre \<Longrightarrow> doc_Tenant d = f_Tenant f \<and> doc_Namespace d = f_Namespace f"
  shows "collect_files keys pre f files acc =
    Some (\<lambda>r. if pre @ r \<in> set keys \<and> files (pre @ r) \<noteq> None then files (pre @ r) else acc r)"
proof (induction keys arbitrary: acc)
  case (Cons k keys)
  show ?case
  proof (cases "files k")
    case (Some d)
    show ?thesis
    proof (cases "HasPrefix k pre")
      case True
      then obtain r where "k = pre @ r" by (auto simp: HasPrefix_iff)
      with Some True assms [OF Some] Cons show ?thesis by (auto simp: fun_eq_iff)
    next
      case False
      then have "pre @ r \<noteq> k" for r by auto
      with Some False Cons show ?thesis by (auto simp: fun_eq_iff)
    qed
  qed (auto simp: Cons fun_eq_iff)
qed (simp add: fun_eq_iff)

lemma collect_files_all:
  assumes "\<And>k d. files k = Some d \<Longrightarrow> HasPrefix k pre \<Longrightarrow> doc_Tenant d = f_Tenant f \<and> doc_Namespace d = f_Namespace f"
    and "range_order keys files"
  shows "collect_files keys pre f files Map.empty = Some (\<lambda>r. files (pre @ r))"
proof -
  have "collect_files keys pre f files Map.empty =
      Some (\<lambda>r. if pre @ r \<in> set keys \<and> files (pre @ r) \<noteq> None then files (pre @ r) else None)"
    by (rule collect_files_eq) (rule assms(1))
  also have "\<dots> = Some (\<lambda>r. files (pre @ r))"
  proof -
    have "pre @ r \<notin> set keys \<Longrightarrow> files (pre @ r) = None" for r
      using assms(2) by (auto simp: range_order_def)
    then show ?thesis by (auto simp: fun_eq_iff)
  qed
  finally show ?thesis .
qed

definition path_conflicts ::
  "(bytes \<Rightarrow> string) \<Rightarrow> (string \<rightharpoonup> string) \<Rightarrow> (string \<rightharpoonup> Document) \<Rightarrow> (string \<rightharpoonup> Document) \<Rightarrow> string list \<Rightarrow> ConflictInfo list" where
  "path_conflicts hash base src dst paths = List.map_filter
     (\<lambda>rel. map_option (\<lambda>k. \<lparr>ci_Path = rel, ci_Kind = k\<rparr>) (snd (classify hash (base rel) (src rel) (dst rel)))) paths"

lemma classify_paths:
  "fold (classify_path hash base src dst) paths (plan, cs) =
     (\<lambda>rel. if rel \<in> set paths then Some (fst (classify hash (base rel) (src rel) (dst rel))) else plan rel,
      cs @ path_conflicts hash base src dst paths)"
  by (induction paths arbitrary: plan cs)
    (auto simp: classify_path_def path_conflicts_def map_filter_simps fun_eq_iff split: prod.splits option.splits)

lemma fold_nth: "fold (\<lambda>i. g (xs ! i)) [0..<length xs] s = fold g xs s"
proof -
  have "fold (\<lambda>i. g (xs ! i)) [0..<length xs] s = fold g (map ((!) xs) [0..<length xs]) s"
    by (simp only: fold_map comp_def)
  then show ?thesis by (simp only: map_nth)
qed

definition override ::
  "string \<Rightarrow> (string \<rightharpoonup> bytes) \<Rightarrow> (string \<rightharpoonup> Document) \<Rightarrow> (string \<rightharpoonup> Document) \<Rightarrow> ConflictInfo
   \<Rightarrow> (string \<rightharpoonup> planned) \<Rightarrow> (string \<rightharpoonup> planned)" where
  "override policy bc src dst ci plan =
     (case fst (resolve_conflict policy bc src dst ci) of Some a \<Rightarrow> plan(ci_Path ci \<mapsto> a) | None \<Rightarrow> plan)"

lemma resolve_all_kept:
  assumes "\<And>ci. ci \<in> set cs \<Longrightarrow> \<not> snd (resolve_conflict policy bc src dst ci)"
  shows "resolve_all policy bc src dst plan cs = (fold (override policy bc src dst) cs plan, cs)"
proof -
  have step: "resolve_at policy bc src dst i (plan, cs, n) = (override policy bc src dst (cs ! i) plan, cs, n)"
    if "i < length cs" for i plan n
    using assms [of "cs ! i"] that
    by (cases "resolve_conflict policy bc src dst (cs ! i)")
      (auto simp: resolve_at_def override_def Let_def split: option.split)
  have "fold (resolve_at policy bc src dst) is (plan, cs, n) = (fold (\<lambda>i. override policy bc src dst (cs ! i)) is plan, cs, n)"
    if "\<forall>i \<in> set is. i < length cs" for "is" n
    using that by (induction "is" arbitrary: plan) (simp_all add: step)
  from this [of "[0..<length cs]"] show ?thesis
    by (simp add: resolve_all_def fold_nth [of "override policy bc src dst"])
qed

lemma commit_other:
  "\<not> HasPrefix k (fileKey (f_Tenant f) (f_Namespace f) dstB []) \<Longrightarrow>
   fold (commit_path plan f dstB now) rels files k = files k"
proof (induction rels arbitrary: files)
  case (Cons rel rels)
  then have "k \<noteq> fileKey (f_Tenant f) (f_Namespace f) dstB rel" by (metis HasPrefix_iff fileKey_prefix)
  with Cons show ?case by (auto simp: commit_path_def Let_def split: option.split planned.split)
qed simp

lemma commit_content:
  "content_of (fold (commit_path plan f dstB now) rels files (fileKey (f_Tenant f) (f_Namespace f) dstB p)) =
   (if p \<in> set rels then outcome (plan p) (content_of (files (fileKey (f_Tenant f) (f_Namespace f) dstB p)))
    else content_of (files (fileKey (f_Tenant f) (f_Namespace f) dstB p)))"
proof (induction rels arbitrary: files)
  case (Cons rel rels)
  have key: "fileKey (f_Tenant f) (f_Namespace f) dstB p = fileKey (f_Tenant f) (f_Namespace f) dstB rel \<longleftrightarrow> p = rel"
    by (simp add: fileKey_def)
  have idem: "outcome x (outcome x c) = outcome x c" for x c by (cases "(x, c)" rule: outcome.cases) auto
  have "content_of (commit_path plan f dstB now rel files (fileKey (f_Tenant f) (f_Namespace f) dstB p)) =
     (if p = rel then outcome (plan p) (content_of (files (fileKey (f_Tenant f) (f_Namespace f) dstB p)))
      else content_of (files (fileKey (f_Tenant f) (f_Namespace f) dstB p)))"
    using key by (auto simp: commit_path_def Let_def merged_doc_def split: option.split planned.split)
  with Cons idem show ?case by auto
qed simp

subsection \<open>The merge as a whole\<close>

definition ver :: "agentFSBackend \<Rightarrow> Filter \<Rightarrow> string \<Rightarrow> string \<Rightarrow> bytes option" where
  "ver b f br p = content_of (fs_files b (fileKey (f_Tenant f) (f_Namespace f) br p))"

definition path_merge :: "agentFSBackend \<Rightarrow> Filter \<Rightarrow> fsBranch \<Rightarrow> string \<Rightarrow> string \<Rightarrow> string \<Rightarrow> string + bytes option" where
  "path_merge b f sb srcB dstB p = three_way (br_ForkBaseContent sb p) (ver b f dstB p) (ver b f srcB p)"

definition contents :: "agentFSBackend \<Rightarrow> fsBranch \<Rightarrow> bytes set" where
  "contents b sb = doc_Content ` ran (fs_files b) \<union> ran (br_ForkBaseContent sb)"

definition orders_ok :: "merge_orders \<Rightarrow> Filter \<Rightarrow> fsBranch \<Rightarrow> string \<Rightarrow> string \<Rightarrow> agentFSBackend \<Rightarrow> bool" where
  "orders_ok ords f sb srcB dstB b \<longleftrightarrow>
     range_order (mo_src ords) (fs_files b) \<and> range_order (mo_dst ords) (fs_files b)
   \<and> distinct (mo_paths ords) \<and> distinct (mo_count ords) \<and> distinct (mo_commit ords)
   \<and> set (mo_paths ords) = {p. ver b f srcB p \<noteq> None \<or> ver b f dstB p \<noteq> None \<or> br_ForkBase sb p \<noteq> None}
   \<and> set (mo_count ords) = set (mo_paths ords) \<and> set (mo_commit ords) = set (mo_paths ords)"

lemma fs_ok_scope:
  assumes "fs_ok hash b" "plain (f_Tenant f)" "plain (f_Namespace f)" "plain br" "fs_files b k = Some d"
    "HasPrefix k (fileKey (f_Tenant f) (f_Namespace f) br [])"
  shows "doc_Tenant d = f_Tenant f \<and> doc_Namespace d = f_Namespace f"
proof -
  from assms(1,5) obtain br' p where "plain br'" "plain (doc_Tenant d)" "plain (doc_Namespace d)"
    "k = fileKey (doc_Tenant d) (doc_Namespace d) br' p"
    unfolding fs_ok_def file_ok_def by blast
  with assms(2-4,6) show ?thesis by (simp add: HasPrefix_fileKey)
qed

lemma policy_distinct [simp]:
  "MergeOurs \<noteq> MergeTheirs" "MergeTheirs \<noteq> MergeOurs" "MergeOurs \<noteq> MergeFail" "MergeTheirs \<noteq> MergeFail"
  "MergeFail \<noteq> MergeOurs" "MergeFail \<noteq> MergeTheirs"
  "MergeMarkers \<noteq> MergeOurs" "MergeMarkers \<noteq> MergeTheirs" "MergeMarkers \<noteq> MergeFail" "MergeMarkers \<noteq> MergeUnion"
  by (simp_all add: policy_defs)

lemma override_ours:
  "fold (override MergeOurs bc src dst) cs plan rel =
     (if rel \<in> ci_Path ` set cs then Some actionKeep else plan rel)"
  by (induction cs arbitrary: plan) (auto simp: override_def resolve_conflict_def Let_def)

lemma override_theirs:
  "fold (override MergeTheirs bc src dst) cs plan rel =
     (if rel \<in> ci_Path ` set cs then Some (case src rel of Some d \<Rightarrow> actionTakeT d | None \<Rightarrow> actionDelete) else plan rel)"
  by (induction cs arbitrary: plan) (auto simp: override_def resolve_conflict_def Let_def)

lemma path_conflicts_paths:
  "ci_Path ` set (path_conflicts hash base src dst paths) =
     {p \<in> set paths. snd (classify hash (base p) (src p) (dst p)) \<noteq> None}"
  by (induction paths) (auto simp: path_conflicts_def map_filter_simps split: option.splits)

lemma resolve_kept_ours_theirs:
  "policy = MergeOurs \<or> policy = MergeTheirs \<Longrightarrow> \<not> snd (resolve_conflict policy bc src dst ci)"
  by (elim disjE) (simp_all add: resolve_conflict_def Let_def)

text \<open>
  What a call of \<open>Merge\<close> on registered branches can rely on: the invariant of the store, plain
  names, complete visits of the maps, and no digest collision among the contents at hand.
\<close>

definition merge_pre ::
  "(bytes \<Rightarrow> string) \<Rightarrow> agentFSBackend \<Rightarrow> Filter \<Rightarrow> fsBranch \<Rightarrow> fsBranch \<Rightarrow> string \<Rightarrow> string \<Rightarrow> merge_orders \<Rightarrow> bool" where
  "merge_pre hash b f sb db srcB dstB ords \<longleftrightarrow>
     fs_ok hash b \<and> plain (f_Tenant f) \<and> plain (f_Namespace f) \<and> plain srcB \<and> plain dstB
   \<and> f_Tenant f \<noteq> [] \<and> f_Namespace f \<noteq> [] \<and> srcB \<noteq> [] \<and> dstB \<noteq> [] \<and> srcB \<noteq> dstB
   \<and> fs_branches b (branchKey (f_Tenant f) (f_Namespace f) srcB) = Some sb
   \<and> fs_branches b (branchKey (f_Tenant f) (f_Namespace f) dstB) = Some db
   \<and> inj_on hash (contents b sb) \<and> orders_ok ords f sb srcB dstB b"

definition side :: "agentFSBackend \<Rightarrow> Filter \<Rightarrow> string \<Rightarrow> string \<Rightarrow> Document option" where
  "side b f br p = fs_files b (fileKey (f_Tenant f) (f_Namespace f) br p)"

definition conflicts0 :: "(bytes \<Rightarrow> string) \<Rightarrow> agentFSBackend \<Rightarrow> Filter \<Rightarrow> fsBranch \<Rightarrow> string \<Rightarrow> string \<Rightarrow> merge_orders \<Rightarrow> ConflictInfo list" where
  "conflicts0 hash b f sb srcB dstB ords =
     path_conflicts hash (br_ForkBase sb) (side b f srcB) (side b f dstB) (mo_paths ords)"

definition plan0 :: "(bytes \<Rightarrow> string) \<Rightarrow> agentFSBackend \<Rightarrow> Filter \<Rightarrow> fsBranch \<Rightarrow> string \<Rightarrow> string \<Rightarrow> merge_orders \<Rightarrow> string \<Rightarrow> planned option" where
  "plan0 hash b f sb srcB dstB ords p =
     (if p \<in> set (mo_paths ords) then Some (fst (classify hash (br_ForkBase sb p) (side b f srcB p) (side b f dstB p))) else None)"

lemma merge_preD:
  assumes "merge_pre hash b f sb db srcB dstB ords"
  shows "fs_ok hash b" "plain (f_Tenant f)" "plain (f_Namespace f)" "plain srcB" "plain dstB"
    "f_Tenant f \<noteq> []" "f_Namespace f \<noteq> []" "srcB \<noteq> []" "dstB \<noteq> []" "srcB \<noteq> dstB"
    "fs_branches b (branchKey (f_Tenant f) (f_Namespace f) srcB) = Some sb"
    "fs_branches b (branchKey (f_Tenant f) (f_Namespace f) dstB) = Some db"
    "inj_on hash (contents b sb)" "orders_ok ords f sb srcB dstB b"
  using assms unfolding merge_pre_def by blast+

lemma collected:
  assumes pre: "merge_pre hash b f sb db srcB dstB ords"
  shows "collect_files (mo_src ords) (fileKey (f_Tenant f) (f_Namespace f) srcB []) f (fs_files b) Map.empty = Some (side b f srcB)"
  "collect_files (mo_dst ords) (fileKey (f_Tenant f) (f_Namespace f) dstB []) f (fs_files b) Map.empty = Some (side b f dstB)"
proof -
  note r = merge_preD(14) [OF pre, unfolded orders_ok_def]
  have "collect_files (mo_src ords) (fileKey (f_Tenant f) (f_Namespace f) srcB []) f (fs_files b) Map.empty
      = Some (\<lambda>p. fs_files b (fileKey (f_Tenant f) (f_Namespace f) srcB [] @ p))"
    using r by (intro collect_files_all) (auto dest: fs_ok_scope [OF merge_preD(1,2,3,4) [OF pre]])
  moreover have "collect_files (mo_dst ords) (fileKey (f_Tenant f) (f_Namespace f) dstB []) f (fs_files b) Map.empty
      = Some (\<lambda>p. fs_files b (fileKey (f_Tenant f) (f_Namespace f) dstB [] @ p))"
    using r by (intro collect_files_all) (auto dest: fs_ok_scope [OF merge_preD(1,2,3,5) [OF pre]])
  ultimately show
    "collect_files (mo_src ords) (fileKey (f_Tenant f) (f_Namespace f) srcB []) f (fs_files b) Map.empty = Some (side b f srcB)"
    "collect_files (mo_dst ords) (fileKey (f_Tenant f) (f_Namespace f) dstB []) f (fs_files b) Map.empty = Some (side b f dstB)"
    by (simp_all add: fileKey_prefix side_def fun_eq_iff)
qed

lemma classified:
  assumes pre: "merge_pre hash b f sb db srcB dstB ords"
  shows "case path_merge b f sb srcB dstB p of
     Inr r \<Rightarrow> outcome (Some (fst (classify hash (br_ForkBase sb p) (side b f srcB p) (side b f dstB p)))) (ver b f dstB p) = r
       \<and> snd (classify hash (br_ForkBase sb p) (side b f srcB p) (side b f dstB p)) = None
   | Inl k \<Rightarrow> classify hash (br_ForkBase sb p) (side b f srcB p) (side b f dstB p) = (actionKeep, Some k)"
proof -
  have h: "br_ForkBase sb p = map_option hash (br_ForkBaseContent sb p)"
    using merge_preD(1,11) [OF pre] by (auto simp: fs_ok_def branch_ok_def)
  have v: "ver b f srcB p = content_of (side b f srcB p)" "ver b f dstB p = content_of (side b f dstB p)"
    by (simp_all add: ver_def side_def)
  have i: "inj_on hash (set_option (br_ForkBaseContent sb p) \<union> set_option (content_of (side b f srcB p)) \<union> set_option (content_of (side b f dstB p)))"
    by (rule inj_on_subset [OF merge_preD(13) [OF pre]]) (auto simp: contents_def side_def ran_def image_def)
  show ?thesis
    using classify_three_way [OF i] unfolding path_merge_def v h .
qed

lemma absent_elsewhere:
  assumes pre: "merge_pre hash b f sb db srcB dstB ords"
  shows "p \<notin> set (mo_paths ords) \<Longrightarrow> path_merge b f sb srcB dstB p = Inr None \<and> ver b f dstB p = None \<and> ver b f srcB p = None"
  using merge_preD(14) [OF pre] by (simp add: orders_ok_def path_merge_def three_way_def)

lemma conflict_paths:
  assumes pre: "merge_pre hash b f sb db srcB dstB ords"
  shows "ci_Path ` set (conflicts0 hash b f sb srcB dstB ords) = {p. isl (path_merge b f sb srcB dstB p)}"
proof -
  have "snd (classify hash (br_ForkBase sb p) (side b f srcB p) (side b f dstB p)) \<noteq> None \<longleftrightarrow> isl (path_merge b f sb srcB dstB p)" for p
    using classified [OF pre, of p] by (auto split: sum.splits)
  moreover have "isl (path_merge b f sb srcB dstB p) \<Longrightarrow> p \<in> set (mo_paths ords)" for p
    using absent_elsewhere [OF pre, of p] by (cases "p \<in> set (mo_paths ords)") auto
  ultimately show ?thesis unfolding conflicts0_def path_conflicts_paths by blast
qed

text \<open>What a plan leaves in the destination, path by path.\<close>

lemma plan0_outcome:
  assumes pre: "merge_pre hash b f sb db srcB dstB ords"
  shows "outcome (plan0 hash b f sb srcB dstB ords p) (ver b f dstB p) = (case path_merge b f sb srcB dstB p of Inr r \<Rightarrow> r | Inl _ \<Rightarrow> ver b f dstB p)"
  using classified [OF pre, of p] absent_elsewhere [OF pre, of p] by (auto simp: plan0_def split: sum.splits)

lemma overridden_outcome:
  assumes pre: "merge_pre hash b f sb db srcB dstB ords" and pol: "effective_policy opts = MergeOurs \<or> effective_policy opts = MergeTheirs"
  shows "outcome (fold (override (effective_policy opts) (br_ForkBaseContent sb) (side b f srcB) (side b f dstB)) (conflicts0 hash b f sb srcB dstB ords) (plan0 hash b f sb srcB dstB ords) p) (ver b f dstB p) =
    (case path_merge b f sb srcB dstB p of Inr r \<Rightarrow> r
     | Inl _ \<Rightarrow> if effective_policy opts = MergeTheirs then ver b f srcB p else ver b f dstB p)"
proof (cases "p \<in> ci_Path ` set (conflicts0 hash b f sb srcB dstB ords)")
  case True
  then have "isl (path_merge b f sb srcB dstB p)" by (simp add: conflict_paths [OF pre])
  with pol True show ?thesis
    by (cases "side b f srcB p") (auto simp: override_ours override_theirs ver_def side_def [symmetric] isl_def)
next
  case False
  then have "\<not> isl (path_merge b f sb srcB dstB p)" by (simp add: conflict_paths [OF pre])
  with pol False plan0_outcome [OF pre, of p] show ?thesis
    by (auto simp: override_ours override_theirs split: sum.splits)
qed

lemma merge_unfold:
  assumes pre: "merge_pre hash b f sb db srcB dstB ords"
  shows "fs_Merge hash None now ords srcB dstB opts f b =
    apfst Inr (merge_collected hash now ords dstB opts f (effective_policy opts) sb db (side b f srcB) (side b f dstB) b)"
  using merge_preD(6-12) [OF pre] collected [OF pre] by (simp add: fs_Merge_def)

lemma classified_all:
  "fold (classify_path hash (br_ForkBase sb) (side b f srcB) (side b f dstB)) (mo_paths ords) (Map.empty, []) =
     (plan0 hash b f sb srcB dstB ords, conflicts0 hash b f sb srcB dstB ords)"
  by (simp add: classify_paths plan0_def conflicts0_def fun_eq_iff)

lemma commit_ok:
  assumes "fs_ok hash b" "plain (f_Tenant f)" "plain (f_Namespace f)" "plain dstB"
    "fs_branches b (branchKey (f_Tenant f) (f_Namespace f) dstB) \<noteq> None"
  shows "fs_ok hash (b\<lparr>fs_files := fold (commit_path plan f dstB now) rels (fs_files b)\<rparr>)"
  using assms
proof (induction rels arbitrary: b)
  case (Cons rel rels)
  let ?b = "b\<lparr>fs_files := commit_path plan f dstB now rel (fs_files b)\<rparr>"
  let ?key = "fileKey (f_Tenant f) (f_Namespace f) dstB rel"
  have new: "file_ok ?b ?key (merged_doc ?key f c p md cr now)" for c p md cr
    unfolding file_ok_def using Cons.prems(2-5)
    by (intro conjI exI [of _ dstB] exI [of _ rel]) (simp_all add: merged_doc_def)
  have old: "file_ok ?b k d" if "fs_files b k = Some d" for k d
    using Cons.prems(1) that by (simp add: fs_ok_def file_ok_def)
  have "file_ok ?b k d" if "fs_files ?b k = Some d" for k d
    using that new old by (auto simp: commit_path_def Let_def split: option.splits planned.splits if_splits)
  then have "fs_ok hash ?b" using Cons.prems(1) by (simp add: fs_ok_def)
  from Cons.IH [OF this] Cons.prems show ?case by simp
qed simp

lemma merge_collected_cases:
  obtains "snd (merge_collected hash now ords dstB opts f pol sb db src dst b) = b"
    "\<not> mg_Committed (fst (merge_collected hash now ords dstB opts f pol sb db src dst b))"
  | plan where "mg_Committed (fst (merge_collected hash now ords dstB opts f pol sb db src dst b))" "\<not> mo_DryRun opts"
      "snd (merge_collected hash now ords dstB opts f pol sb db src dst b) =
        \<lparr>fs_branches = (fs_branches b)(branchKey (f_Tenant f) (f_Namespace f) dstB
           \<mapsto> db\<lparr>br_info := (br_info db)\<lparr>bi_CommittedAt := now\<rparr>\<rparr>),
         fs_files = fold (commit_path plan f dstB now) (mo_commit ords) (fs_files b)\<rparr>"
proof -
  obtain plan0 cs0 where 0: "fold (classify_path hash (br_ForkBase sb) src dst) (mo_paths ords) (Map.empty, []) = (plan0, cs0)"
    by fastforce
  obtain plan cs where 1: "resolve_all pol (br_ForkBaseContent sb) src dst plan0 cs0 = (plan, cs)" by fastforce
  obtain m a d where 2: "fold (count_actions plan dst) (mo_count ords) (0, 0, 0) = (m, a, d)" by (metis prod_cases3)
  consider "pol = MergeFail \<and> cs0 \<noteq> []" | "\<not> (pol = MergeFail \<and> cs0 \<noteq> [])" "mo_DryRun opts"
    | "\<not> (pol = MergeFail \<and> cs0 \<noteq> [])" "\<not> mo_DryRun opts" by blast
  then show thesis
  proof cases
    case 1
    then show ?thesis by (intro that(1)) (simp_all add: merge_collected_def 0)
  next
    case c: 2
    then show ?thesis by (intro that(1)) (simp_all only: merge_collected_def 0 1 2 Let_def prod.case if_False if_True simp_thms, simp_all)
  next
    case c: 3
    then show ?thesis by (intro that(2) [of plan]) (simp_all only: merge_collected_def 0 1 2 Let_def prod.case if_False if_True simp_thms, simp_all)
  qed
qed

lemma fs_Merge_cases:
  assumes "fs_Merge hash ctx now ords srcB dstB opts f b = (r, b')"
  obtains "b' = b" "\<And>res. r = Inr res \<Longrightarrow> \<not> mg_Committed res"
  | db plan res where "r = Inr res" "mg_Committed res" "\<not> mo_DryRun opts"
      "fs_branches b (branchKey (f_Tenant f) (f_Namespace f) dstB) = Some db"
      "fs_branches b' = (fs_branches b)(branchKey (f_Tenant f) (f_Namespace f) dstB
         \<mapsto> db\<lparr>br_info := (br_info db)\<lparr>bi_CommittedAt := now\<rparr>\<rparr>)"
      "fs_files b' = fold (commit_path plan f dstB now) (mo_commit ords) (fs_files b)"
proof -
  have "(\<exists>e. r = Inl e) \<and> b' = b \<or> (\<exists>sb db src dst. fs_branches b (branchKey (f_Tenant f) (f_Namespace f) dstB) = Some db
      \<and> apfst Inr (merge_collected hash now ords dstB opts f (effective_policy opts) sb db src dst b) = (r, b'))"
    using assms unfolding fs_Merge_def by (auto split: option.splits if_splits)
  then show thesis
  proof (elim disjE exE conjE)
    fix e
    assume "r = Inl e" "b' = b"
    then show thesis by (intro that(1)) auto
  next
    fix sb db src dst
    assume db: "fs_branches b (branchKey (f_Tenant f) (f_Namespace f) dstB) = Some db"
      and m: "apfst Inr (merge_collected hash now ords dstB opts f (effective_policy opts) sb db src dst b) = (r, b')"
    show thesis
      by (rule merge_collected_cases [of hash now ords dstB opts f "effective_policy opts" sb db src dst b])
        (use m db that in \<open>auto simp: apfst_def map_prod_def split: prod.splits\<close>)
  qed
qed

lemma fs_ok_grow:
  assumes "fs_ok hash b" "fs_files b' = fs_files b" "\<And>k. fs_branches b k \<noteq> None \<Longrightarrow> fs_branches b' k \<noteq> None"
    "\<And>k br. fs_branches b' k = Some br \<Longrightarrow> branch_ok hash br"
  shows "fs_ok hash b'"
proof -
  have "file_ok b' k d" if "file_ok b k d" for k d
    using that assms(3) unfolding file_ok_def by blast
  with assms show ?thesis by (simp add: fs_ok_def)
qed

lemma fs_Merge_ok:
  assumes "fs_ok hash b" "plain (f_Tenant f)" "plain (f_Namespace f)" "plain dstB"
    "fs_Merge hash ctx now ords srcB dstB opts f b = (r, b')"
  shows "fs_ok hash b'"
  using assms(5)
proof (cases rule: fs_Merge_cases)
  case (2 db plan res)
  have a: "fs_ok hash (b\<lparr>fs_files := fs_files b'\<rparr>)" unfolding 2 using 2 by (intro commit_ok assms) simp
  have "fs_branches b' k \<noteq> None" if "fs_branches b k \<noteq> None" for k
    using that by (simp add: 2(5))
  moreover have "branch_ok hash x" if "fs_branches b' k = Some x" for k x
    using that 2(4,5) assms(1) by (auto simp: fs_ok_def branch_ok_def split: if_splits)
  ultimately show ?thesis by (rule fs_ok_grow [OF a, rotated]) auto
qed (use assms in simp)

subsection \<open>Properties of the merge\<close>


text \<open>A store with one file, forked and edited on the fork.\<close>

definition demo_doc :: "string \<Rightarrow> bytes \<Rightarrow> Document" where
  "demo_doc key c = stored_doc key (note_doc ''t'' ''x'' c) ''x'' 1 1"

definition demo_fs :: agentFSBackend where
  "demo_fs = \<lparr>fs_branches =
     [''t/n/main'' \<mapsto> \<lparr>br_info = new_info ''main'' [] 0, br_ForkedFrom = [], br_ForkBase = Map.empty, br_ForkBaseContent = Map.empty\<rparr>,
      ''t/n/dev'' \<mapsto> \<lparr>br_info = new_info ''dev'' ''main'' 1, br_ForkedFrom = ''main'', br_ForkBase = [''x'' \<mapsto> ''a''],
         br_ForkBaseContent = [''x'' \<mapsto> ''a'']\<rparr>],
     fs_files = [''t/n/main/x'' \<mapsto> demo_doc ''t/n/main/x'' ''a'', ''t/n/dev/x'' \<mapsto> demo_doc ''t/n/dev/x'' ''b'']\<rparr>"

definition demo_orders :: merge_orders where
  "demo_orders = \<lparr>mo_src = [''t/n/main/x'', ''t/n/dev/x''], mo_dst = [''t/n/dev/x'', ''t/n/main/x''],
     mo_paths = [''x''], mo_count = [''x''], mo_commit = [''x'']\<rparr>"

abbreviation demo_dev :: fsBranch where "demo_dev \<equiv> the (fs_branches demo_fs ''t/n/dev'')"
abbreviation demo_main :: fsBranch where "demo_main \<equiv> the (fs_branches demo_fs ''t/n/main'')"

lemma demo_doc_fields [simp]:
  "doc_ID (demo_doc k c) = k" "doc_Tenant (demo_doc k c) = ''t''" "doc_Namespace (demo_doc k c) = ''n''"
  "doc_Content (demo_doc k c) = c"
  by (simp_all add: demo_doc_def note_doc_def)

lemma demo_fs_ok: "fs_ok id demo_fs"
proof -
  have "file_ok demo_fs ''t/n/main/x'' (demo_doc ''t/n/main/x'' ''a'')"
    unfolding file_ok_def by (intro conjI exI [of _ "''main''"] exI [of _ "''x''"]) (simp_all add: fileKey_def branchKey_def demo_fs_def)
  moreover have "file_ok demo_fs ''t/n/dev/x'' (demo_doc ''t/n/dev/x'' ''b'')"
    unfolding file_ok_def by (intro conjI exI [of _ "''dev''"] exI [of _ "''x''"]) (simp_all add: fileKey_def branchKey_def demo_fs_def)
  moreover have "fs_files demo_fs k = Some d \<Longrightarrow> k = ''t/n/main/x'' \<and> d = demo_doc ''t/n/main/x'' ''a''
      \<or> k = ''t/n/dev/x'' \<and> d = demo_doc ''t/n/dev/x'' ''b''" for k d
    by (auto simp: demo_fs_def split: if_splits)
  moreover have "fs_branches demo_fs k = Some x \<Longrightarrow> branch_ok id x" for k x
    by (auto simp: demo_fs_def branch_ok_def fun_eq_iff split: if_splits)
  ultimately show ?thesis unfolding fs_ok_def by blast
qed

lemma demo_ver:
  "ver demo_fs tn_filter ''main'' p = (if p = ''x'' then Some ''a'' else None)"
  "ver demo_fs tn_filter ''dev'' p = (if p = ''x'' then Some ''b'' else None)"
  by (simp_all add: ver_def demo_fs_def fileKey_def)

lemma demo_dev_base: "br_ForkBaseContent demo_dev = [''x'' \<mapsto> ''a'']"
  by (simp add: demo_fs_def)

lemma demo_pre: "merge_pre id demo_fs tn_filter demo_dev demo_main ''dev'' ''main'' demo_orders"
  unfolding merge_pre_def
proof (intro conjI)
  show "orders_ok demo_orders tn_filter demo_dev ''dev'' ''main'' demo_fs"
    unfolding orders_ok_def demo_ver
    by (auto simp: demo_orders_def range_order_def demo_fs_def split: if_splits)
  show "fs_ok id demo_fs" by (rule demo_fs_ok)
qed (simp_all add: branchKey_def demo_fs_def)


text \<open>
  A merge touches nothing but its destination branch: whatever the policy and the
  orders, a merge that fails, is refused or is a dry run leaves the store as it was, and a
  committed one changes no file outside the destination branch and no other branch record.
\<close>

lemma fs_Merge_frame:
  assumes "fs_Merge hash ctx now ords srcB dstB opts f b = (r, b')"
  shows "(\<forall>k. \<not> HasPrefix k (fileKey (f_Tenant f) (f_Namespace f) dstB []) \<longrightarrow> fs_files b' k = fs_files b k)
    \<and> (\<forall>k. k \<noteq> branchKey (f_Tenant f) (f_Namespace f) dstB \<longrightarrow> fs_branches b' k = fs_branches b k)
    \<and> (mo_DryRun opts \<or> \<not> (\<exists>res. r = Inr res \<and> mg_Committed res) \<longrightarrow> b' = b)"
  using assms by (cases rule: fs_Merge_cases) (auto simp: commit_other)

subsection \<open>Histories of the store\<close>

text \<open>
  One operation of the store, labelled with the tenant that issues it.  Names are plain, as those of
  a tenant, a namespace and a branch that hold no slash.
\<close>

inductive fs_step :: "(bytes \<Rightarrow> string) \<Rightarrow> string \<Rightarrow> agentFSBackend \<Rightarrow> agentFSBackend \<Rightarrow> bool" for hash where
  step_Write: "plain_doc doc \<Longrightarrow> fs_Write ctx t0 now doc b = (r, b') \<Longrightarrow> fs_step hash (doc_Tenant doc) b b'"
| step_Delete: "fs_Delete ctx i f b = (e, b') \<Longrightarrow> fs_step hash (f_Tenant f) b b'"
| step_Branch: "plain (f_Tenant f) \<Longrightarrow> plain (f_Namespace f) \<Longrightarrow> plain base \<Longrightarrow> plain new \<Longrightarrow>
    range_order keys (fs_files b) \<Longrightarrow> fs_Branch hash ctx t0 now keys base new f b = (ri, b') \<Longrightarrow> fs_step hash (f_Tenant f) b b'"
| step_Merge: "plain (f_Tenant f) \<Longrightarrow> plain (f_Namespace f) \<Longrightarrow> plain dstB \<Longrightarrow>
    fs_Merge hash ctx now ords srcB dstB opts f b = (rm, b') \<Longrightarrow> fs_step hash (f_Tenant f) b b'"

inductive fs_history :: "(bytes \<Rightarrow> string) \<Rightarrow> agentFSBackend \<Rightarrow> string list \<Rightarrow> agentFSBackend \<Rightarrow> bool" for hash where
  history_Nil: "fs_history hash b [] b"
| history_Cons: "fs_step hash u b b' \<Longrightarrow> fs_history hash b' us b'' \<Longrightarrow> fs_history hash b (u # us) b''"

text \<open>What a tenant can reach: the files that carry its name.\<close>

definition fs_view :: "string \<Rightarrow> agentFSBackend \<Rightarrow> string \<rightharpoonup> Document" where
  "fs_view t b k = (case fs_files b k of Some d \<Rightarrow> if doc_Tenant d = t then Some d else None | None \<Rightarrow> None)"

lemma fs_Get_view:
  "fs_Get None i f b = Inr d \<longleftrightarrow> f_Tenant f \<noteq> [] \<and> fs_view (f_Tenant f) b i = Some d \<and> doc_Namespace d = f_Namespace f"
  by (auto simp: fs_view_def fs_Get_iff split: option.splits)

lemma fs_view_outside:
  assumes "fs_ok hash b" "fs_ok hash b'" "plain u" "plain n" "plain br" "u \<noteq> t"
    and "\<And>k. \<not> HasPrefix k (fileKey u n br []) \<Longrightarrow> fs_files b' k = fs_files b k"
  shows "fs_view t b' = fs_view t b"
proof (rule ext)
  fix k
  note scope = fs_ok_scope [where f = "\<lparr>f_Namespace = n, f_Tenant = u, f_Metadata = Map.empty\<rparr>" and br = br and k = k, simplified, OF _ assms(3-5)]
  show "fs_view t b' k = fs_view t b k"
  proof (cases "HasPrefix k (fileKey u n br [])")
    case True
    then have "fs_view t b'' k = None" if "fs_ok hash b''" for b''
      using scope [OF that] assms(6) by (auto simp: fs_view_def split: option.split)
    with assms(1,2) show ?thesis by simp
  qed (simp add: assms(7) fs_view_def)
qed

lemma fs_step_ok: "fs_step hash u b b' \<Longrightarrow> fs_ok hash b \<Longrightarrow> fs_ok hash b'"
  by (induction rule: fs_step.induct) (blast intro: fs_Write_ok fs_Delete_ok fs_Branch_ok fs_Merge_ok)+

lemma fs_step_view:
  assumes "fs_step hash u b b'" "fs_ok hash b" "u \<noteq> t"
  shows "fs_view t b' = fs_view t b"
  using assms(1) fs_step_ok [OF assms(1,2)] assms(2,3)
proof (induction rule: fs_step.induct)
  case (step_Write doc ctx t0 now b r b')
  show ?case
  proof (cases r)
    case (Inr w)
    with step_Write(2) have "fs_Write ctx t0 now doc b = (Inr w, b')" by simp
    then obtain p cr where "wr_ID w = fileKey (doc_Tenant doc) (doc_Namespace doc) (doc_branch doc) p"
      "fs_files b' = (fs_files b)(wr_ID w \<mapsto> stored_doc (wr_ID w) doc p cr now)" by (rule fs_Write_cases)
    then have "\<not> HasPrefix k (fileKey (doc_Tenant doc) (doc_Namespace doc) (doc_branch doc) []) \<Longrightarrow> fs_files b' k = fs_files b k" for k
      by (metis HasPrefix_iff fileKey_prefix fun_upd_other)
    with step_Write show ?thesis unfolding plain_doc_def
      by (intro fs_view_outside [of hash b b' "doc_Tenant doc" "doc_Namespace doc" "doc_branch doc"]) blast+
  qed (use step_Write fs_Write_fails in blast)
next
  case (step_Delete ctx i f b e b')
  show ?case
  proof (cases e)
    case None
    with step_Delete(1) have "fs_Delete ctx i f b = (None, b')" by simp
    then show ?thesis by (rule fs_Delete_cases) (use step_Delete in \<open>auto simp: fs_view_def fun_eq_iff\<close>)
  qed (use step_Delete fs_Delete_fails in blast)
next
  case (step_Branch f base new keys b ctx t0 now ri b')
  show ?case
  proof (cases ri)
    case (Inr info)
    with step_Branch show ?thesis by (intro fs_view_outside [of hash b b' "f_Tenant f" "f_Namespace f" new]) (auto intro: fs_Branch_forked(2))
  qed (use step_Branch fs_Branch_fails in blast)
next
  case (step_Merge f dstB ctx now ords srcB opts b rm b')
  have "\<not> HasPrefix k (fileKey (f_Tenant f) (f_Namespace f) dstB []) \<Longrightarrow> fs_files b' k = fs_files b k" for k
    using step_Merge(4) by (cases rule: fs_Merge_cases) (auto simp: commit_other)
  with step_Merge show ?case
    by (intro fs_view_outside [of hash b b' "f_Tenant f" "f_Namespace f" dstB]) blast+
qed

lemma fs_history_view:
  "fs_history hash b us b' \<Longrightarrow> fs_ok hash b \<Longrightarrow> t \<notin> set us \<Longrightarrow> fs_ok hash b' \<and> fs_view t b' = fs_view t b"
proof (induction rule: fs_history.induct)
  case (history_Cons u b b' us b'')
  with fs_step_ok [of hash u b b'] fs_step_view [of hash u b b' t] show ?case by auto
qed simp

text \<open>
  Claim C27.  Tenants are isolated across every history of writes, deletes, forks and merges: the
  invariant of the store holds throughout, and the document a tenant reads by any identifier in
  any namespace, or that it reads none, is unchanged by any number of operations, successful or not, of the other tenants.
\<close>

theorem fs_history_isolated:
  assumes "fs_history hash b us b'" "fs_ok hash b" "f_Tenant f \<notin> set us"
  shows "fs_ok hash b' \<and> (fs_Get None i f b' = Inr d \<longleftrightarrow> fs_Get None i f b = Inr d)"
  using fs_history_view [OF assms] by (simp add: fs_Get_view)

theorem fs_history_isolated_witness:
  "\<exists>b'. fs_history id demo_fs [''u''] b' \<and> fs_files b' \<noteq> fs_files demo_fs
     \<and> fs_Get None ''t/n/main/x'' tn_filter b' = Inr (demo_doc ''t/n/main/x'' ''a'')"
proof -
  obtain r b' where w: "fs_Write None 0 1 (note_doc ''u'' ''x'' ''z'') demo_fs = (r, b')" by fastforce
  have p: "plain_doc (note_doc ''u'' ''x'' ''z'')" by (simp add: plain_doc_def doc_branch_def note_doc_def)
  have h: "fs_history id demo_fs [''u''] b'"
    using fs_history.intros(2) [OF step_Write [OF p w] history_Nil] by (simp add: note_doc_def)
  have "fs_files b' ''u/n/main/x'' \<noteq> fs_files demo_fs ''u/n/main/x''"
    using w by (auto simp: Let_def fs_Write_def note_doc_def doc_branch_def safePath_x ensureBranch_def fileKey_def branchKey_def demo_fs_def)
  moreover have "fs_Get None ''t/n/main/x'' tn_filter demo_fs = Inr (demo_doc ''t/n/main/x'' ''a'')"
    by (simp add: fs_Get_iff) (simp add: demo_fs_def)
  ultimately show ?thesis using h fs_history_isolated [OF h demo_fs_ok, of tn_filter "''t/n/main/x''"] by auto
qed


definition line_file :: "char list \<Rightarrow> bytes" where
  "line_file cs = concat (map (\<lambda>c. [c, CHR 0x0A]) cs)"

definition conflict_at :: "string \<Rightarrow> ConflictInfo" where
  "conflict_at p = \<lparr>ci_Path = p, ci_Kind = ''edit/edit''\<rparr>"


end
