(* ===== verification/MemoryWorker.thy ===== *)
theory MemoryWorker
  imports AgentFSMerge
begin

section \<open>The retrieval worker\<close>

text \<open>
  \<open>pkg/memory/worker/worker.go\<close> and \<open>chunker.go\<close>, the requests of \<open>pkg/memory/api/api.go\<close> the worker
  answers, and the status codes by which \<open>transport.go\<close> carries an error to the gateway.

  A storage engine is a record of functions over a world, one for each method of the interface
  \<open>Backend\<close>; the operations that only the vector engine has, which the worker finds by a type
  assertion, are optional.  The embedder and the summarizer are functions over the same world.
  Logging is left out.  Cutting a document into chunks can index out of range and panic, which is
  the value \<^term>\<open>None\<close>; \<open>int\<close> is unbounded, as no length comes near the bound of the machine.

  The main results: the chunks of a document cover it without a gap, end where a rune ends and
  are no longer than the limit, and with an overlap the last ones are all the short suffixes of the
  document; a worker hands a backend only filters of the tenant and namespace of the request.
\<close>

subsection \<open>Errors\<close>

fun mem_Error :: "mem_error \<Rightarrow> string" where
  "mem_Error (Error k m) = (if m = [] then k else k @ '': '' @ m)"
| "mem_Error (ErrNotSupported op backend) = ''memory backend '' @ backend @ '' does not support '' @ op"
| "mem_Error (plain_error m) = m"

definition wrapBackend :: "mem_error \<Rightarrow> mem_error" where
  "wrapBackend e = (if KindOf e = KindInternal then BackendUnavailable (mem_Error e) else e)"

text \<open>The hop to the gateway: a status code and an envelope with the kind and the text of the error.\<close>

definition statusForKind :: "Kind \<Rightarrow> int" where
  "statusForKind k =
     (if k = KindUnauthenticated then 401
      else if k = KindPermissionDenied then 403
      else if k = KindQuotaExceeded then 429
      else if k = KindNotFound then 404
      else if k = KindNotSupported then 501
      else if k = KindInvalid then 400
      else if k = KindBackendUnavailable then 503
      else 500)"

definition kindForStatus :: "int \<Rightarrow> Kind" where
  "kindForStatus code =
     (if code = 401 then KindUnauthenticated
      else if code = 403 then KindPermissionDenied
      else if code = 429 then KindQuotaExceeded
      else if code = 404 then KindNotFound
      else if code = 501 then KindNotSupported
      else if code = 400 then KindInvalid
      else if code = 503 then KindBackendUnavailable
      else KindInternal)"

definition writeErr :: "mem_error \<Rightarrow> int \<times> (Kind \<times> string)" where
  "writeErr e = (let k = KindOf e in (statusForKind k, (k, mem_Error e)))"

definition client_error :: "int \<Rightarrow> string \<Rightarrow> Kind \<times> string \<Rightarrow> mem_error" where
  "client_error status raw env =
     (let k = (if fst env = [] then kindForStatus status else fst env);
          msg = (if snd env = [] then raw else snd env)
      in Error k msg)"

subsection \<open>Requests\<close>

record RequestIdentity =
  ri_Tenant :: string
  ri_Namespace :: string
  ri_CallerSPIFFEID :: string
  ri_RetrieverRef :: string

record RetrieveRequest =
  rr_Identity :: RequestIdentity
  rr_Query :: string
  rr_TopK :: int32
  rr_Filters :: Filter
  rr_StoreRef :: string

record WriteRequest =
  wq_Identity :: RequestIdentity
  wq_Document :: Document
  wq_TraT :: string

record GetRequest =
  gq_Identity :: RequestIdentity
  gq_ID :: string

record DeleteRequest =
  dq_Identity :: RequestIdentity
  dq_ID :: string
  dq_TraT :: string

record ListNamespacesRequest =
  lq_Identity :: RequestIdentity

record SummarizeRequest =
  sq_Identity :: RequestIdentity
  sq_Query :: string

record BranchFSRequest =
  bq_Identity :: RequestIdentity
  bq_BaseBranch :: string
  bq_NewBranch :: string

record SnapshotFSRequest =
  nq_Identity :: RequestIdentity
  nq_Branch :: string

record ListBranchesRequest =
  hq_Identity :: RequestIdentity

record MergeFSRequest =
  mr_Identity :: RequestIdentity
  mr_SrcBranch :: string
  mr_DstBranch :: string
  mr_OnConflict :: string
  mr_DryRun :: bool

type_synonym RetrieveResult = "ScoredChunk list \<times> int"

record SnapshotInfo =
  si_ID :: string
  si_Branch :: string
  si_CreatedAt :: time
  si_SizeBytes :: int64

subsection \<open>Storage engines\<close>

text \<open>What the vector engine has beside the interface.\<close>

record 'w vector_ops =
  vb_RetrieveWithEmbedding :: "32 word list \<Rightarrow> int \<Rightarrow> Filter \<Rightarrow> 'w \<Rightarrow> (mem_error + RetrieveResult) \<times> 'w"
  vb_WriteChunk :: "Document \<Rightarrow> Chunk \<Rightarrow> 'w \<Rightarrow> mem_error option \<times> 'w"

record 'w Backend =
  be_Retrieve :: "string \<Rightarrow> int \<Rightarrow> Filter \<Rightarrow> 'w \<Rightarrow> (mem_error + RetrieveResult) \<times> 'w"
  be_Write :: "Document \<Rightarrow> 'w \<Rightarrow> (mem_error + WriteResult) \<times> 'w"
  be_Get :: "string \<Rightarrow> Filter \<Rightarrow> 'w \<Rightarrow> (mem_error + Document) \<times> 'w"
  be_Delete :: "string \<Rightarrow> Filter \<Rightarrow> 'w \<Rightarrow> mem_error option \<times> 'w"
  be_ListNamespaces :: "Filter \<Rightarrow> 'w \<Rightarrow> (mem_error + string list) \<times> 'w"
  be_Summarize :: "string \<Rightarrow> Filter \<Rightarrow> 'w \<Rightarrow> (mem_error + string) \<times> 'w"
  be_Branch :: "string \<Rightarrow> string \<Rightarrow> Filter \<Rightarrow> 'w \<Rightarrow> (mem_error + BranchInfo) \<times> 'w"
  be_Snapshot :: "string \<Rightarrow> Filter \<Rightarrow> 'w \<Rightarrow> (mem_error + SnapshotInfo) \<times> 'w"
  be_ListBranches :: "Filter \<Rightarrow> 'w \<Rightarrow> (mem_error + BranchInfo list) \<times> 'w"
  be_Merge :: "string \<Rightarrow> string \<Rightarrow> MergeOptions \<Rightarrow> Filter \<Rightarrow> 'w \<Rightarrow> (mem_error + MergeResult) \<times> 'w"
  be_vector :: "'w vector_ops option"

type_synonym 'w BackendSelector = "string \<Rightarrow> mem_error + 'w Backend"

definition StaticSelector :: "'w Backend \<Rightarrow> 'w BackendSelector" where
  "StaticSelector b = (\<lambda>_. Inr b)"

definition MapSelector :: "(string \<rightharpoonup> 'w Backend) \<Rightarrow> 'w BackendSelector" where
  "MapSelector m = (\<lambda>storeRef. case m storeRef of
     Some b \<Rightarrow> Inr b
   | None \<Rightarrow> if storeRef = [] then Inl (BackendUnavailable ''no default backend configured'')
             else Inl (NotFound (''no backend for storeRef '' @ storeRef)))"

subsection \<open>Cutting a document into chunks\<close>

record ChunkSpec =
  cs_MaxBytes :: int
  cs_OverlapBytes :: int

text \<open>\<open>utf8.RuneStart\<close>: the byte is not a continuation byte.\<close>

definition RuneStart :: "char \<Rightarrow> bool" where
  "RuneStart c \<longleftrightarrow> \<not> in_range 0x80 0xBF c"

text \<open>\<open>strings.LastIndexAny(text, " \n\t")\<close>.\<close>

fun last_space :: "string \<Rightarrow> nat option" where
  "last_space [] = None"
| "last_space (c # s) = (case last_space s of
     Some i \<Rightarrow> Some (Suc i)
   | None \<Rightarrow> if c \<in> {CHR '' '', CHR 0x0A, CHR 0x09} then Some 0 else None)"

text \<open>The end of a chunk moves back to the start of a rune, and out of the content when there is none.\<close>

fun align_end :: "string \<Rightarrow> nat \<Rightarrow> nat option" where
  "align_end content e =
     (if length content \<le> e \<or> RuneStart (content ! e) then Some e
      else case e of 0 \<Rightarrow> None | Suc e' \<Rightarrow> align_end content e')"

definition slice :: "string \<Rightarrow> nat \<Rightarrow> nat \<Rightarrow> string" where
  "slice content a b = take (b - a) (drop a content)"

definition chunk_end :: "string \<Rightarrow> nat \<Rightarrow> nat \<Rightarrow> nat option" where
  "chunk_end content maxBytes start =
     (let e = start + maxBytes; e = (if e > length content then length content else e)
      in case align_end content e of
           None \<Rightarrow> None
         | Some e \<Rightarrow>
             if e < start then None
             else if e < length content then
               (case last_space (slice content start e) of
                  Some idx \<Rightarrow> if 0 < idx then Some (start + idx + 1) else Some e
                | None \<Rightarrow> Some e)
             else Some e)"

definition mk_chunk :: "string \<Rightarrow> nat \<Rightarrow> nat \<Rightarrow> nat \<Rightarrow> Chunk" where
  "mk_chunk content index start e = \<lparr>ch_Index = int index, ch_Text = slice content start e, ch_Embedding = [],
     ch_DocumentID = [], ch_StartByte = int start, ch_EndByte = int e\<rparr>"

definition next_start :: "nat \<Rightarrow> nat \<Rightarrow> nat \<Rightarrow> nat" where
  "next_start overlap start e = (if int e - int overlap \<le> int start then start + 1 else e - overlap)"

function chunk_loop :: "string \<Rightarrow> nat \<Rightarrow> nat \<Rightarrow> nat \<Rightarrow> nat \<Rightarrow> Chunk list option" where
  "chunk_loop content maxBytes overlap start index =
     (if length content \<le> start then Some []
      else case chunk_end content maxBytes start of
        None \<Rightarrow> None
      | Some e \<Rightarrow> map_option ((#) (mk_chunk content index start e))
                   (chunk_loop content maxBytes overlap (next_start overlap start e) (index + 1)))"
  by pat_completeness auto
termination
  by (relation "measure (\<lambda>(c, _, _, s, _). length c - s)") (auto simp: next_start_def)

definition chunk_overlap :: "ChunkSpec \<Rightarrow> int" where
  "chunk_overlap spec = (if cs_OverlapBytes spec < 0 \<or> cs_MaxBytes spec \<le> cs_OverlapBytes spec then 0 else cs_OverlapBytes spec)"

definition Chunk_doc :: "Document \<Rightarrow> ChunkSpec \<Rightarrow> Chunk list option" where
  "Chunk_doc doc spec =
     (let content = doc_Content doc
      in if cs_MaxBytes spec \<le> 0 \<or> int (length content) \<le> cs_MaxBytes spec
         then Some [mk_chunk content 0 0 (length content)]
         else chunk_loop content (nat (cs_MaxBytes spec)) (nat (chunk_overlap spec)) 0 0)"

declare align_end.simps [simp del] chunk_loop.simps [simp del]

subsection \<open>The worker\<close>

record 'w Worker =
  wk_Chunk :: ChunkSpec
  wk_AllowedTenants :: "string list"
  wk_selector :: "'w BackendSelector"
  wk_embedder :: "(string \<Rightarrow> 'w \<Rightarrow> (string + 32 word list) \<times> 'w) option"
  wk_summarizer :: "(string \<Rightarrow> string list \<Rightarrow> 'w \<Rightarrow> (string + string) \<times> 'w) option"

definition validateIdentity :: "'w Worker \<Rightarrow> RequestIdentity \<Rightarrow> mem_error option" where
  "validateIdentity w i =
     (if ri_Tenant i = [] then Some (PermissionDenied ''worker: tenant is required'')
      else if ri_Namespace i = [] then Some (PermissionDenied ''worker: namespace is required'')
      else if ri_CallerSPIFFEID i = [] then Some (PermissionDenied ''worker: CallerSPIFFEID is required'')
      else if wk_AllowedTenants w \<noteq> [] \<and> ri_Tenant i \<notin> set (wk_AllowedTenants w)
        then Some (PermissionDenied (''worker: tenant not served by this worker: '' @ ri_Tenant i))
      else None)"

definition filterFrom :: "RequestIdentity \<Rightarrow> Filter \<Rightarrow> Filter" where
  "filterFrom i extra = extra\<lparr>f_Tenant := ri_Tenant i, f_Namespace := ri_Namespace i\<rparr>"

definition no_filter :: Filter where
  "no_filter = \<lparr>f_Namespace = [], f_Tenant = [], f_Metadata = Map.empty\<rparr>"

text \<open>What every operation starts with: the identity is checked and the backend selected.\<close>

definition admit :: "'w Worker \<Rightarrow> RequestIdentity \<Rightarrow> string \<Rightarrow> mem_error + 'w Backend" where
  "admit w i ref = (case validateIdentity w i of Some e \<Rightarrow> Inl e | None \<Rightarrow> wk_selector w ref)"

definition wrap_result :: "(mem_error + 'a) \<times> 'w \<Rightarrow> (mem_error + 'a) \<times> 'w" where
  "wrap_result r = (case r of (Inl e, wd) \<Rightarrow> (Inl (wrapBackend e), wd) | (Inr a, wd) \<Rightarrow> (Inr a, wd))"

definition wk_Retrieve :: "'w Worker \<Rightarrow> RetrieveRequest \<Rightarrow> 'w \<Rightarrow> (mem_error + RetrieveResult) \<times> 'w" where
  "wk_Retrieve w req wd = (case admit w (rr_Identity req) (rr_StoreRef req) of
     Inl e \<Rightarrow> (Inl e, wd)
   | Inr b \<Rightarrow>
       (let f = filterFrom (rr_Identity req) (rr_Filters req); topK = sint (rr_TopK req); topK = (if topK \<le> 0 then 10 else topK)
        in wrap_result (case wk_embedder w of
             Some emb \<Rightarrow>
               if rr_Query req \<noteq> [] then
                 (case emb (rr_Query req) wd of
                    (Inl _, wd) \<Rightarrow> be_Retrieve b (rr_Query req) topK f wd
                  | (Inr qvec, wd) \<Rightarrow> (case be_vector b of
                      Some vb \<Rightarrow> vb_RetrieveWithEmbedding vb qvec topK f wd
                    | None \<Rightarrow> be_Retrieve b (rr_Query req) topK f wd))
               else be_Retrieve b (rr_Query req) topK f wd
           | None \<Rightarrow> be_Retrieve b (rr_Query req) topK f wd)))"

definition embed_doc :: "'w Worker \<Rightarrow> Document \<Rightarrow> 'w \<Rightarrow> Document \<times> 'w" where
  "embed_doc w doc wd = (case wk_embedder w of
     Some emb \<Rightarrow>
       if doc_Content doc \<noteq> [] then
         (case emb (doc_Content doc) wd of
            (Inl _, wd) \<Rightarrow> (doc, wd)
          | (Inr vec, wd) \<Rightarrow> (doc\<lparr>doc_Embedding := vec\<rparr>, wd))
       else (doc, wd)
   | None \<Rightarrow> (doc, wd))"

definition chunk_embedding :: "'w Worker \<Rightarrow> Document \<Rightarrow> nat \<Rightarrow> Chunk \<Rightarrow> 'w \<Rightarrow> 32 word list \<times> 'w" where
  "chunk_embedding w doc n c wd = (case wk_embedder w of
     Some emb \<Rightarrow>
       if 1 < n \<and> ch_Text c \<noteq> doc_Content doc then
         (case emb (ch_Text c) wd of
            (Inl _, wd) \<Rightarrow> (doc_Embedding doc, wd)
          | (Inr vec, wd) \<Rightarrow> (vec, wd))
       else (doc_Embedding doc, wd)
   | None \<Rightarrow> (doc_Embedding doc, wd))"

fun index_chunks :: "'w Worker \<Rightarrow> 'w vector_ops \<Rightarrow> Document \<Rightarrow> nat \<Rightarrow> Chunk list \<Rightarrow> 'w \<Rightarrow> 'w" where
  "index_chunks w vb doc n [] wd = wd"
| "index_chunks w vb doc n (c # cs) wd =
     (let (vec, wd) = chunk_embedding w doc n c wd;
          (_, wd) = vb_WriteChunk vb doc (c\<lparr>ch_Embedding := vec, ch_DocumentID := doc_ID doc\<rparr>) wd
      in index_chunks w vb doc n cs wd)"

text \<open>A write that panics while it cuts the document has stored the document.\<close>

definition wk_Write :: "'w Worker \<Rightarrow> WriteRequest \<Rightarrow> 'w \<Rightarrow> (mem_error + WriteResult) option \<times> 'w" where
  "wk_Write w req wd =
     (let i = wq_Identity req; doc = (wq_Document req)\<lparr>doc_Tenant := ri_Tenant i, doc_Namespace := ri_Namespace i\<rparr>
      in case admit w i (ri_RetrieverRef i) of
           Inl e \<Rightarrow> (Some (Inl e), wd)
         | Inr b \<Rightarrow>
             (let (doc, wd) = embed_doc w doc wd
              in case be_Write b doc wd of
                   (Inl e, wd) \<Rightarrow> (Some (Inl (wrapBackend e)), wd)
                 | (Inr result, wd) \<Rightarrow>
                     (let doc = doc\<lparr>doc_ID := wr_ID result\<rparr>
                      in case be_vector b of
                           None \<Rightarrow> (Some (Inr result), wd)
                         | Some vb \<Rightarrow> (case Chunk_doc doc (wk_Chunk w) of
                             None \<Rightarrow> (None, wd)
                           | Some chunks \<Rightarrow> (Some (Inr result), index_chunks w vb doc (length chunks) chunks wd)))))"

definition wk_Get :: "'w Worker \<Rightarrow> GetRequest \<Rightarrow> 'w \<Rightarrow> (mem_error + Document) \<times> 'w" where
  "wk_Get w req wd = (case admit w (gq_Identity req) (ri_RetrieverRef (gq_Identity req)) of
     Inl e \<Rightarrow> (Inl e, wd)
   | Inr b \<Rightarrow> wrap_result (be_Get b (gq_ID req) (filterFrom (gq_Identity req) no_filter) wd))"

definition wk_Delete :: "'w Worker \<Rightarrow> DeleteRequest \<Rightarrow> 'w \<Rightarrow> (mem_error + unit) \<times> 'w" where
  "wk_Delete w req wd = (case admit w (dq_Identity req) (ri_RetrieverRef (dq_Identity req)) of
     Inl e \<Rightarrow> (Inl e, wd)
   | Inr b \<Rightarrow> (case be_Delete b (dq_ID req) (filterFrom (dq_Identity req) no_filter) wd of
       (Some e, wd) \<Rightarrow> (Inl (wrapBackend e), wd)
     | (None, wd) \<Rightarrow> (Inr (), wd)))"

definition wk_ListNamespaces :: "'w Worker \<Rightarrow> ListNamespacesRequest \<Rightarrow> 'w \<Rightarrow> (mem_error + string list) \<times> 'w" where
  "wk_ListNamespaces w req wd = (case admit w (lq_Identity req) (ri_RetrieverRef (lq_Identity req)) of
     Inl e \<Rightarrow> (Inl e, wd)
   | Inr b \<Rightarrow> wrap_result (be_ListNamespaces b (filterFrom (lq_Identity req) no_filter) wd))"

definition wk_Summarize :: "'w Worker \<Rightarrow> SummarizeRequest \<Rightarrow> 'w \<Rightarrow> (mem_error + string) \<times> 'w" where
  "wk_Summarize w req wd = (case admit w (sq_Identity req) (ri_RetrieverRef (sq_Identity req)) of
     Inl e \<Rightarrow> (Inl e, wd)
   | Inr b \<Rightarrow>
       (let f = filterFrom (sq_Identity req) no_filter
        in case wk_summarizer w of
             None \<Rightarrow> wrap_result (be_Summarize b (sq_Query req) f wd)
           | Some summarize \<Rightarrow> (case be_Retrieve b (sq_Query req) 10 f wd of
               (Inl e, wd) \<Rightarrow> (Inl (wrapBackend e), wd)
             | (Inr (chunks, _), wd) \<Rightarrow>
                 (let texts = filter (\<lambda>t. t \<noteq> []) (map (\<lambda>sc. ch_Text (sc_Chunk sc)) chunks)
                  in case summarize (sq_Query req) texts wd of
                       (Inl e, wd) \<Rightarrow> (Inl (BackendUnavailable (''summarizer: '' @ e)), wd)
                     | (Inr summary, wd) \<Rightarrow> (Inr summary, wd)))))"

definition wk_BranchFS :: "'w Worker \<Rightarrow> BranchFSRequest \<Rightarrow> 'w \<Rightarrow> (mem_error + BranchInfo) \<times> 'w" where
  "wk_BranchFS w req wd = (case admit w (bq_Identity req) (ri_RetrieverRef (bq_Identity req)) of
     Inl e \<Rightarrow> (Inl e, wd)
   | Inr b \<Rightarrow> wrap_result (be_Branch b (bq_BaseBranch req) (bq_NewBranch req) (filterFrom (bq_Identity req) no_filter) wd))"

definition wk_SnapshotFS :: "'w Worker \<Rightarrow> SnapshotFSRequest \<Rightarrow> 'w \<Rightarrow> (mem_error + SnapshotInfo) \<times> 'w" where
  "wk_SnapshotFS w req wd = (case admit w (nq_Identity req) (ri_RetrieverRef (nq_Identity req)) of
     Inl e \<Rightarrow> (Inl e, wd)
   | Inr b \<Rightarrow> wrap_result (be_Snapshot b (nq_Branch req) (filterFrom (nq_Identity req) no_filter) wd))"

definition wk_ListBranches :: "'w Worker \<Rightarrow> ListBranchesRequest \<Rightarrow> 'w \<Rightarrow> (mem_error + BranchInfo list) \<times> 'w" where
  "wk_ListBranches w req wd = (case admit w (hq_Identity req) (ri_RetrieverRef (hq_Identity req)) of
     Inl e \<Rightarrow> (Inl e, wd)
   | Inr b \<Rightarrow> wrap_result (be_ListBranches b (filterFrom (hq_Identity req) no_filter) wd))"

definition wk_MergeFS :: "'w Worker \<Rightarrow> MergeFSRequest \<Rightarrow> 'w \<Rightarrow> (mem_error + MergeResult) \<times> 'w" where
  "wk_MergeFS w req wd = (case admit w (mr_Identity req) (ri_RetrieverRef (mr_Identity req)) of
     Inl e \<Rightarrow> (Inl e, wd)
   | Inr b \<Rightarrow> wrap_result (be_Merge b (mr_SrcBranch req) (mr_DstBranch req)
       \<lparr>mo_OnConflict = mr_OnConflict req, mo_DryRun = mr_DryRun req\<rparr> (filterFrom (mr_Identity req) no_filter) wd))"

subsection \<open>The chunks of a document\<close>

text \<open>Every position is at most three bytes behind the start of a rune.\<close>

definition rune_text :: "string \<Rightarrow> bool" where
  "rune_text c \<longleftrightarrow> (\<forall>i < length c. \<exists>j \<le> i. i \<le> j + 3 \<and> RuneStart (c ! j))
     \<and> (\<forall>i. Suc i < length c \<longrightarrow> byte (c ! i) < 0x80 \<longrightarrow> RuneStart (c ! Suc i))"

lemma rune_len_bytes:
  assumes "utf8_rune_len s = Some n"
  shows "n \<le> 4 \<and> RuneStart (hd s) \<and> (n = 1 \<or> 0x80 \<le> byte (hd s)) \<and> list_all (\<lambda>b. 0x80 \<le> byte b) (tl (take n s))"
proof (cases s)
  case (Cons a t)
  have "n = 1 \<and> byte a < 0x80 \<or> (\<exists>b u. t = b # u \<and> n = 2 \<and> 0xC2 \<le> byte a \<and> 0x80 \<le> byte b)
    \<or> (\<exists>b c u. t = b # c # u \<and> n = 3 \<and> 0xE0 \<le> byte a \<and> 0x80 \<le> byte b \<and> 0x80 \<le> byte c)
    \<or> (\<exists>b c d u. t = b # c # d # u \<and> n = 4 \<and> 0xF0 \<le> byte a \<and> 0x80 \<le> byte b \<and> 0x80 \<le> byte c \<and> 0x80 \<le> byte d)"
    using assms unfolding Cons by (simp split: if_splits list.splits)
  then show ?thesis unfolding Cons by (elim disjE exE conjE) (simp_all add: RuneStart_def)
qed (use assms in simp)

lemma rune_len_shape:
  assumes "utf8_rune_len s = Some n"
  shows "0 < n \<and> n \<le> 4 \<and> n \<le> length s \<and> RuneStart (hd s) \<and> (n = 1 \<or> 0x80 \<le> byte (hd s))
    \<and> (\<forall>i. 0 < i \<longrightarrow> i < n \<longrightarrow> 0x80 \<le> byte (s ! i))"
proof -
  have "0x80 \<le> byte (s ! i)" if "0 < i" "i < n" for i
  proof -
    have "i - 1 < length (tl (take n s))" "tl (take n s) ! (i - 1) = s ! i"
      using that utf8_rune_len_pos [OF assms] by (auto simp: nth_tl)
    with rune_len_bytes [OF assms] show ?thesis by (metis list_all_length)
  qed
  with rune_len_bytes [OF assms] utf8_rune_len_pos [OF assms] show ?thesis by blast
qed

lemma utf8_rune_text: "utf8_Valid s \<Longrightarrow> rune_text s"
proof (induction s rule: utf8_Valid.induct)
  case (1 s)
  show ?case
  proof (cases "s = []")
    case False
    then obtain n where n: "utf8_rune_len s = Some n" "utf8_Valid (drop n s)"
      using "1.prems" by (auto simp: utf8_Valid.simps [of s] split: option.splits)
    note sh = rune_len_shape [OF n(1)]
    have ih: "rune_text (drop n s)" using "1.IH" [OF False n] .
    have h0: "hd s = s ! 0" using False by (simp add: hd_conv_nth)
    have near: "\<exists>j \<le> i. i \<le> j + 3 \<and> RuneStart (s ! j)" if i: "i < length s" for i
    proof (cases "i < n")
      case True
      with sh h0 show ?thesis by (intro exI [of _ 0]) auto
    next
      case ge: False
      with ih i have "\<exists>j \<le> i - n. i - n \<le> j + 3 \<and> RuneStart (drop n s ! j)" unfolding rune_text_def by (auto dest: spec [of _ "i - n"])
      then obtain j where "j \<le> i - n" "i - n \<le> j + 3" "RuneStart (drop n s ! j)" by blast
      with ge sh show ?thesis by (intro exI [of _ "n + j"]) auto
    qed
    have asc: "RuneStart (s ! Suc i)" if i: "Suc i < length s" "byte (s ! i) < 0x80" for i
    proof -
      consider "Suc i < n" | "Suc i = n" | "n \<le> i" by linarith
      then show ?thesis
      proof cases
        case 1
        then have "0x80 \<le> byte (s ! i)" using sh h0 by (cases "i = 0") auto
        with i show ?thesis by simp
      next
        case 2
        with ih i have "\<exists>j \<le> 0. RuneStart (drop n s ! j)" unfolding rune_text_def by (auto dest!: spec [of _ 0])
        with 2 i show ?thesis by simp
      next
        case 3
        then have "Suc (i - n) < length (drop n s)" "byte (drop n s ! (i - n)) < 0x80" using i by auto
        with ih have "RuneStart (drop n s ! Suc (i - n))" unfolding rune_text_def by blast
        with 3 i show ?thesis by (simp add: Suc_diff_le [symmetric] add.commute)
      qed
    qed
    show ?thesis unfolding rune_text_def using near asc by blast
  qed (simp add: rune_text_def)
qed

lemma align_end_near:
  assumes "j \<le> e" "length c \<le> e \<or> RuneStart (c ! j)"
  shows "\<exists>e'. align_end c e = Some e' \<and> e' \<le> e \<and> (length c \<le> e \<or> j \<le> e') \<and> (length c \<le> e' \<or> RuneStart (c ! e')) \<and> (length c \<le> e \<longrightarrow> e' = e)"
  using assms
proof (induction e)
  case (Suc e)
  show ?case
  proof (cases "length c \<le> Suc e \<or> RuneStart (c ! Suc e)")
    case False
    with Suc.prems have "j \<le> e" by (metis le_SucE)
    with Suc False have "\<exists>e'. align_end c e = Some e' \<and> e' \<le> e \<and> (length c \<le> e \<or> j \<le> e') \<and> (length c \<le> e' \<or> RuneStart (c ! e')) \<and> (length c \<le> e \<longrightarrow> e' = e)"
      by blast
    with False show ?thesis by (simp add: align_end.simps [of c "Suc e"]) (metis Suc_leI le_SucI le_trans not_le)
  qed (use Suc.prems in \<open>simp add: align_end.simps [of c "Suc e"]\<close>)
qed (auto simp: align_end.simps)

lemma last_space_nth:
  "last_space s = Some i \<Longrightarrow> i < length s \<and> byte (s ! i) < 0x80"
proof (induction s arbitrary: i)
  case (Cons a s)
  then show ?case by (cases "last_space s") (auto split: if_splits)
qed simp

text \<open>A chunk is not empty, keeps to the limit, ends where a rune starts and takes all that is left when it can.\<close>

lemma chunk_end_props:
  assumes "rune_text c" "4 \<le> m" "s < length c"
  obtains e where "chunk_end c m s = Some e" "s < e" "e \<le> length c" "e \<le> s + m"
    "length c \<le> e \<or> RuneStart (c ! e)" "length c \<le> s + m \<longrightarrow> e = length c"
proof -
  define t where "t = min (s + m) (length c)"
  have t: "(if s + m > length c then length c else s + m) = t" "s < t" using assms by (auto simp: t_def)
  obtain j where j: "j \<le> t" "length c \<le> t \<or> RuneStart (c ! j)" "length c \<le> t \<or> t \<le> j + 3"
    using assms(1) unfolding rune_text_def by (metis le_refl not_le)
  from align_end_near [OF j(1,2)] obtain a where a: "align_end c t = Some a" "a \<le> t" "length c \<le> t \<or> j \<le> a"
    "length c \<le> a \<or> RuneStart (c ! a)" "length c \<le> t \<longrightarrow> a = t" by blast
  have sa: "s < a" using a(3,5) j(3) t(2) assms(2) unfolding t_def by (auto simp: min_def split: if_splits)
  show ?thesis
  proof (cases "a < length c \<and> (\<exists>i. last_space (slice c s a) = Some i \<and> 0 < i)")
    case True
    then obtain i where i: "last_space (slice c s a) = Some i" "0 < i" "a < length c" by blast
    from last_space_nth [OF i(1)] have b: "i < a - s" "byte (c ! (s + i)) < 0x80"
      using i(3) by (auto simp: slice_def)
    have "RuneStart (c ! Suc (s + i))" using assms(1) b i(3) unfolding rune_text_def by auto
    with i b a t sa show ?thesis
      by (intro that [of "s + i + 1"]) (auto simp: chunk_end_def Let_def t(1) t_def)
  next
    case False
    with a t sa show ?thesis
      by (intro that [of a]) (auto simp: chunk_end_def Let_def t(1) t_def split: option.split)
  qed
qed

text \<open>
  A list of chunks that covers the content from a position on: it starts there and ends at the end,
  each chunk starts after the one before and not behind its end, and holds the bytes it says,
  up to the start of a rune.
\<close>

definition chunk_ok :: "string \<Rightarrow> int \<Rightarrow> Chunk \<Rightarrow> bool" where
  "chunk_ok c m x \<longleftrightarrow> (\<exists>a b. a \<le> b \<and> b \<le> length c \<and> int (b - a) \<le> m \<and> ch_StartByte x = int a \<and> ch_EndByte x = int b
     \<and> ch_Text x = slice c a b \<and> (b = length c \<or> RuneStart (c ! b)))"

definition covers :: "string \<Rightarrow> int \<Rightarrow> nat \<Rightarrow> nat \<Rightarrow> Chunk list \<Rightarrow> bool" where
  "covers c m s k cs \<longleftrightarrow> cs \<noteq> [] \<and> ch_StartByte (hd cs) = int s \<and> ch_EndByte (last cs) = int (length c)
     \<and> map ch_Index cs = map int [k ..< k + length cs]
     \<and> successively (\<lambda>a b. ch_StartByte a < ch_StartByte b \<and> ch_StartByte b \<le> ch_EndByte a) cs
     \<and> (\<forall>x \<in> set cs. chunk_ok c m x)"

lemma chunk_loop_covers:
  assumes "rune_text c" "4 \<le> m" "s < length c"
  shows "\<exists>cs. chunk_loop c m ov s k = Some cs \<and> covers c (int m) s k cs"
  using assms
proof (induction c m ov s k rule: chunk_loop.induct)
  case (1 c m ov s k)
  from chunk_end_props [OF 1(2-4)] obtain e where e: "chunk_end c m s = Some e" "s < e" "e \<le> length c" "e \<le> s + m"
    "length c \<le> e \<or> RuneStart (c ! e)" .
  let ?n = "next_start ov s e" and ?x = "mk_chunk c k s e"
  have n: "s < ?n" "?n \<le> e" using e(2) by (auto simp: next_start_def)
  have x: "chunk_ok c (int m) ?x" unfolding chunk_ok_def
    using e by (intro exI [of _ s] exI [of _ e]) (auto simp: mk_chunk_def)
  show ?case
  proof (cases "?n < length c")
    case True
    with "1.IH" [OF _ e(1)] 1(2-4) obtain cs where cs: "chunk_loop c m ov ?n (k + 1) = Some cs" "covers c (int m) ?n (k + 1) cs" by auto
    moreover from cs(2) have "Suc 0 \<le> length cs" unfolding covers_def by (cases cs) auto
    ultimately have "covers c (int m) s k (?x # cs)"
      using n x unfolding covers_def by (auto simp: successively_Cons mk_chunk_def upt_conv_Cons)
    then show ?thesis using 1(4) by (intro exI [of _ "?x # cs"]) (simp add: chunk_loop.simps [of c m ov s k] e(1) cs(1) [simplified])
  next
    case False
    then have "e = length c" using n e(3) by simp
    with x have "covers c (int m) s k [?x]" unfolding covers_def by (auto simp: mk_chunk_def)
    with False show ?thesis using 1(4) by (intro exI [of _ "[?x]"]) (simp add: chunk_loop.simps [of c m ov s k] chunk_loop.simps [of c m ov ?n] e(1))
  qed
qed

text \<open>Each suffix no longer than the overlap is a chunk of its own.\<close>

lemma chunk_loop_suffixes:
  assumes "rune_text c" "4 \<le> m" "0 < j" "j \<le> ov" "ov < m" "s + j \<le> length c" "chunk_loop c m ov s k = Some cs"
  shows "\<exists>x \<in> set cs. ch_StartByte x = int (length c - j) \<and> ch_EndByte x = int (length c)"
  using assms
proof (induction c m ov s k arbitrary: cs rule: chunk_loop.induct)
  case (1 c m ov s k)
  have s: "s < length c" using "1.prems"(3,6) by simp
  from chunk_end_props [OF "1.prems"(1,2) s] obtain e where e: "chunk_end c m s = Some e" "s < e" "e \<le> length c"
    "length c \<le> s + m \<longrightarrow> e = length c" by metis
  let ?n = "next_start ov s e"
  obtain cs' where cs: "chunk_loop c m ov ?n (k + 1) = Some cs'" "cs = mk_chunk c k s e # cs'"
    using "1.prems"(7) s e(1) by (auto simp: chunk_loop.simps [of c m ov s k])
  show ?case
  proof (cases "s + j = length c")
    case True
    then have "e = length c" using e(4) "1.prems"(4,5) by simp
    with True show ?thesis using cs(2) by (auto simp: mk_chunk_def)
  next
    case False
    then have "?n + j \<le> length c" using e(3) "1.prems"(4,6) by (auto simp: next_start_def)
    with "1.IH" [OF _ e(1)] "1.prems" s cs(1) have "\<exists>x \<in> set cs'. ch_StartByte x = int (length c - j) \<and> ch_EndByte x = int (length c)" by auto
    with cs(2) show ?thesis by auto
  qed
qed

text \<open>
  Claim C14.  Cutting a document always ends with chunks that cover it.  For UTF-8 content and a limit of
  at least four bytes, or none, cutting does not panic, and the chunks start at the first byte and end at the
  last one, leave no gap, are numbered in order, keep to the limit and end where a rune starts.  With an
  overlap, the document does not end with the chunk that reaches its end: each suffix no longer than the overlap
  follows as a chunk of its own, down to the last byte alone, even inside a rune.
\<close>

theorem Chunk_covers:
  assumes "utf8_Valid (doc_Content doc)" "cs_MaxBytes spec \<le> 0 \<or> 4 \<le> cs_MaxBytes spec"
  shows "\<exists>cs. Chunk_doc doc spec = Some cs
    \<and> covers (doc_Content doc) (if cs_MaxBytes spec \<le> 0 then int (length (doc_Content doc)) else cs_MaxBytes spec) 0 0 cs
    \<and> (0 < cs_MaxBytes spec \<longrightarrow> cs_MaxBytes spec < int (length (doc_Content doc)) \<longrightarrow>
        (\<forall>j. 0 < j \<longrightarrow> int j \<le> chunk_overlap spec \<longrightarrow>
          (\<exists>x \<in> set cs. ch_StartByte x = int (length (doc_Content doc) - j) \<and> ch_EndByte x = int (length (doc_Content doc)))))"
proof (cases "cs_MaxBytes spec \<le> 0 \<or> int (length (doc_Content doc)) \<le> cs_MaxBytes spec")
  case True
  let ?c = "doc_Content doc" and ?lim = "if cs_MaxBytes spec \<le> 0 then int (length (doc_Content doc)) else cs_MaxBytes spec"
  have "chunk_ok ?c ?lim (mk_chunk ?c 0 0 (length ?c))" unfolding chunk_ok_def
    using True by (intro exI [of _ 0] exI [of _ "length ?c"]) (auto simp: mk_chunk_def)
  then have "covers ?c ?lim 0 0 [mk_chunk ?c 0 0 (length ?c)]" by (simp add: covers_def mk_chunk_def)
  then show ?thesis using True by (intro exI [of _ "[mk_chunk ?c 0 0 (length ?c)]"]) (auto simp: Chunk_doc_def Let_def)
next
  case False
  let ?c = "doc_Content doc" and ?m = "nat (cs_MaxBytes spec)" and ?o = "nat (chunk_overlap spec)"
  note rt = utf8_rune_text [OF assms(1)]
  have m: "4 \<le> ?m" "0 < length ?c" "?o < ?m" "?o \<le> length ?c" using False assms(2) by (auto simp: chunk_overlap_def split: if_splits)
  obtain cs where cs: "chunk_loop ?c ?m ?o 0 0 = Some cs" "covers ?c (int ?m) 0 0 cs" using chunk_loop_covers [OF rt m(1,2)] by blast
  have "\<exists>x \<in> set cs. ch_StartByte x = int (length ?c - j) \<and> ch_EndByte x = int (length ?c)" if "0 < j" "int j \<le> chunk_overlap spec" for j
    using chunk_loop_suffixes [OF rt m(1) that(1) _ m(3) _ cs(1)] that m(4) by simp
  then show ?thesis using False cs by (intro exI [of _ cs]) (auto simp: Chunk_doc_def Let_def)
qed

definition accent_doc :: Document where
  "accent_doc = \<lparr>doc_ID = [], doc_Namespace = ''n'', doc_Tenant = ''t'', doc_Content = ''caf cr'' @ [CHR 0xC3, CHR 0xA8],
     doc_Path = [], doc_Metadata = Map.empty, doc_Embedding = [], doc_Version = [], doc_CreatedAt = 0, doc_UpdatedAt = 0\<rparr>"

theorem Chunk_covers_witness:
  "\<exists>cs x. Chunk_doc accent_doc \<lparr>cs_MaxBytes = 6, cs_OverlapBytes = 1\<rparr> = Some cs \<and> covers (doc_Content accent_doc) 6 0 0 cs
     \<and> x \<in> set cs \<and> ch_StartByte x = 7 \<and> ch_EndByte x = 8 \<and> \<not> RuneStart (doc_Content accent_doc ! 7)"
proof -
  have "utf8_Valid (doc_Content accent_doc)" by (simp add: accent_doc_def utf8_Valid.simps)
  then show ?thesis
    using Chunk_covers [of accent_doc "\<lparr>cs_MaxBytes = 6, cs_OverlapBytes = 1\<rparr>"]
    by (auto simp: chunk_overlap_def accent_doc_def RuneStart_def dest!: spec [of _ 1])
qed

subsection \<open>Errors across the hop\<close>

lemma kindForStatus_statusForKind:
  "k \<in> {KindUnauthenticated, KindPermissionDenied, KindQuotaExceeded, KindNotFound, KindNotSupported, KindInvalid,
     KindBackendUnavailable, KindInternal} \<Longrightarrow> kindForStatus (statusForKind k) = k"
  by (auto simp: statusForKind_def kindForStatus_def kind_defs)

text \<open>The kind of an error survives the hop, with its envelope or with the status alone.\<close>

lemma kind_survives_hop:
  assumes "KindOf e \<in> {KindUnauthenticated, KindPermissionDenied, KindQuotaExceeded, KindNotFound, KindNotSupported, KindInvalid,
     KindBackendUnavailable, KindInternal}"
  shows "KindOf (client_error (fst (writeErr e)) raw (snd (writeErr e))) = KindOf e"
    and "KindOf (client_error (fst (writeErr e)) raw ([], [])) = KindOf e"
  using assms by (auto simp: writeErr_def client_error_def Let_def kindForStatus_statusForKind kind_defs)

lemma wrapBackend_kind: "KindOf (wrapBackend e) \<noteq> KindInternal"
  by (auto simp: wrapBackend_def kind_defs)

end
