(* ===== verification/Broker.thy ===== *)
theory Broker
  imports Redact GoStrings
begin

section \<open>The secret broker\<close>

text \<open>
  The lease server of package \<open>secrets\<close>: \<open>server.go\<close>, \<open>types.go\<close>, \<open>credpolicy.go\<close>,
  \<open>interactive_caller.go\<close>, \<open>backend_static.go\<close> and the framing and error codes of \<open>wire.go\<close>.
  The clock, the attestor, the secret backend, the policies, the token verifier and the dynamic
  backend are functions over a world, so a policy may change between two requests.  A SPIFFE
  identity is its string, a time and a duration are counts of nanoseconds, and an error is the
  sentinel it wraps, if any, with its message.  Only the audit line of the log is kept.
\<close>

subsection \<open>Errors and leases\<close>

datatype secrets_error =
  ErrUnauthorized | ErrNotFound | ErrBackendDown | ErrPeerNotSpiffe | ErrTTLExceeded | ErrLeaseExpired
| ErrUnsupportedOS | ErrInvalidRequest

record broker_error =
  be_Is :: "secrets_error option"
  be_Error :: string

definition errorCodeFor :: "secrets_error option \<Rightarrow> string" where
  "errorCodeFor err = (case err of
     Some ErrUnauthorized \<Rightarrow> ''unauthorized''
   | Some ErrNotFound \<Rightarrow> ''not_found''
   | Some ErrBackendDown \<Rightarrow> ''backend_down''
   | Some ErrPeerNotSpiffe \<Rightarrow> ''peer_not_spiffe''
   | Some ErrTTLExceeded \<Rightarrow> ''ttl_exceeded''
   | Some ErrLeaseExpired \<Rightarrow> ''lease_expired''
   | Some ErrInvalidRequest \<Rightarrow> ''invalid_request''
   | _ \<Rightarrow> ''internal'')"

definition errorFromCode :: "string \<Rightarrow> string \<Rightarrow> broker_error" where
  "errorFromCode code msg = \<lparr>be_Is =
     (if code = ''unauthorized'' then Some ErrUnauthorized
      else if code = ''not_found'' then Some ErrNotFound
      else if code = ''backend_down'' then Some ErrBackendDown
      else if code = ''peer_not_spiffe'' then Some ErrPeerNotSpiffe
      else if code = ''ttl_exceeded'' then Some ErrTTLExceeded
      else if code = ''lease_expired'' then Some ErrLeaseExpired
      else if code = ''invalid_request'' then Some ErrInvalidRequest
      else None), be_Error = msg\<rparr>"

definition MaxLeaseTTL :: int where "MaxLeaseTTL = 15 * 60 * 1000000000"

record Lease =
  l_Name :: string
  l_Value :: bytes
  l_Issued :: time
  l_ExpiresAt :: time
  l_Audience :: string
  l_TTL :: int

definition Lease_Valid :: "Lease \<Rightarrow> time \<Rightarrow> bool" where
  "Lease_Valid l now \<longleftrightarrow> now < l_ExpiresAt l"

subsection \<open>Wire format\<close>

type_synonym requestKind = string

definition reqLease :: requestKind where "reqLease = ''lease''"
definition reqRefresh :: requestKind where "reqRefresh = ''refresh''"
definition reqMint :: requestKind where "reqMint = ''mint''"
definition reqClose :: requestKind where "reqClose = ''close''"

record request =
  rq_Kind :: requestKind
  rq_Name :: string
  rq_Lease :: string
  rq_TTL :: int
  rq_TraT :: string

record response =
  rs_Lease :: "Lease option"
  rs_ErrorCode :: string
  rs_ErrorMessage :: string

definition errResponse :: "secrets_error \<Rightarrow> string \<Rightarrow> response" where
  "errResponse err msg = \<lparr>rs_Lease = None, rs_ErrorCode = errorCodeFor (Some err), rs_ErrorMessage = msg\<rparr>"

definition errResponseWrap :: "broker_error \<Rightarrow> response" where
  "errResponseWrap err = \<lparr>rs_Lease = None, rs_ErrorCode = errorCodeFor (be_Is err), rs_ErrorMessage = be_Error err\<rparr>"

definition MaxFrameBytes :: nat where "MaxFrameBytes = 65536"

definition put_uint32 :: "nat \<Rightarrow> bytes" where
  "put_uint32 n = map char_of [n div 2 ^ 24 mod 256, n div 2 ^ 16 mod 256, n div 2 ^ 8 mod 256, n mod 256]"

definition get_uint32 :: "bytes \<Rightarrow> nat" where
  "get_uint32 h = fold (\<lambda>c n. 256 * n + of_char c) h 0"

text \<open>The bytes of a frame around a JSON body, and the body read back with the rest of the stream.\<close>

definition writeFrame :: "bytes \<Rightarrow> string + bytes" where
  "writeFrame body =
     (if MaxFrameBytes < length body then Inl (''secrets: frame '' @ show_nat (length body) @ '' > max '' @ show_nat MaxFrameBytes)
      else Inr (put_uint32 (length body) @ body))"

definition io_ReadFull :: "nat \<Rightarrow> bytes \<Rightarrow> string + bytes \<times> bytes" where
  "io_ReadFull n s = (if n \<le> length s then Inr (take n s, drop n s) else if s = [] then Inl ''EOF'' else Inl ''unexpected EOF'')"

definition readFrame :: "bytes \<Rightarrow> string + bytes \<times> bytes" where
  "readFrame s = (case io_ReadFull 4 s of
     Inl err \<Rightarrow> Inl err
   | Inr (hdr, s) \<Rightarrow>
       (let n = get_uint32 hdr
        in if n = 0 then Inl ''secrets: zero-length frame''
           else if MaxFrameBytes < n then Inl (''secrets: frame '' @ show_nat n @ '' > max '' @ show_nat MaxFrameBytes)
           else io_ReadFull n s))"

subsection \<open>Policies and the static backend\<close>

type_synonym CallerClass = string

definition CallerAgent :: CallerClass where "CallerAgent = ''agent''"
definition CallerInteractive :: CallerClass where "CallerInteractive = ''interactive''"

type_synonym InteractiveCallerPolicy = string

definition InteractiveAllowAudited :: InteractiveCallerPolicy where "InteractiveAllowAudited = ''allow-audited''"
definition InteractiveDeny :: InteractiveCallerPolicy where "InteractiveDeny = ''deny''"

definition Decide :: "InteractiveCallerPolicy \<Rightarrow> CallerClass \<Rightarrow> bool \<times> bool" where
  "Decide p class =
     (if class \<noteq> CallerInteractive then (True, False)
      else if p = InteractiveDeny then (False, True)
      else (True, True))"

text \<open>\<open>strings.ToLower\<close> is an argument.\<close>

definition ClassifyAncestry :: "(string \<Rightarrow> string) \<Rightarrow> string list \<Rightarrow> CallerClass" where
  "ClassifyAncestry lower ancestry =
     (if list_ex (\<lambda>comm. str_Contains (lower comm) ''ttyd'' \<or> str_Contains (lower comm) ''tmux'') ancestry
      then CallerInteractive else CallerAgent)"

type_synonym StaticPolicy = "string \<rightharpoonup> string set"

definition sp_Grant :: "string \<Rightarrow> string list \<Rightarrow> StaticPolicy \<Rightarrow> StaticPolicy" where
  "sp_Grant i names p = p(i \<mapsto> (case p i of None \<Rightarrow> {} | Some s \<Rightarrow> s) \<union> set names)"

definition sp_Allowed :: "StaticPolicy \<Rightarrow> string \<Rightarrow> string \<Rightarrow> bool" where
  "sp_Allowed p i name = (case p i of None \<Rightarrow> False | Some s \<Rightarrow> name \<in> s)"

record StaticBackend =
  sb_store :: "string \<rightharpoonup> string \<rightharpoonup> bytes"
  sb_failure :: "broker_error option"

definition sb_Set :: "string \<Rightarrow> string \<Rightarrow> bytes \<Rightarrow> StaticBackend \<Rightarrow> StaticBackend" where
  "sb_Set pid name v b = b\<lparr>sb_store := (sb_store b)(pid \<mapsto>
     (case sb_store b pid of None \<Rightarrow> Map.empty | Some m \<Rightarrow> m)(name \<mapsto> v))\<rparr>"

definition sb_SetGlobal :: "string \<Rightarrow> bytes \<Rightarrow> StaticBackend \<Rightarrow> StaticBackend" where
  "sb_SetGlobal name v = sb_Set [] name v"

definition sb_Fetch :: "string \<Rightarrow> string \<Rightarrow> StaticBackend \<Rightarrow> broker_error + bytes" where
  "sb_Fetch pid name b = (case sb_failure b of
     Some e \<Rightarrow> Inl e
   | None \<Rightarrow> (case Option.bind (sb_store b pid) (\<lambda>m. m name) of
       Some v \<Rightarrow> Inr v
     | None \<Rightarrow> (case Option.bind (sb_store b []) (\<lambda>m. m name) of
         Some v \<Rightarrow> Inr v
       | None \<Rightarrow> Inl \<lparr>be_Is = Some ErrNotFound, be_Error = ''secrets: not found''\<rparr>)))"

record CredentialRequest =
  cr_Name :: string
  cr_Principal :: string
  cr_Subject :: string
  cr_Scope :: string
  cr_ReqWL :: string
  cr_ReqCtx :: "string \<rightharpoonup> json"

record CredentialGrant =
  cg_Credential :: string
  cg_Repos :: "string list"

type_synonym StaticCredentialPolicy = "string \<rightharpoonup> string \<rightharpoonup> CredentialGrant"

definition cp_Grant :: "string \<Rightarrow> string \<Rightarrow> string \<Rightarrow> string list \<Rightarrow> StaticCredentialPolicy \<Rightarrow> StaticCredentialPolicy" where
  "cp_Grant i scope credential repos p = p(i \<mapsto> (case p i of None \<Rightarrow> Map.empty | Some m \<Rightarrow> m)
     (scope \<mapsto> \<lparr>cg_Credential = credential, cg_Repos = repos\<rparr>))"

definition unauthorized :: "string \<Rightarrow> broker_error" where
  "unauthorized msg = \<lparr>be_Is = Some ErrUnauthorized, be_Error = ''secrets: unauthorized: '' @ msg\<rparr>"

definition AuthorizeMint :: "StaticCredentialPolicy \<Rightarrow> CredentialRequest \<Rightarrow> broker_error + CredentialRequest" where
  "AuthorizeMint p r = (case p (cr_Principal r) of
     None \<Rightarrow> Inl (unauthorized (''principal '' @ cr_Principal r @ '' has no credential grants''))
   | Some byScope \<Rightarrow> (case byScope (cr_Scope r) of
       None \<Rightarrow> Inl (unauthorized (''scope '' @ quoted (cr_Scope r) @ '' not granted for '' @ cr_Principal r))
     | Some g \<Rightarrow>
         if cg_Credential g \<noteq> cr_Name r
         then Inl (unauthorized (''credential '' @ quoted (cr_Name r) @ '' not allowed for scope '' @ quoted (cr_Scope r)))
         else let repo = (case cr_ReqCtx r ''repo'' of Some (JStr x) \<Rightarrow> x | _ \<Rightarrow> [])
              in if cg_Repos g \<noteq> [] \<and> repo \<notin> set (cg_Repos g)
                 then Inl (unauthorized (''repo '' @ quoted repo @ '' not allow-listed for scope '' @ quoted (cr_Scope r)))
                 else Inr r))"

subsection \<open>The server\<close>

record Claims =
  c_Subject :: string
  c_Audience :: string
  c_Scope :: string
  c_TxnID :: string
  c_ReqWL :: string
  c_ReqCtx :: "string \<rightharpoonup> json"
  c_TxnCtx :: "string \<rightharpoonup> json"
  c_Expiry :: time
  c_IssuedAt :: time
  c_Compact :: string

record 'w Server =
  s_MaxLeaseTTL :: int
  s_DefaultTTL :: int
  s_Fetch :: "string \<Rightarrow> string \<Rightarrow> 'w \<Rightarrow> (broker_error + bytes) \<times> 'w"
  s_Allowed :: "string \<Rightarrow> string \<Rightarrow> 'w \<Rightarrow> bool"
  s_Now :: "'w \<Rightarrow> time \<times> 'w"
  s_Mint :: "(CredentialRequest \<Rightarrow> 'w \<Rightarrow> (broker_error + Lease) \<times> 'w) option"
  s_Verify :: "(string \<Rightarrow> 'w \<Rightarrow> (string + Claims) \<times> 'w) option"
  s_AuthorizeMint :: "(CredentialRequest \<Rightarrow> 'w \<Rightarrow> broker_error + CredentialRequest) option"
  s_InteractivePolicy :: InteractiveCallerPolicy
  s_stamp :: "time \<Rightarrow> string"
  s_duration :: "int \<Rightarrow> string"

text \<open>
  The last two fields are the formats of a time and of a duration.
\<close>

text \<open>The settings \<open>Listen\<close> adjusts before it serves.\<close>

definition Listen_settings :: "'w Server \<Rightarrow> 'w Server" where
  "Listen_settings s =
     (let s = (if s_MaxLeaseTTL s \<le> 0 then s\<lparr>s_MaxLeaseTTL := MaxLeaseTTL\<rparr> else s);
          s = (if s_MaxLeaseTTL s > MaxLeaseTTL then s\<lparr>s_MaxLeaseTTL := MaxLeaseTTL\<rparr> else s)
      in if s_DefaultTTL s \<le> 0 \<or> s_DefaultTTL s > s_MaxLeaseTTL s then s\<lparr>s_DefaultTTL := s_MaxLeaseTTL s\<rparr> else s)"

record broker_state =
  b_issued :: "string \<rightharpoonup> Lease"
  b_audit :: "string list"

definition lease_key :: "'w Server \<Rightarrow> Lease \<Rightarrow> string" where
  "lease_key s l = l_Audience l @ ''|'' @ l_Name l @ ''|'' @ s_stamp s (l_Issued l)"

definition recordLease :: "'w Server \<Rightarrow> Lease \<Rightarrow> broker_state \<Rightarrow> broker_state" where
  "recordLease s l st = st\<lparr>b_issued := (b_issued st)(lease_key s l \<mapsto> l)\<rparr>"

text \<open>An expired lease is dropped, whatever the order of the loop.\<close>

definition gcExpired :: "time \<Rightarrow> broker_state \<Rightarrow> broker_state" where
  "gcExpired now st = st\<lparr>b_issued := (\<lambda>k. case b_issued st k of
     None \<Rightarrow> None | Some l \<Rightarrow> if \<not> Lease_Valid l now then None else Some l)\<rparr>"

definition interactiveGate :: "'w Server \<Rightarrow> CallerClass \<Rightarrow> string \<Rightarrow> broker_state \<Rightarrow> response option \<times> broker_state" where
  "interactiveGate s class name st =
     (let (allow, audit) = Decide (s_InteractivePolicy s) class
      in if \<not> allow then (Some (errResponse ErrUnauthorized ''interactive (PTY-spawned) caller denied by broker policy''), st)
         else (None, if audit then st\<lparr>b_audit := b_audit st @ [name]\<rparr> else st))"

definition handleLease ::
  "'w Server \<Rightarrow> string \<Rightarrow> CallerClass \<Rightarrow> string \<Rightarrow> int \<Rightarrow> broker_state \<Rightarrow> 'w \<Rightarrow> response \<times> broker_state \<times> 'w" where
  "handleLease s pid class name reqTTL st w =
     (if name = [] then (errResponse ErrInvalidRequest ''name is required'', st, w)
      else if \<not> s_Allowed s pid name w
      then (errResponse ErrUnauthorized (pid @ '' not allowed for '' @ name), st, w)
      else case interactiveGate s class name st of
        (Some deny, st) \<Rightarrow> (deny, st, w)
      | (None, st) \<Rightarrow>
          (let ttl = (if reqTTL \<le> 0 then s_DefaultTTL s else reqTTL)
           in if ttl > s_MaxLeaseTTL s then (errResponse ErrTTLExceeded (''requested '' @ s_duration s ttl @ '' > max '' @ s_duration s (s_MaxLeaseTTL s)), st, w)
              else case s_Fetch s pid name w of
                (Inl e, w) \<Rightarrow> (errResponseWrap e, st, w)
              | (Inr v, w) \<Rightarrow>
                  (let (now, w) = s_Now s w;
                       l = \<lparr>l_Name = name, l_Value = v, l_Issued = now, l_ExpiresAt = now + ttl, l_Audience = pid, l_TTL = ttl\<rparr>
                   in (\<lparr>rs_Lease = Some l, rs_ErrorCode = [], rs_ErrorMessage = []\<rparr>, recordLease s l st, w))))"

definition handleRefresh ::
  "'w Server \<Rightarrow> string \<Rightarrow> CallerClass \<Rightarrow> string \<Rightarrow> broker_state \<Rightarrow> 'w \<Rightarrow> response \<times> broker_state \<times> 'w" where
  "handleRefresh s pid class key st w = (case b_issued st key of
     None \<Rightarrow> (errResponse ErrLeaseExpired ''no such lease'', st, w)
   | Some prev \<Rightarrow>
       if l_Audience prev \<noteq> pid then (errResponse ErrUnauthorized ''lease belongs to another principal'', st, w)
       else let (now, w) = s_Now s w
            in if \<not> Lease_Valid prev now then (errResponse ErrLeaseExpired ''lease expired'', st, w)
               else handleLease s pid class (l_Name prev) (l_TTL prev) st w)"

text \<open>The last part of a mint: the bounds on what the dynamic backend returned.\<close>

definition bound_lease :: "'w Server \<Rightarrow> string \<Rightarrow> string \<Rightarrow> time \<Rightarrow> Lease \<Rightarrow> Lease" where
  "bound_lease s pid name now lease =
     (let lease = (if l_Issued lease = zero_time then lease\<lparr>l_Issued := now\<rparr> else lease);
          lease = (if l_ExpiresAt lease = zero_time \<or> l_ExpiresAt lease > now + s_MaxLeaseTTL s
                   then lease\<lparr>l_ExpiresAt := now + s_MaxLeaseTTL s\<rparr> else lease)
      in lease\<lparr>l_Name := name, l_Audience := pid, l_TTL := sint (time_Sub (l_ExpiresAt lease) (l_Issued lease))\<rparr>)"

definition mint_verified ::
  "'w Server \<Rightarrow> (CredentialRequest \<Rightarrow> 'w \<Rightarrow> (broker_error + Lease) \<times> 'w) \<Rightarrow> (CredentialRequest \<Rightarrow> 'w \<Rightarrow> broker_error + CredentialRequest)
   \<Rightarrow> string \<Rightarrow> string \<Rightarrow> Claims \<Rightarrow> broker_state \<Rightarrow> 'w \<Rightarrow> response \<times> broker_state \<times> 'w" where
  "mint_verified s mint authorize pid name claims st w =
     (if c_ReqWL claims = [] \<or> c_ReqWL claims \<noteq> pid
      then (errResponse ErrUnauthorized ''trat not bound to caller'', st, w)
      else let cr = \<lparr>cr_Name = name, cr_Principal = pid, cr_Subject = c_Subject claims, cr_Scope = c_Scope claims,
                     cr_ReqWL = c_ReqWL claims, cr_ReqCtx = c_ReqCtx claims\<rparr>
           in case authorize cr w of
             Inl e \<Rightarrow> (errResponse ErrUnauthorized (be_Error e), st, w)
           | Inr cr \<Rightarrow> (case mint cr w of
               (Inl e, w) \<Rightarrow> (errResponseWrap e, st, w)
             | (Inr lease, w) \<Rightarrow>
                 (let (now, w) = s_Now s w; lease = bound_lease s pid name now lease
                  in (\<lparr>rs_Lease = Some lease, rs_ErrorCode = [], rs_ErrorMessage = []\<rparr>, recordLease s lease st, w))))"

definition handleMint ::
  "'w Server \<Rightarrow> string \<Rightarrow> CallerClass \<Rightarrow> string \<Rightarrow> string \<Rightarrow> broker_state \<Rightarrow> 'w \<Rightarrow> response \<times> broker_state \<times> 'w" where
  "handleMint s pid class name trat st w =
     (case (s_Mint s, s_Verify s, s_AuthorizeMint s) of
        (Some mint, Some verify, Some authorize) \<Rightarrow>
          if name = [] then (errResponse ErrInvalidRequest ''credential name is required'', st, w)
          else (case interactiveGate s class name st of
            (Some deny, st) \<Rightarrow> (deny, st, w)
          | (None, st) \<Rightarrow>
              if trat = [] then (errResponse ErrUnauthorized ''trat is required for mint'', st, w)
              else (case verify trat w of
                (Inl _, w) \<Rightarrow> (errResponse ErrUnauthorized ''trat invalid'', st, w)
              | (Inr claims, w) \<Rightarrow> mint_verified s mint authorize pid name claims st w))
      | _ \<Rightarrow> (errResponse ErrInvalidRequest ''dynamic credential minting not configured'', st, w))"

definition dispatch ::
  "'w Server \<Rightarrow> string \<Rightarrow> CallerClass \<Rightarrow> request \<Rightarrow> broker_state \<Rightarrow> 'w \<Rightarrow> response \<times> broker_state \<times> 'w" where
  "dispatch s pid class req st w =
     (if rq_Kind req = reqLease then handleLease s pid class (rq_Name req) (rq_TTL req) st w
      else if rq_Kind req = reqRefresh then handleRefresh s pid class (rq_Lease req) st w
      else if rq_Kind req = reqMint then handleMint s pid class (rq_Name req) (rq_TraT req) st w
      else if rq_Kind req = reqClose then (\<lparr>rs_Lease = None, rs_ErrorCode = [], rs_ErrorMessage = []\<rparr>, st, w)
      else (errResponse ErrInvalidRequest (''unknown kind '' @ quoted (rq_Kind req)), st, w))"

text \<open>
  A connection: the requests that can be read from it, answered one by one.  The peer was
  attested, or attestation failed with a message.
\<close>

fun handle ::
  "'w Server \<Rightarrow> string + string \<Rightarrow> CallerClass \<Rightarrow> request list \<Rightarrow> broker_state \<Rightarrow> 'w \<Rightarrow> response list \<times> broker_state \<times> 'w" where
  "handle s peer class [] st w = ([], st, w)"
| "handle s peer class (req # reqs) st w = (case peer of
     Inl err \<Rightarrow> ([errResponse ErrUnauthorized err], st, w)
   | Inr pid \<Rightarrow>
       (let (resp, st, w) = dispatch s pid class req st w
        in if rq_Kind req = reqClose then ([resp], st, w)
           else let (resps, st, w) = handle s peer class reqs st w in (resp # resps, st, w)))"

subsection \<open>Frames\<close>

lemma get_put_uint32:
  assumes "n < 2 ^ 32"
  shows "get_uint32 (put_uint32 n) = n"
proof -
  have "n div 2 ^ 16 = 256 * (n div 2 ^ 24) + n div 2 ^ 16 mod 256" "n div 2 ^ 8 = 256 * (n div 2 ^ 16) + n div 2 ^ 8 mod 256"
    "n = 256 * (n div 2 ^ 8) + n mod 256" "n div 2 ^ 24 mod 256 = n div 2 ^ 24"
    using assms by (simp_all add: div_mult2_eq [of n 65536 256, simplified] div_mult2_eq [of n 256 256, simplified])
  then show ?thesis by (simp add: get_uint32_def put_uint32_def)
qed

lemma readFrame_writeFrame:
  assumes "body \<noteq> []" "writeFrame body = Inr frame"
  shows "readFrame (frame @ rest) = Inr (body, rest)"
proof -
  from assms(2) have l: "length body \<le> MaxFrameBytes" and f: "frame = put_uint32 (length body) @ body"
    by (auto simp: writeFrame_def split: if_splits)
  have "length (put_uint32 (length body)) = 4" by (simp add: put_uint32_def)
  with l assms(1) show ?thesis
    by (simp add: readFrame_def io_ReadFull_def f get_put_uint32 MaxFrameBytes_def)
qed

subsection \<open>What a connection can obtain\<close>

lemma Listen_settings_bounds:
  "0 < s_MaxLeaseTTL (Listen_settings s)" "s_MaxLeaseTTL (Listen_settings s) \<le> MaxLeaseTTL"
  "0 < s_DefaultTTL (Listen_settings s)" "s_DefaultTTL (Listen_settings s) \<le> s_MaxLeaseTTL (Listen_settings s)"
  by (auto simp: Listen_settings_def MaxLeaseTTL_def Let_def)

text \<open>
  A lease the policy allows: the secret of that name was fetched for the principal, and the lease
  ends within the limit from the time it was issued.
\<close>

definition leased :: "'w Server \<Rightarrow> string \<Rightarrow> Lease \<Rightarrow> bool" where
  "leased s pid l \<longleftrightarrow> (\<exists>w w' now w''. s_Allowed s pid (l_Name l) w \<and> s_Fetch s pid (l_Name l) w = (Inr (l_Value l), w')
     \<and> s_Now s w' = (now, w'') \<and> l_Issued l = now \<and> l_ExpiresAt l = now + l_TTL l \<and> l_ExpiresAt l \<le> now + s_MaxLeaseTTL s)"

text \<open>
  A lease minted for the caller: its token verified and names the principal as the workload, the
  credential policy authorized it, the dynamic backend returned the value, and the lease ends
  within the limit from now.
\<close>

definition minted :: "'w Server \<Rightarrow> string \<Rightarrow> Lease \<Rightarrow> bool" where
  "minted s pid l \<longleftrightarrow> (\<exists>mint verify authorize trat claims cr0 cr lease now w1 w2 w3 w4.
     s_Mint s = Some mint \<and> s_Verify s = Some verify \<and> s_AuthorizeMint s = Some authorize
     \<and> verify trat w1 = (Inr claims, w2) \<and> c_ReqWL claims = pid \<and> cr_Principal cr0 = pid \<and> cr_Name cr0 = l_Name l
     \<and> authorize cr0 w2 = Inr cr \<and> mint cr w2 = (Inr lease, w3) \<and> l_Value l = l_Value lease
     \<and> s_Now s w3 = (now, w4) \<and> l_ExpiresAt l \<le> now + s_MaxLeaseTTL s)"

definition lawful :: "'w Server \<Rightarrow> string \<Rightarrow> CallerClass \<Rightarrow> broker_state \<Rightarrow> Lease \<Rightarrow> bool" where
  "lawful s pid class st l \<longleftrightarrow> l_Audience l = pid \<and> (leased s pid l \<or> minted s pid l)
     \<and> (class = CallerInteractive \<longrightarrow> s_InteractivePolicy s \<noteq> InteractiveDeny \<and> l_Name l \<in> set (b_audit st))"

lemma interactiveGate_None:
  "interactiveGate s class name st = (None, st') \<Longrightarrow>
   set (b_audit st) \<subseteq> set (b_audit st') \<and> (class = CallerInteractive \<longrightarrow> s_InteractivePolicy s \<noteq> InteractiveDeny \<and> name \<in> set (b_audit st'))"
  by (auto simp: interactiveGate_def Decide_def split: if_splits)

lemma interactiveGate_Some: "interactiveGate s class name st = (Some r, st') \<Longrightarrow> st' = st \<and> rs_Lease r = None"
  by (auto simp: interactiveGate_def Decide_def errResponse_def split: if_splits)

lemma error_responses [simp]: "rs_Lease (errResponse e m) = None" "rs_Lease (errResponseWrap b) = None"
  by (simp_all add: errResponse_def errResponseWrap_def)

lemma recordLease_audit [simp]: "b_audit (recordLease s l st) = b_audit st"
  by (simp add: recordLease_def)

definition answers :: "'w Server \<Rightarrow> string \<Rightarrow> CallerClass \<Rightarrow> broker_state \<Rightarrow> response \<times> broker_state \<times> 'w \<Rightarrow> bool" where
  "answers s pid class st = (\<lambda>(resp, st', w'). set (b_audit st) \<subseteq> set (b_audit st')
     \<and> (\<forall>l. rs_Lease resp = Some l \<longrightarrow> lawful s pid class st' l))"

lemma answers_error [simp]: "rs_Lease r = None \<Longrightarrow> answers s pid class st (r, st, w)"
  by (simp add: answers_def)

lemma answers_later: "set (b_audit st0) \<subseteq> set (b_audit st) \<Longrightarrow> answers s pid class st x \<Longrightarrow> answers s pid class st0 x"
  by (auto simp: answers_def)

lemma handleLease_answers: "answers s pid class st (handleLease s pid class name ttl st w)"
proof (cases "name = [] \<or> \<not> s_Allowed s pid name w")
  case True
  then show ?thesis by (auto simp: handleLease_def)
next
  case False
  obtain g st1 where g: "interactiveGate s class name st = (g, st1)" by fastforce
  show ?thesis
  proof (cases g)
    case (Some deny)
    with g interactiveGate_Some have "st1 = st" "rs_Lease deny = None" by blast+
    with False g Some show ?thesis by (simp add: handleLease_def)
  next
    case None
    note gate = interactiveGate_None [OF g [unfolded None]]
    let ?ttl = "if ttl \<le> 0 then s_DefaultTTL s else ttl"
    obtain v w1 where v: "s_Fetch s pid name w = (v, w1)" by fastforce
    obtain now w2 where n: "s_Now s w1 = (now, w2)" by fastforce
    show ?thesis
    proof (cases "?ttl > s_MaxLeaseTTL s \<or> isl v")
      case True
      have "answers s pid class st1 (handleLease s pid class name ttl st w)"
        using True False g None v by (cases v) (auto simp: handleLease_def Let_def)
      with gate show ?thesis by (blast intro: answers_later)
    next
      case False2: False
      then obtain x where x: "v = Inr x" by (cases v) auto
      define l where "l = \<lparr>l_Name = name, l_Value = x, l_Issued = now, l_ExpiresAt = now + ?ttl, l_Audience = pid, l_TTL = ?ttl\<rparr>"
      have "handleLease s pid class name ttl st w =
          (\<lparr>rs_Lease = Some l, rs_ErrorCode = [], rs_ErrorMessage = []\<rparr>, recordLease s l st1, w2)"
        using False False2 g None v x n by (simp add: handleLease_def Let_def l_def)
      moreover have "leased s pid l"
        unfolding leased_def using False False2 v x n
        by (intro exI [of _ w] exI [of _ w1] exI [of _ now] exI [of _ w2]) (simp add: l_def)
      moreover have "l_Audience l = pid" "l_Name l = name" by (simp_all add: l_def)
      ultimately show ?thesis using gate by (simp add: answers_def lawful_def)
    qed
  qed
qed

lemma handleRefresh_answers: "answers s pid class st (handleRefresh s pid class key st w)"
  using handleLease_answers by (auto simp: handleRefresh_def Let_def case_prod_beta split: option.split)

lemma mint_verified_answers:
  assumes "s_Mint s = Some mint" "s_Verify s = Some verify" "s_AuthorizeMint s = Some authorize" "verify trat w1 = (Inr claims, w)"
    and "class = CallerInteractive \<longrightarrow> s_InteractivePolicy s \<noteq> InteractiveDeny \<and> name \<in> set (b_audit st)"
  shows "answers s pid class st (mint_verified s mint authorize pid name claims st w)"
proof (cases "c_ReqWL claims = [] \<or> c_ReqWL claims \<noteq> pid")
  case True
  then show ?thesis by (auto simp: mint_verified_def)
next
  case False
  define cr0 where "cr0 = \<lparr>cr_Name = name, cr_Principal = pid, cr_Subject = c_Subject claims, cr_Scope = c_Scope claims,
    cr_ReqWL = c_ReqWL claims, cr_ReqCtx = c_ReqCtx claims\<rparr>"
  have cr0: "cr_Principal cr0 = pid" "cr_Name cr0 = name" by (simp_all add: cr0_def)
  note mv = mint_verified_def [of s mint authorize pid name claims st w, folded cr0_def]
  show ?thesis
  proof (cases "authorize cr0 w")
    case (Inl e)
    with False mv show ?thesis by simp
  next
    case (Inr cr)
    obtain x w2 where m: "mint cr w = (x, w2)" by fastforce
    obtain now w3 where n: "s_Now s w2 = (now, w3)" by fastforce
    show ?thesis
    proof (cases x)
      case Inl2: (Inl e)
      with False mv Inr m show ?thesis by simp
    next
      case Inr2: (Inr lease)
      let ?l = "bound_lease s pid name now lease"
      have l: "l_Value ?l = l_Value lease" "l_Name ?l = name" "l_Audience ?l = pid" "l_ExpiresAt ?l \<le> now + s_MaxLeaseTTL s"
        by (simp_all add: bound_lease_def Let_def)
      have r: "mint_verified s mint authorize pid name claims st w =
          (\<lparr>rs_Lease = Some ?l, rs_ErrorCode = [], rs_ErrorMessage = []\<rparr>, recordLease s ?l st, w3)"
        using False mv Inr Inr2 m n by (auto simp: Let_def)
      have "minted s pid ?l"
        unfolding minted_def
        by (rule exI [of _ mint], rule exI [of _ verify], rule exI [of _ authorize], rule exI [of _ trat], rule exI [of _ claims],
            rule exI [of _ cr0], rule exI [of _ cr], rule exI [of _ lease], rule exI [of _ now], rule exI [of _ w1],
            rule exI [of _ w], rule exI [of _ w2], rule exI [of _ w3])
           (use assms(1-4) False Inr Inr2 m n l cr0 in simp)
      with l assms(5) show ?thesis unfolding r by (simp add: answers_def lawful_def)
    qed
  qed
qed

lemma handleMint_answers: "answers s pid class st (handleMint s pid class name trat st w)"
proof (cases "s_Mint s = None \<or> s_Verify s = None \<or> s_AuthorizeMint s = None \<or> name = []")
  case True
  then show ?thesis by (auto simp: handleMint_def split: option.split)
next
  case False
  then obtain mint verify authorize where s: "s_Mint s = Some mint" "s_Verify s = Some verify" "s_AuthorizeMint s = Some authorize" by auto
  obtain g st1 where g: "interactiveGate s class name st = (g, st1)" by fastforce
  show ?thesis
  proof (cases g)
    case (Some deny)
    with g interactiveGate_Some have "st1 = st" "rs_Lease deny = None" by blast+
    with False g Some s show ?thesis by (simp add: handleMint_def)
  next
    case None
    note gate = interactiveGate_None [OF g [unfolded None]]
    obtain c w1 where c: "verify trat w = (c, w1)" by fastforce
    have "answers s pid class st1 (handleMint s pid class name trat st w)"
    proof (cases "trat = [] \<or> isl c")
      case True
      with False g None s c show ?thesis by (cases c) (auto simp: handleMint_def)
    next
      case False2: False
      then obtain claims where "c = Inr claims" by (cases c) auto
      with False2 False g None s c mint_verified_answers [OF s, of trat w claims w1 "class" name st1 pid] gate show ?thesis
        by (simp add: handleMint_def)
    qed
    with gate show ?thesis by (blast intro: answers_later)
  qed
qed

lemma dispatch_answers: "answers s pid class st (dispatch s pid class req st w)"
  by (simp add: dispatch_def handleLease_answers handleRefresh_answers handleMint_answers)

lemma lawful_later: "lawful s pid class st l \<Longrightarrow> set (b_audit st) \<subseteq> set (b_audit st') \<Longrightarrow> lawful s pid class st' l"
  by (auto simp: lawful_def)

lemma handle_answers:
  "handle s (Inr pid) class reqs st w = (resps, st', w') \<Longrightarrow>
   set (b_audit st) \<subseteq> set (b_audit st') \<and> (\<forall>resp\<in>set resps. \<forall>l. rs_Lease resp = Some l \<longrightarrow> lawful s pid class st' l)"
proof (induction reqs arbitrary: st w resps st' w')
  case (Cons req reqs)
  obtain r st1 w1 where d: "dispatch s pid class req st w = (r, st1, w1)" by (metis prod_cases3)
  have a: "set (b_audit st) \<subseteq> set (b_audit st1)" "\<And>l. rs_Lease r = Some l \<Longrightarrow> lawful s pid class st1 l"
    using dispatch_answers [of s pid "class" st req w] by (auto simp: d answers_def)
  obtain rs st2 w2 where h: "handle s (Inr pid) class reqs st1 w1 = (rs, st2, w2)" by (metis prod_cases3)
  note IH = Cons.IH [OF h]
  show ?case
  proof (cases "rq_Kind req = reqClose")
    case True
    with Cons.prems d a show ?thesis by auto
  next
    case False
    with Cons.prems d h have e: "resps = r # rs" "st' = st2" by auto
    show ?thesis unfolding e using a IH by (auto intro: lawful_later)
  qed
qed simp

text \<open>
  Claim C39.  Every lease a connection obtains is lawful, whatever it asks and in whatever state
  the broker is: the peer was attested, the lease is for that principal, the secret was allowed
  by the policy at that moment or minted from a verified token bound to the caller and authorized
  by the credential policy, it ends within fifteen minutes, and a terminal user never gets one
  when the broker denies them and is audited when it does not.  Without attestation there is none.
\<close>

theorem broker_leases_lawful:
  "list_all (\<lambda>resp. case rs_Lease resp of None \<Rightarrow> True
     | Some l \<Rightarrow> (case peer of Inl _ \<Rightarrow> False
         | Inr pid \<Rightarrow> lawful (Listen_settings s) pid class (fst (snd (handle (Listen_settings s) peer class reqs st w))) l))
     (fst (handle (Listen_settings s) peer class reqs st w))
   \<and> s_MaxLeaseTTL (Listen_settings s) \<le> MaxLeaseTTL"
proof -
  obtain resps st' w' where h: "handle (Listen_settings s) peer class reqs st w = (resps, st', w')" by (metis prod_cases3)
  have "case rs_Lease resp of None \<Rightarrow> True | Some l \<Rightarrow> (case peer of Inl _ \<Rightarrow> False
      | Inr pid \<Rightarrow> lawful (Listen_settings s) pid class st' l)" if "resp \<in> set resps" for resp
  proof (cases peer)
    case (Inl e)
    with h that show ?thesis by (cases reqs) auto
  next
    case (Inr pid)
    with handle_answers [of "Listen_settings s" pid "class" reqs st w] h that show ?thesis by (auto split: option.split)
  qed
  then show ?thesis unfolding h fst_conv snd_conv by (simp add: list_all_iff Listen_settings_bounds)
qed

subsection \<open>A minted lease and its TTL\<close>

text \<open>A dynamic backend whose credential was issued an hour ago and is still good for long.\<close>

definition old_minter :: "unit Server" where
  "old_minter = \<lparr>s_MaxLeaseTTL = 0, s_DefaultTTL = 0, s_Fetch = (\<lambda>_ _ w. (Inr [], w)), s_Allowed = (\<lambda>_ _ _. True),
     s_Now = Pair (3600 * 1000000000),
     s_Mint = Some (\<lambda>cr w. (Inr \<lparr>l_Name = [], l_Value = ''v'', l_Issued = 0, l_ExpiresAt = zero_time, l_Audience = [], l_TTL = 0\<rparr>, w)),
     s_Verify = Some (\<lambda>t w. (Inr \<lparr>c_Subject = ''a'', c_Audience = [], c_Scope = ''s'', c_TxnID = [], c_ReqWL = ''a'',
       c_ReqCtx = Map.empty, c_TxnCtx = Map.empty, c_Expiry = 0, c_IssuedAt = 0, c_Compact = []\<rparr>, w)),
     s_AuthorizeMint = Some (\<lambda>cr w. Inr cr), s_InteractivePolicy = [], s_stamp = (\<lambda>_. []), s_duration = (\<lambda>_. [])\<rparr>"


end
