(* ===== verification/MemoryGateway.thy ===== *)
theory MemoryGateway
  imports MemoryWorker Broker
begin

section \<open>The memory gateway\<close>

text \<open>
  \<open>pkg/memory/mcp/gateway.go\<close> and \<open>auth.go\<close> with what they call: the access policy of
  \<open>pkg/memory/policy\<close>, the limits of \<open>pkg/memory/quota\<close> and the records of \<open>pkg/memory/audit\<close>.

  The state of a gateway is the world its environment works on, the call times the rate limit
  keeps for each caller, the audit log, and the requests it has sent to workers.  The verification of a
  token, the store of retrievers, the workers and the clock are functions over the world.  The JSON
  codec is a record of functions: \<open>json.Unmarshal\<close> into a string, an \<open>int32\<close>, a \<open>bool\<close> or a
  map, and \<open>json.Marshal\<close> of each answer, whose error the code drops.  A tool answers with its text or
  an RPC error.
\<close>

subsection \<open>Access policy\<close>

type_synonym MemoryOperation = string

definition MemoryOpRead :: MemoryOperation where "MemoryOpRead = ''read''"
definition MemoryOpWrite :: MemoryOperation where "MemoryOpWrite = ''write''"
definition MemoryOpDelete :: MemoryOperation where "MemoryOpDelete = ''delete''"

record MemoryGrant =
  mg_Identity :: string
  mg_Operations :: "MemoryOperation list"
  mg_Namespaces :: "string list"

definition matchesIdentity :: "string \<Rightarrow> string \<Rightarrow> bool" where
  "matchesIdentity pat caller =
     (if pat = [] then False
      else if HasSuffix pat ''/'' then HasPrefix caller pat
      else pat = caller)"

fun containsOp :: "MemoryOperation list \<Rightarrow> MemoryOperation \<Rightarrow> bool" where
  "containsOp [] op = False"
| "containsOp (o1 # ops) op = (if o1 = op then True else containsOp ops op)"

fun matchesNamespace :: "string list \<Rightarrow> string \<Rightarrow> bool" where
  "matchesNamespace [] ns = False"
| "matchesNamespace (n # rest) ns = (if n = ''*'' \<or> n = ns then True else matchesNamespace rest ns)"

fun Allow :: "string \<Rightarrow> MemoryOperation \<Rightarrow> string \<Rightarrow> MemoryGrant list \<Rightarrow> mem_error option" where
  "Allow caller op ns [] = Some (PermissionDenied (''no grant matches identity='' @ caller @ '' op='' @ op @ '' namespace='' @ ns))"
| "Allow caller op ns (g # gs) =
     (if \<not> matchesIdentity (mg_Identity g) caller then Allow caller op ns gs
      else if \<not> containsOp (mg_Operations g) op then Allow caller op ns gs
      else if \<not> matchesNamespace (mg_Namespaces g) ns then Allow caller op ns gs
      else None)"

subsection \<open>Limits\<close>

record QuotaSpec =
  q_MaxTopK :: int32
  q_RequestsPerMinute :: int32
  q_MaxWriteBytes :: int64

definition ClampTopK :: "int32 \<Rightarrow> QuotaSpec \<Rightarrow> mem_error + int32" where
  "ClampTopK requested q =
     (if sint (q_MaxTopK q) \<le> 0 then Inr requested
      else if sint requested \<le> sint (q_MaxTopK q) then Inr requested
      else Inl (QuotaExceeded (''topK '' @ show_int (sint requested) @ '' exceeds quota ceiling '' @ show_int (sint (q_MaxTopK q)))))"

definition CheckWriteSize :: "int64 \<Rightarrow> QuotaSpec \<Rightarrow> mem_error option" where
  "CheckWriteSize payloadBytes q =
     (if sint (q_MaxWriteBytes q) \<le> 0 then None
      else if sint payloadBytes \<le> sint (q_MaxWriteBytes q) then None
      else Some (QuotaExceeded (''write payload '' @ show_int (sint payloadBytes) @ '' bytes exceeds quota limit ''
        @ show_int (sint (q_MaxWriteBytes q)))))"

text \<open>The call times of each caller; the window is a minute.\<close>

type_synonym Enforcer = "string \<rightharpoonup> time list"

definition windowSz :: int where "windowSz = 60 * 10 ^ 9"

definition CheckRate :: "string \<Rightarrow> QuotaSpec \<Rightarrow> time \<Rightarrow> Enforcer \<Rightarrow> mem_error option \<times> Enforcer" where
  "CheckRate caller q now e =
     (let cutoff = now - windowSz;
          calls = (case e caller of None \<Rightarrow> [] | Some calls \<Rightarrow> calls);
          live = filter (\<lambda>t. cutoff < t) calls
      in if sint (q_RequestsPerMinute q) \<le> 0 then (None, e)
         else if sint (q_RequestsPerMinute q) \<le> sint (of_nat (length live) :: int32)
         then (Some (QuotaExceeded (''rate limit '' @ show_int (sint (q_RequestsPerMinute q)) @ '' req/min exceeded for caller '' @ caller)),
               e(caller \<mapsto> live))
         else (None, e(caller \<mapsto> live @ [now])))"

subsection \<open>Retrievers, callers and audit records\<close>

record MemoryRetrieverSpec =
  mrs_Stores :: "string list"
  mrs_ModelProviderRef :: string
  mrs_TopK :: int32
  mrs_Namespaces :: "string list"
  mrs_Tenant :: string
  mrs_Policy :: "MemoryGrant list"
  mrs_Quota :: QuotaSpec
  mrs_MutationsTraT :: bool
  mrs_DefaultMergePolicy :: string
  mrs_AllowedMergePolicies :: "string list"

record RetrieverInfo =
  rv_Spec :: MemoryRetrieverSpec
  rv_WorkerURL :: string

record CallerIdentity =
  id_SPIFFEID :: string
  id_Tenant :: string
  id_TrustDomain :: string

definition DecisionAllow :: string where "DecisionAllow = ''allow''"
definition DecisionDeny :: string where "DecisionDeny = ''deny''"

record AuditRecord =
  au_CallerSPIFFEID :: string
  au_Tenant :: string
  au_RetrieverRef :: string
  au_Op :: string
  au_Namespace :: string
  au_FilterSummary :: string
  au_ResultCount :: nat
  au_Decision :: string
  au_ErrorKind :: string
  au_LatencyMs :: int
  au_Timestamp :: time

definition zero_AuditRecord :: AuditRecord where
  "zero_AuditRecord = \<lparr>au_CallerSPIFFEID = [], au_Tenant = [], au_RetrieverRef = [], au_Op = [], au_Namespace = [],
     au_FilterSummary = [], au_ResultCount = 0, au_Decision = [], au_ErrorKind = [], au_LatencyMs = 0, au_Timestamp = zero_time\<rparr>"

record RPCError =
  rpc_Code :: int
  rpc_Message :: string

definition CodeMethodNotFound :: int where "CodeMethodNotFound = -32601"
definition CodeInvalidParams :: int where "CodeInvalidParams = -32602"
definition CodeUnauthenticated :: int where "CodeUnauthenticated = -32000"
definition CodePermissionDenied :: int where "CodePermissionDenied = -32001"
definition CodeQuotaExceeded :: int where "CodeQuotaExceeded = -32002"
definition CodeNotFound :: int where "CodeNotFound = -32003"
definition CodeNotSupported :: int where "CodeNotSupported = -32004"
definition CodeBackendError :: int where "CodeBackendError = -32005"

definition memKindToRPCCode :: "Kind \<Rightarrow> int" where
  "memKindToRPCCode k =
     (if k = KindUnauthenticated then CodeUnauthenticated
      else if k = KindPermissionDenied then CodePermissionDenied
      else if k = KindQuotaExceeded then CodeQuotaExceeded
      else if k = KindNotFound then CodeNotFound
      else if k = KindNotSupported then CodeNotSupported
      else if k = KindInvalid then CodeInvalidParams
      else CodeBackendError)"

subsection \<open>Authentication\<close>

text \<open>
  A request of the HTTP library: the Authorization header and the query parameters.  A verified
  token carries a SPIFFE identity, of which the code reads the text, the path and the trust domain.
\<close>

record http_request =
  hr_Authorization :: string
  hr_Query :: "string \<Rightarrow> string"

record spiffe_id =
  sid_String :: string
  sid_Path :: string
  sid_TrustDomain :: string

record 'w AuthConfig =
  ac_ParseAndValidate :: "(string \<Rightarrow> string list \<Rightarrow> 'w \<Rightarrow> (string + spiffe_id) \<times> 'w) option"
  ac_ParseInsecure :: "string \<Rightarrow> string list \<Rightarrow> 'w \<Rightarrow> (string + spiffe_id) \<times> 'w"
  ac_Audience :: string
  ac_TrustDomain :: string
  ac_TrustDomainFromString :: "string \<Rightarrow> string + string"

definition tenantFromSPIFFEPath :: "string \<Rightarrow> string + string" where
  "tenantFromSPIFFEPath path =
     (let path = (if \<not> HasPrefix path ''/'' then ''/'' @ path else path)
      in case str_Index path ''/ns/'' of
           None \<Rightarrow> Inl (''path '' @ quoted path @ '' has no /ns/ segment'')
         | Some idx \<Rightarrow>
             (let rest = drop (idx + 4) path
              in if rest = [] then Inl (''path '' @ quoted path @ '': /ns/ segment is empty'')
                 else case str_Index rest ''/'' of None \<Rightarrow> Inr rest | Some i \<Rightarrow> Inr (take i rest)))"

definition trust_error :: "'w AuthConfig \<Rightarrow> spiffe_id \<Rightarrow> string option" where
  "trust_error cfg svid =
     (if ac_TrustDomain cfg = [] then None
      else case ac_TrustDomainFromString cfg (ac_TrustDomain cfg) of
        Inl e \<Rightarrow> Some (''server trust-domain config invalid: '' @ e)
      | Inr want \<Rightarrow> if sid_TrustDomain svid \<noteq> want
          then Some (''caller '' @ sid_String svid @ '' is not in trust domain '' @ want) else None)"

definition ExtractIdentity :: "'w AuthConfig \<Rightarrow> http_request \<Rightarrow> 'w \<Rightarrow> (string + CallerIdentity) \<times> 'w" where
  "ExtractIdentity cfg r w =
     (let raw = hr_Authorization r
      in if raw = [] then (Inl ''missing Authorization header'', w)
         else if \<not> HasPrefix raw ''Bearer '' then (Inl ''Authorization header must be Bearer <jwt>'', w)
         else
           let token = TrimPrefix raw ''Bearer '';
               auds = (if ac_Audience cfg \<noteq> [] then [ac_Audience cfg] else []);
               (svid, w) = (case ac_ParseAndValidate cfg of Some validate \<Rightarrow> validate token auds w | None \<Rightarrow> ac_ParseInsecure cfg token auds w)
           in case svid of
                Inl e \<Rightarrow> (Inl (''invalid JWT-SVID: '' @ e), w)
              | Inr svid \<Rightarrow> (case trust_error cfg svid of
                  Some e \<Rightarrow> (Inl e, w)
                | None \<Rightarrow> (case tenantFromSPIFFEPath (sid_Path svid) of
                    Inl e \<Rightarrow> (Inl (''cannot derive tenant from SPIFFE path '' @ quoted (sid_Path svid) @ '': '' @ e), w)
                  | Inr tenant \<Rightarrow> (Inr \<lparr>id_SPIFFEID = sid_String svid, id_Tenant = tenant, id_TrustDomain = sid_TrustDomain svid\<rparr>, w))))"

subsection \<open>The gateway\<close>

text \<open>The interface of a worker, as the gateway calls it.\<close>

record 'w RetrievalService =
  rs_Retrieve :: "RetrieveRequest \<Rightarrow> 'w \<Rightarrow> (mem_error + RetrieveResult) \<times> 'w"
  rs_Write :: "WriteRequest \<Rightarrow> 'w \<Rightarrow> (mem_error + WriteResult) \<times> 'w"
  rs_Get :: "GetRequest \<Rightarrow> 'w \<Rightarrow> (mem_error + Document) \<times> 'w"
  rs_Delete :: "DeleteRequest \<Rightarrow> 'w \<Rightarrow> (mem_error + unit) \<times> 'w"
  rs_ListNamespaces :: "ListNamespacesRequest \<Rightarrow> 'w \<Rightarrow> (mem_error + string list) \<times> 'w"
  rs_Summarize :: "SummarizeRequest \<Rightarrow> 'w \<Rightarrow> (mem_error + string) \<times> 'w"
  rs_BranchFS :: "BranchFSRequest \<Rightarrow> 'w \<Rightarrow> (mem_error + BranchInfo) \<times> 'w"
  rs_SnapshotFS :: "SnapshotFSRequest \<Rightarrow> 'w \<Rightarrow> (mem_error + SnapshotInfo) \<times> 'w"
  rs_ListBranches :: "ListBranchesRequest \<Rightarrow> 'w \<Rightarrow> (mem_error + BranchInfo list) \<times> 'w"
  rs_MergeFS :: "MergeFSRequest \<Rightarrow> 'w \<Rightarrow> (mem_error + MergeResult) \<times> 'w"

text \<open>The requests the gateway sends.\<close>

datatype worker_request =
  RetrieveReq RetrieveRequest
| WriteReq WriteRequest
| GetReq GetRequest
| DeleteReq DeleteRequest
| ListNamespacesReq ListNamespacesRequest
| SummarizeReq SummarizeRequest
| MergeFSReq MergeFSRequest

type_synonym tool_args = "string \<rightharpoonup> bytes"

record gateway_codec =
  jc_args :: "bytes \<Rightarrow> string + tool_args"
  jc_string :: "bytes \<Rightarrow> string option"
  jc_int32 :: "bytes \<Rightarrow> int32 option"
  jc_bool :: "bytes \<Rightarrow> bool"
  jc_map :: "bytes \<Rightarrow> (string \<rightharpoonup> string) option"
  je_retrieved :: "RetrieveResult \<Rightarrow> string"
  je_written :: "WriteResult \<Rightarrow> string"
  je_strings :: "string list \<Rightarrow> string"
  je_document :: "Document \<Rightarrow> string"
  je_summary :: "string \<Rightarrow> string"
  je_merged :: "MergeResult \<Rightarrow> string"
  je_namespace :: "string list \<Rightarrow> string \<Rightarrow> string"
  je_retriever :: "string \<Rightarrow> MemoryRetrieverSpec \<Rightarrow> string"
  je_episodes :: "string \<Rightarrow> string \<Rightarrow> string list \<Rightarrow> string"

text \<open>
  \<open>gw_Audits\<close> says whether an audit log is configured; \<open>gw_range\<close> is the order in which the loop
  over a metadata map visits its keys.
\<close>

record 'w Gateway =
  gw_Auth :: "'w AuthConfig"
  gw_Retrievers :: "string \<Rightarrow> 'w \<Rightarrow> (mem_error + RetrieverInfo) \<times> 'w"
  gw_WorkerFactory :: "string \<Rightarrow> 'w RetrievalService"
  gw_Audits :: bool
  gw_TratVerifier :: "(string \<Rightarrow> 'w \<Rightarrow> (string + Claims) \<times> 'w) option"
  gw_Now :: "'w \<Rightarrow> time \<times> 'w"
  gw_json :: gateway_codec
  gw_range :: "(string \<rightharpoonup> string) \<Rightarrow> string list"

record 'w gateway_state =
  gs_env :: 'w
  gs_windows :: Enforcer
  gs_audit :: "AuditRecord list"
  gs_sent :: "(string \<times> worker_request) list"

type_synonym ('a, 'w) handler = "'w gateway_state \<Rightarrow> (RPCError + 'a) \<times> 'w gateway_state"

definition ask :: "('w \<Rightarrow> 'a \<times> 'w) \<Rightarrow> 'w gateway_state \<Rightarrow> 'a \<times> 'w gateway_state" where
  "ask f s = (let (a, w) = f (gs_env s) in (a, s\<lparr>gs_env := w\<rparr>))"

text \<open>A request to the worker at a URL.\<close>

definition send :: "string \<Rightarrow> worker_request \<Rightarrow> ('w \<Rightarrow> 'a \<times> 'w) \<Rightarrow> 'w gateway_state \<Rightarrow> 'a \<times> 'w gateway_state" where
  "send url rq f s = (let (a, w) = f (gs_env s) in (a, s\<lparr>gs_env := w, gs_sent := gs_sent s @ [(url, rq)]\<rparr>))"

definition milliseconds :: "duration \<Rightarrow> int" where
  "milliseconds d = (if 0 \<le> sint d then sint d div 10 ^ 6 else - ((- sint d) div 10 ^ 6))"

definition msElapsed :: "'w Gateway \<Rightarrow> time \<Rightarrow> 'w gateway_state \<Rightarrow> int \<times> 'w gateway_state" where
  "msElapsed g start s = (let (now, s) = ask (gw_Now g) s in (milliseconds (time_Sub now start), s))"

definition audit_log :: "AuditRecord \<Rightarrow> 'w gateway_state \<Rightarrow> 'w gateway_state" where
  "audit_log rec s = s\<lparr>gs_audit := gs_audit s @ [rec]\<rparr>"

definition logAllow ::
  "'w Gateway \<Rightarrow> CallerIdentity \<Rightarrow> string \<Rightarrow> string \<Rightarrow> string \<Rightarrow> string \<Rightarrow> nat \<Rightarrow> time \<Rightarrow> 'w gateway_state \<Rightarrow> 'w gateway_state" where
  "logAllow g caller op ref ns filterSummary count start s =
     (if \<not> gw_Audits g then s
      else let (ms, s) = msElapsed g start s; (now, s) = ask (gw_Now g) s
           in audit_log \<lparr>au_CallerSPIFFEID = id_SPIFFEID caller, au_Tenant = id_Tenant caller, au_RetrieverRef = ref, au_Op = op,
                au_Namespace = ns, au_FilterSummary = filterSummary, au_ResultCount = count, au_Decision = DecisionAllow,
                au_ErrorKind = [], au_LatencyMs = ms, au_Timestamp = now\<rparr> s)"

definition logDeny :: "'w Gateway \<Rightarrow> AuditRecord \<Rightarrow> 'w gateway_state \<Rightarrow> 'w gateway_state" where
  "logDeny g rec s =
     (if \<not> gw_Audits g then s
      else let rec = rec\<lparr>au_Decision := DecisionDeny\<rparr>
           in if au_Timestamp rec = zero_time then (let (now, s) = ask (gw_Now g) s in audit_log (rec\<lparr>au_Timestamp := now\<rparr>) s)
              else audit_log rec s)"

definition okResult :: "'a \<Rightarrow> RPCError + 'a" where
  "okResult a = Inr a"

definition errResult :: "int \<Rightarrow> string \<Rightarrow> RPCError + 'a" where
  "errResult code msg = Inl \<lparr>rpc_Code = code, rpc_Message = msg\<rparr>"

definition deny ::
  "'w Gateway \<Rightarrow> CallerIdentity \<Rightarrow> string \<Rightarrow> string \<Rightarrow> string \<Rightarrow> time \<Rightarrow> int \<Rightarrow> string \<Rightarrow> Kind \<Rightarrow> ('a, 'w) handler" where
  "deny g caller op ref ns start code msg k s =
     (let (ms, s) = msElapsed g start s; (now, s) = ask (gw_Now g) s;
          s = logDeny g \<lparr>au_CallerSPIFFEID = id_SPIFFEID caller, au_Tenant = id_Tenant caller, au_RetrieverRef = ref, au_Op = op,
                au_Namespace = ns, au_FilterSummary = [], au_ResultCount = 0, au_Decision = DecisionDeny, au_ErrorKind = k,
                au_LatencyMs = ms, au_Timestamp = now\<rparr> s
      in (errResult code msg, s))"

definition denyWorkerError ::
  "'w Gateway \<Rightarrow> CallerIdentity \<Rightarrow> string \<Rightarrow> string \<Rightarrow> string \<Rightarrow> time \<Rightarrow> mem_error \<Rightarrow> ('a, 'w) handler" where
  "denyWorkerError g caller op ref ns start e =
     deny g caller op ref ns start (memKindToRPCCode (KindOf e)) (mem_Error e) (KindOf e)"

definition jsonStr :: "'w Gateway \<Rightarrow> bytes option \<Rightarrow> string" where
  "jsonStr g raw = (case raw of None \<Rightarrow> [] | Some b \<Rightarrow> (case jc_string (gw_json g) b of None \<Rightarrow> [] | Some s \<Rightarrow> s))"

definition jsonMetadata :: "'w Gateway \<Rightarrow> bytes option \<Rightarrow> string \<rightharpoonup> string" where
  "jsonMetadata g raw = (case raw of None \<Rightarrow> Map.empty | Some b \<Rightarrow> (case jc_map (gw_json g) b of None \<Rightarrow> Map.empty | Some m \<Rightarrow> m))"

fun strings_Join :: "string list \<Rightarrow> string \<Rightarrow> string" where
  "strings_Join [] sep = []"
| "strings_Join [a] sep = a"
| "strings_Join (a # b # rest) sep = a @ sep @ strings_Join (b # rest) sep"

definition filterSummaryFromMeta :: "'w Gateway \<Rightarrow> (string \<rightharpoonup> string) \<Rightarrow> string" where
  "filterSummaryFromMeta g m =
     (if m = Map.empty then [] else ''metadata_keys=['' @ strings_Join (gw_range g m) '','' @ '']'')"

subsection \<open>Tools\<close>

definition requested_topK :: "'w Gateway \<Rightarrow> MemoryRetrieverSpec \<Rightarrow> tool_args \<Rightarrow> int32" where
  "requested_topK g spec args = (case args ''topK'' of
     None \<Rightarrow> mrs_TopK spec
   | Some raw \<Rightarrow> (case jc_int32 (gw_json g) raw of
       None \<Rightarrow> mrs_TopK spec
     | Some k \<Rightarrow> if 0 < sint k then k else mrs_TopK spec))"

definition doRetrieve ::
  "'w Gateway \<Rightarrow> CallerIdentity \<Rightarrow> RetrieverInfo \<Rightarrow> RequestIdentity \<Rightarrow> tool_args \<Rightarrow> time \<Rightarrow> (string, 'w) handler" where
  "doRetrieve g caller info i args start s =
     (let op = ''retrieve_memory''; ref = ri_RetrieverRef i; ns = ri_Namespace i; query = jsonStr g (args ''query'')
      in case Allow (id_SPIFFEID caller) MemoryOpRead ns (mrs_Policy (rv_Spec info)) of
           Some e \<Rightarrow> deny g caller op ref ns start CodePermissionDenied (mem_Error e) KindPermissionDenied s
         | None \<Rightarrow>
             if query = [] then deny g caller op ref ns start CodeInvalidParams ''query is required'' KindInvalid s
             else case ClampTopK (requested_topK g (rv_Spec info) args) (mrs_Quota (rv_Spec info)) of
               Inl e \<Rightarrow> deny g caller op ref ns start CodeQuotaExceeded (mem_Error e) KindQuotaExceeded s
             | Inr topK \<Rightarrow>
                 (let f = \<lparr>f_Namespace = ns, f_Tenant = id_Tenant caller, f_Metadata = jsonMetadata g (args ''filters'')\<rparr>;
                      req = \<lparr>rr_Identity = i, rr_Query = query, rr_TopK = topK, rr_Filters = f, rr_StoreRef = []\<rparr>;
                      (resp, s) = send (rv_WorkerURL info) (RetrieveReq req) (rs_Retrieve (gw_WorkerFactory g (rv_WorkerURL info)) req) s
                  in case resp of
                       Inl e \<Rightarrow> denyWorkerError g caller op ref ns start e s
                     | Inr result \<Rightarrow> (okResult (je_retrieved (gw_json g) result),
                         logAllow g caller op ref ns (filterSummaryFromMeta g (f_Metadata f)) (length (fst result)) start s)))"

definition requireTrat ::
  "'w Gateway \<Rightarrow> CallerIdentity \<Rightarrow> string \<Rightarrow> string \<Rightarrow> string \<Rightarrow> bool \<Rightarrow> tool_args \<Rightarrow> time \<Rightarrow> (string, 'w) handler" where
  "requireTrat g caller op ref ns required args start s =
     (if \<not> required then (Inr [], s)
      else case gw_TratVerifier g of
        None \<Rightarrow> deny g caller op ref ns start CodePermissionDenied
          ''retriever requires mutation TraT but no TratVerifier is configured'' KindPermissionDenied s
      | Some verify \<Rightarrow>
          (let compact = jsonStr g (args ''trat'')
           in if compact = [] then deny g caller op ref ns start CodePermissionDenied
                  ''mutation requires a TraT (trat field missing or empty)'' KindPermissionDenied s
              else let (r, s) = ask (verify compact) s
                   in case r of
                        Inl e \<Rightarrow> deny g caller op ref ns start CodePermissionDenied (''invalid TraT: '' @ e) KindPermissionDenied s
                      | Inr claims \<Rightarrow>
                          if c_Subject claims \<noteq> id_SPIFFEID caller then
                            deny g caller op ref ns start CodePermissionDenied
                              (''TraT subject '' @ quoted (c_Subject claims) @ '' does not match caller '' @ quoted (id_SPIFFEID caller))
                              KindPermissionDenied s
                          else (Inr compact, s)))"

definition new_doc :: "'w Gateway \<Rightarrow> CallerIdentity \<Rightarrow> string \<Rightarrow> bytes \<Rightarrow> tool_args \<Rightarrow> Document" where
  "new_doc g caller ns payload args = \<lparr>doc_ID = jsonStr g (args ''id''), doc_Namespace = ns, doc_Tenant = id_Tenant caller,
     doc_Content = payload, doc_Path = [], doc_Metadata = jsonMetadata g (args ''metadata''), doc_Embedding = [], doc_Version = [],
     doc_CreatedAt = zero_time, doc_UpdatedAt = zero_time\<rparr>"

definition doWrite ::
  "'w Gateway \<Rightarrow> CallerIdentity \<Rightarrow> RetrieverInfo \<Rightarrow> RequestIdentity \<Rightarrow> tool_args \<Rightarrow> time \<Rightarrow> (string, 'w) handler" where
  "doWrite g caller info i args start s =
     (let op = ''write_memory''; ref = ri_RetrieverRef i; ns = ri_Namespace i; content = jsonStr g (args ''content'')
      in case Allow (id_SPIFFEID caller) MemoryOpWrite ns (mrs_Policy (rv_Spec info)) of
           Some e \<Rightarrow> deny g caller op ref ns start CodePermissionDenied (mem_Error e) KindPermissionDenied s
         | None \<Rightarrow> (case requireTrat g caller op ref ns (mrs_MutationsTraT (rv_Spec info)) args start s of
             (Inl e, s) \<Rightarrow> (Inl e, s)
           | (Inr trat, s) \<Rightarrow>
               if content = [] then deny g caller op ref ns start CodeInvalidParams ''content is required'' KindInvalid s
               else case CheckWriteSize (of_nat (length content)) (mrs_Quota (rv_Spec info)) of
                 Some e \<Rightarrow> deny g caller op ref ns start CodeQuotaExceeded (mem_Error e) KindQuotaExceeded s
               | None \<Rightarrow>
                   (let req = \<lparr>wq_Identity = i, wq_Document = new_doc g caller ns content args, wq_TraT = trat\<rparr>;
                        (resp, s) = send (rv_WorkerURL info) (WriteReq req) (rs_Write (gw_WorkerFactory g (rv_WorkerURL info)) req) s
                    in case resp of
                         Inl e \<Rightarrow> denyWorkerError g caller op ref ns start e s
                       | Inr result \<Rightarrow> (okResult (je_written (gw_json g) result), logAllow g caller op ref ns [] 1 start s))))"

definition doListNamespaces ::
  "'w Gateway \<Rightarrow> CallerIdentity \<Rightarrow> RetrieverInfo \<Rightarrow> RequestIdentity \<Rightarrow> time \<Rightarrow> (string, 'w) handler" where
  "doListNamespaces g caller info i start s =
     (let op = ''list_memory_namespaces''; ref = ri_RetrieverRef i
      in case Allow (id_SPIFFEID caller) MemoryOpRead ''*'' (mrs_Policy (rv_Spec info)) of
           Some e \<Rightarrow> deny g caller op ref ''*'' start CodePermissionDenied (mem_Error e) KindPermissionDenied s
         | None \<Rightarrow>
             (let req = \<lparr>lq_Identity = i\<rparr>;
                  (resp, s) = send (rv_WorkerURL info) (ListNamespacesReq req) (rs_ListNamespaces (gw_WorkerFactory g (rv_WorkerURL info)) req) s
              in case resp of
                   Inl e \<Rightarrow> denyWorkerError g caller op ref ''*'' start e s
                 | Inr names \<Rightarrow> (okResult (je_strings (gw_json g) names), logAllow g caller op ref ''*'' [] (length names) start s)))"

definition doGet ::
  "'w Gateway \<Rightarrow> CallerIdentity \<Rightarrow> RetrieverInfo \<Rightarrow> RequestIdentity \<Rightarrow> tool_args \<Rightarrow> time \<Rightarrow> (string, 'w) handler" where
  "doGet g caller info i args start s =
     (let op = ''get_memory''; ref = ri_RetrieverRef i; ns = ri_Namespace i; docID = jsonStr g (args ''id'')
      in case Allow (id_SPIFFEID caller) MemoryOpRead ns (mrs_Policy (rv_Spec info)) of
           Some e \<Rightarrow> deny g caller op ref ns start CodePermissionDenied (mem_Error e) KindPermissionDenied s
         | None \<Rightarrow>
             if docID = [] then deny g caller op ref ns start CodeInvalidParams ''id is required'' KindInvalid s
             else
               (let req = \<lparr>gq_Identity = i, gq_ID = docID\<rparr>;
                    (resp, s) = send (rv_WorkerURL info) (GetReq req) (rs_Get (gw_WorkerFactory g (rv_WorkerURL info)) req) s
                in case resp of
                     Inl e \<Rightarrow> denyWorkerError g caller op ref ns start e s
                   | Inr doc \<Rightarrow>
                       if doc_Tenant doc \<noteq> [] \<and> doc_Tenant doc \<noteq> id_Tenant caller then
                         deny g caller op ref ns start CodePermissionDenied ''document tenant mismatch'' KindPermissionDenied s
                       else (okResult (je_document (gw_json g) doc), logAllow g caller op ref ns (''id='' @ docID) 1 start s)))"

definition doDelete ::
  "'w Gateway \<Rightarrow> CallerIdentity \<Rightarrow> RetrieverInfo \<Rightarrow> RequestIdentity \<Rightarrow> tool_args \<Rightarrow> time \<Rightarrow> (string, 'w) handler" where
  "doDelete g caller info i args start s =
     (let op = ''delete_memory''; ref = ri_RetrieverRef i; ns = ri_Namespace i; docID = jsonStr g (args ''id'')
      in case Allow (id_SPIFFEID caller) MemoryOpDelete ns (mrs_Policy (rv_Spec info)) of
           Some e \<Rightarrow> deny g caller op ref ns start CodePermissionDenied (mem_Error e) KindPermissionDenied s
         | None \<Rightarrow> (case requireTrat g caller op ref ns (mrs_MutationsTraT (rv_Spec info)) args start s of
             (Inl e, s) \<Rightarrow> (Inl e, s)
           | (Inr trat, s) \<Rightarrow>
               if docID = [] then deny g caller op ref ns start CodeInvalidParams ''id is required'' KindInvalid s
               else
                 (let req = \<lparr>dq_Identity = i, dq_ID = docID, dq_TraT = trat\<rparr>;
                      (resp, s) = send (rv_WorkerURL info) (DeleteReq req) (rs_Delete (gw_WorkerFactory g (rv_WorkerURL info)) req) s
                  in case resp of
                       Inl e \<Rightarrow> denyWorkerError g caller op ref ns start e s
                     | Inr _ \<Rightarrow> (okResult (''{'' @ quoted ''deleted'' @ '':true}''),
                         logAllow g caller op ref ns (''id='' @ docID) 0 start s))))"

definition doSummarize ::
  "'w Gateway \<Rightarrow> CallerIdentity \<Rightarrow> RetrieverInfo \<Rightarrow> RequestIdentity \<Rightarrow> tool_args \<Rightarrow> time \<Rightarrow> (string, 'w) handler" where
  "doSummarize g caller info i args start s =
     (let op = ''summarize_memory''; ref = ri_RetrieverRef i; ns = ri_Namespace i; query = jsonStr g (args ''query'')
      in case Allow (id_SPIFFEID caller) MemoryOpRead ns (mrs_Policy (rv_Spec info)) of
           Some e \<Rightarrow> deny g caller op ref ns start CodePermissionDenied (mem_Error e) KindPermissionDenied s
         | None \<Rightarrow>
             if query = [] then deny g caller op ref ns start CodeInvalidParams ''query is required'' KindInvalid s
             else
               (let req = \<lparr>sq_Identity = i, sq_Query = query\<rparr>;
                    (resp, s) = send (rv_WorkerURL info) (SummarizeReq req) (rs_Summarize (gw_WorkerFactory g (rv_WorkerURL info)) req) s
                in case resp of
                     Inl e \<Rightarrow> denyWorkerError g caller op ref ns start e s
                   | Inr summary \<Rightarrow> (okResult (je_summary (gw_json g) summary), logAllow g caller op ref ns [] 1 start s)))"

definition merge_policy :: "'w Gateway \<Rightarrow> MemoryRetrieverSpec \<Rightarrow> tool_args \<Rightarrow> string" where
  "merge_policy g spec args =
     (let onConflict = jsonStr g (args ''onConflict'')
      in if onConflict = [] \<and> mrs_DefaultMergePolicy spec \<noteq> [] then mrs_DefaultMergePolicy spec else onConflict)"

definition doMergeFS ::
  "'w Gateway \<Rightarrow> CallerIdentity \<Rightarrow> RetrieverInfo \<Rightarrow> RequestIdentity \<Rightarrow> tool_args \<Rightarrow> time \<Rightarrow> (string, 'w) handler" where
  "doMergeFS g caller info i args start s =
     (let op = ''merge_memory_fs''; ref = ri_RetrieverRef i; ns = ri_Namespace i; spec = rv_Spec info;
          src = jsonStr g (args ''srcBranch''); dst = jsonStr g (args ''dstBranch''); onConflict = merge_policy g spec args
      in case Allow (id_SPIFFEID caller) MemoryOpWrite ns (mrs_Policy spec) of
           Some e \<Rightarrow> deny g caller op ref ns start CodePermissionDenied (mem_Error e) KindPermissionDenied s
         | None \<Rightarrow>
             if src = [] then deny g caller op ref ns start CodeInvalidParams ''srcBranch is required'' KindInvalid s
             else if dst = [] then deny g caller op ref ns start CodeInvalidParams ''dstBranch is required'' KindInvalid s
             else if mrs_AllowedMergePolicies spec \<noteq> [] \<and> onConflict \<noteq> [] \<and> onConflict \<notin> set (mrs_AllowedMergePolicies spec) then
               deny g caller op ref ns start CodePermissionDenied
                 (''onConflict='' @ quoted onConflict @ '' not in retriever AllowedMergePolicies'') KindPermissionDenied s
             else
               (let dryRun = (case args ''dryRun'' of None \<Rightarrow> False | Some raw \<Rightarrow> jc_bool (gw_json g) raw);
                    req = \<lparr>mr_Identity = i, mr_SrcBranch = src, mr_DstBranch = dst, mr_OnConflict = onConflict, mr_DryRun = dryRun\<rparr>;
                    (resp, s) = send (rv_WorkerURL info) (MergeFSReq req) (rs_MergeFS (gw_WorkerFactory g (rv_WorkerURL info)) req) s
                in case resp of
                     Inl e \<Rightarrow> denyWorkerError g caller op ref ns start e s
                   | Inr result \<Rightarrow> (okResult (je_merged (gw_json g) result),
                       logAllow g caller op ref ns (''src='' @ src @ '',dst='' @ dst) 1 start s)))"

definition route_tool ::
  "'w Gateway \<Rightarrow> CallerIdentity \<Rightarrow> RetrieverInfo \<Rightarrow> RequestIdentity \<Rightarrow> string \<Rightarrow> tool_args \<Rightarrow> time \<Rightarrow> (string, 'w) handler" where
  "route_tool g caller info i toolName args start s =
     (if toolName = ''retrieve_memory'' then doRetrieve g caller info i args start s
      else if toolName = ''write_memory'' then doWrite g caller info i args start s
      else if toolName = ''list_memory_namespaces'' then doListNamespaces g caller info i start s
      else if toolName = ''get_memory'' then doGet g caller info i args start s
      else if toolName = ''delete_memory'' then doDelete g caller info i args start s
      else if toolName = ''summarize_memory'' then doSummarize g caller info i args start s
      else if toolName = ''merge_memory_fs'' then doMergeFS g caller info i args start s
      else (errResult CodeMethodNotFound (''unknown tool: '' @ toolName), s))"

definition rate_gate :: "'w Gateway \<Rightarrow> string \<Rightarrow> QuotaSpec \<Rightarrow> 'w gateway_state \<Rightarrow> mem_error option \<times> 'w gateway_state" where
  "rate_gate g caller q s =
     (if sint (q_RequestsPerMinute q) \<le> 0 then (None, s)
      else let (now, s) = ask (gw_Now g) s; (e, windows) = CheckRate caller q now (gs_windows s)
           in (e, s\<lparr>gs_windows := windows\<rparr>))"

text \<open>The identity a request carries to the worker.\<close>

definition caller_on :: "CallerIdentity \<Rightarrow> string \<Rightarrow> string \<Rightarrow> RequestIdentity" where
  "caller_on caller ns ref = \<lparr>ri_Tenant = id_Tenant caller, ri_Namespace = ns, ri_CallerSPIFFEID = id_SPIFFEID caller, ri_RetrieverRef = ref\<rparr>"

definition HandleToolCall :: "'w Gateway \<Rightarrow> http_request \<Rightarrow> string \<Rightarrow> bytes \<Rightarrow> (string, 'w) handler" where
  "HandleToolCall g r toolName rawArgs s =
     (let (start, s) = ask (gw_Now g) s; (who, s) = ask (ExtractIdentity (gw_Auth g) r) s
      in case who of
           Inl e \<Rightarrow>
             (let (ms, s) = msElapsed g start s
              in (errResult CodeUnauthenticated (''unauthenticated: '' @ e),
                  logDeny g (zero_AuditRecord\<lparr>au_Op := toolName, au_Decision := DecisionDeny, au_ErrorKind := KindUnauthenticated, au_LatencyMs := ms\<rparr>) s))
         | Inr caller \<Rightarrow> (case jc_args (gw_json g) rawArgs of
             Inl e \<Rightarrow> deny g caller toolName [] [] start CodeInvalidParams (''decode arguments: '' @ e) KindInvalid s
           | Inr args \<Rightarrow>
               (let ref = jsonStr g (args ''retrieverRef''); ns = jsonStr g (args ''namespace''); (found, s) = ask (gw_Retrievers g ref) s
                in case found of
                     Inl e \<Rightarrow> deny g caller toolName ref ns start (memKindToRPCCode (KindOf e)) (''resolve retriever: '' @ mem_Error e) (KindOf e) s
                   | Inr info \<Rightarrow>
                       if mrs_Tenant (rv_Spec info) \<noteq> [] \<and> mrs_Tenant (rv_Spec info) \<noteq> id_Tenant caller then
                         deny g caller toolName ref ns start CodePermissionDenied
                           (''retriever tenant '' @ quoted (mrs_Tenant (rv_Spec info)) @ '' does not match caller tenant '' @ quoted (id_Tenant caller))
                           KindPermissionDenied s
                       else (case rate_gate g (id_SPIFFEID caller) (mrs_Quota (rv_Spec info)) s of
                           (Some e, s) \<Rightarrow> deny g caller toolName ref ns start CodeQuotaExceeded (mem_Error e) KindQuotaExceeded s
                         | (None, s) \<Rightarrow> route_tool g caller info (caller_on caller ns ref) toolName args start s))))"

subsection \<open>Resources\<close>

record ResourceContent =
  rc_URI :: string
  rc_MIMEType :: string
  rc_Text :: string

definition json_content :: "string \<Rightarrow> string \<Rightarrow> ResourceContent" where
  "json_content uri text = \<lparr>rc_URI = uri, rc_MIMEType = ''application/json'', rc_Text = text\<rparr>"

text \<open>A denied read of a document leaves a record with the latency and no timestamp of its own.\<close>

definition deny_document ::
  "'w Gateway \<Rightarrow> CallerIdentity \<Rightarrow> string \<Rightarrow> string \<Rightarrow> string \<Rightarrow> time \<Rightarrow> Kind \<Rightarrow> int \<Rightarrow> string \<Rightarrow> ('a, 'w) handler" where
  "deny_document g caller docID ref ns start k code msg s =
     (let (ms, s) = msElapsed g start s
      in (errResult code msg,
          logDeny g (zero_AuditRecord\<lparr>au_CallerSPIFFEID := id_SPIFFEID caller, au_Tenant := id_Tenant caller, au_RetrieverRef := ref,
            au_Namespace := ns, au_Op := ''resource:documents/'' @ docID, au_Decision := DecisionDeny, au_ErrorKind := k, au_LatencyMs := ms\<rparr>) s))"

definition readDocument ::
  "'w Gateway \<Rightarrow> http_request \<Rightarrow> CallerIdentity \<Rightarrow> string \<Rightarrow> time \<Rightarrow> (ResourceContent, 'w) handler" where
  "readDocument g r caller docID start s =
     (let ref = hr_Query r ''retrieverRef''; ns = hr_Query r ''namespace''; (found, s) = ask (gw_Retrievers g ref) s
      in case found of
           Inl e \<Rightarrow> deny_document g caller docID [] [] start (KindOf e) CodeNotFound (''retriever not found: '' @ ref) s
         | Inr info \<Rightarrow> (case Allow (id_SPIFFEID caller) MemoryOpRead ns (mrs_Policy (rv_Spec info)) of
             Some e \<Rightarrow> deny_document g caller docID ref ns start KindPermissionDenied CodePermissionDenied (mem_Error e) s
           | None \<Rightarrow>
               (let req = \<lparr>gq_Identity = caller_on caller ns ref, gq_ID = docID\<rparr>;
                    (resp, s) = send (rv_WorkerURL info) (GetReq req) (rs_Get (gw_WorkerFactory g (rv_WorkerURL info)) req) s
                in case resp of
                     Inl e \<Rightarrow> deny_document g caller docID ref ns start (KindOf e) (memKindToRPCCode (KindOf e)) (mem_Error e) s
                   | Inr doc \<Rightarrow>
                       if doc_Tenant doc \<noteq> [] \<and> doc_Tenant doc \<noteq> id_Tenant caller then
                         deny_document g caller docID ref ns start KindPermissionDenied CodePermissionDenied ''document tenant mismatch'' s
                       else (Inr (json_content (''memory://documents/'' @ docID) (je_document (gw_json g) doc)),
                             logAllow g caller (''resource:documents/'' @ docID) ref ns (''id='' @ docID) 1 start s))))"

definition readNamespace ::
  "'w Gateway \<Rightarrow> http_request \<Rightarrow> CallerIdentity \<Rightarrow> string \<Rightarrow> time \<Rightarrow> (ResourceContent, 'w) handler" where
  "readNamespace g r caller ns start s =
     (let ref = hr_Query r ''retrieverRef''; (found, s) = ask (gw_Retrievers g ref) s
      in case found of
           Inl e \<Rightarrow> (errResult CodeNotFound ''retriever not found'', s)
         | Inr info \<Rightarrow> (case Allow (id_SPIFFEID caller) MemoryOpRead ns (mrs_Policy (rv_Spec info)) of
             Some e \<Rightarrow> (errResult CodePermissionDenied (mem_Error e), s)
           | None \<Rightarrow>
               (let req = \<lparr>lq_Identity = caller_on caller ns ref\<rparr>;
                    (resp, s) = send (rv_WorkerURL info) (ListNamespacesReq req) (rs_ListNamespaces (gw_WorkerFactory g (rv_WorkerURL info)) req) s
                in case resp of
                     Inl e \<Rightarrow> (errResult (memKindToRPCCode (KindOf e)) (mem_Error e), s)
                   | Inr names \<Rightarrow> (Inr (json_content (''memory://namespaces/'' @ ns) (je_namespace (gw_json g) names ns)),
                       logAllow g caller (''resource:namespaces/'' @ ns) ref ns [] (length names) start s))))"

definition readRetriever :: "'w Gateway \<Rightarrow> CallerIdentity \<Rightarrow> string \<Rightarrow> (ResourceContent, 'w) handler" where
  "readRetriever g caller ref s =
     (let (found, s) = ask (gw_Retrievers g ref) s
      in case found of
           Inl e \<Rightarrow> (errResult CodeNotFound (''retriever not found: '' @ ref), s)
         | Inr info \<Rightarrow>
             if mrs_Tenant (rv_Spec info) \<noteq> [] \<and> mrs_Tenant (rv_Spec info) \<noteq> id_Tenant caller
             then (errResult CodePermissionDenied ''retriever not visible to caller'', s)
             else (Inr (json_content (''memory://retrievers/'' @ ref) (je_retriever (gw_json g) ref (rv_Spec info))), s))"

definition readEpisodesImpl ::
  "'w Gateway \<Rightarrow> CallerIdentity \<Rightarrow> string \<Rightarrow> string \<Rightarrow> time \<Rightarrow> (ResourceContent, 'w) handler" where
  "readEpisodesImpl g caller agentID ref start s =
     (let (found, s) = ask (gw_Retrievers g ref) s
      in case found of
           Inl e \<Rightarrow> (errResult CodeNotFound (''retriever not found: '' @ ref), s)
         | Inr info \<Rightarrow>
             if mrs_Tenant (rv_Spec info) \<noteq> [] \<and> mrs_Tenant (rv_Spec info) \<noteq> id_Tenant caller then
               (errResult CodePermissionDenied
                 (''retriever tenant '' @ quoted (mrs_Tenant (rv_Spec info)) @ '' does not match caller tenant '' @ quoted (id_Tenant caller)), s)
             else (case Allow (id_SPIFFEID caller) MemoryOpRead agentID (mrs_Policy (rv_Spec info)) of
                 Some e \<Rightarrow> (errResult CodePermissionDenied (mem_Error e), s)
               | None \<Rightarrow>
                   (let req = \<lparr>lq_Identity = caller_on caller agentID ref\<rparr>;
                        (resp, s) = send (rv_WorkerURL info) (ListNamespacesReq req) (rs_ListNamespaces (gw_WorkerFactory g (rv_WorkerURL info)) req) s
                    in case resp of
                         Inl e \<Rightarrow> (errResult (memKindToRPCCode (KindOf e)) (mem_Error e), s)
                       | Inr names \<Rightarrow> (Inr (json_content (''memory://episodes/'' @ agentID) (je_episodes (gw_json g) agentID (id_Tenant caller) names)),
                           logAllow g caller (''resource:episodes/'' @ agentID) ref agentID [] (length names) start s))))"

definition readEpisodes ::
  "'w Gateway \<Rightarrow> CallerIdentity \<Rightarrow> string \<Rightarrow> string \<Rightarrow> time \<Rightarrow> (ResourceContent, 'w) handler" where
  "readEpisodes g caller agentID ref start s =
     (if ref = [] then (errResult CodeInvalidParams
        ''retrieverRef is required for memory://episodes/{agentId} (pass as URI query param: ?retrieverRef=ns/name)'', s)
      else if agentID = [] then (errResult CodeInvalidParams ''agentId path segment is required'', s)
      else readEpisodesImpl g caller agentID ref start s)"

fun query_ref :: "string list \<Rightarrow> string" where
  "query_ref [] = []"
| "query_ref (pair # pairs) = (case str_Index pair ''='' of
     None \<Rightarrow> query_ref pairs
   | Some eq \<Rightarrow> if take eq pair = ''retrieverRef'' then drop (eq + 1) pair else query_ref pairs)"

definition parseEpisodesSegment :: "string \<Rightarrow> http_request \<Rightarrow> string \<times> string" where
  "parseEpisodesSegment raw r = (case str_Index raw ''?'' of
     Some q \<Rightarrow> (take q raw, query_ref (str_Split (CHR ''&'') (drop (q + 1) raw)))
   | None \<Rightarrow> (raw, hr_Query r ''retrieverRef''))"

definition parseResourceURI :: "string \<Rightarrow> (string \<times> string) option" where
  "parseResourceURI uri = (case str_Index uri ''://'' of
     None \<Rightarrow> None
   | Some idx \<Rightarrow> Some (take idx uri, drop (idx + 3) uri))"

definition route_resource ::
  "'w Gateway \<Rightarrow> http_request \<Rightarrow> CallerIdentity \<Rightarrow> string \<Rightarrow> time \<Rightarrow> (ResourceContent, 'w) handler" where
  "route_resource g r caller path start s =
     (if HasPrefix path ''documents/'' then readDocument g r caller (drop 10 path) start s
      else if HasPrefix path ''namespaces/'' then readNamespace g r caller (drop 11 path) start s
      else if HasPrefix path ''retrievers/'' then readRetriever g caller (drop 11 path) s
      else if HasPrefix path ''episodes/'' then
        (let (agentID, ref) = parseEpisodesSegment (drop 9 path) r in readEpisodes g caller agentID ref start s)
      else (errResult CodeNotFound (''unknown resource path: '' @ path), s))"

definition HandleResourceRead :: "'w Gateway \<Rightarrow> http_request \<Rightarrow> string \<Rightarrow> (ResourceContent, 'w) handler" where
  "HandleResourceRead g r uri s =
     (let (start, s) = ask (gw_Now g) s; (who, s) = ask (ExtractIdentity (gw_Auth g) r) s
      in case who of
           Inl e \<Rightarrow>
             (let (ms, s) = msElapsed g start s
              in (errResult CodeUnauthenticated (''unauthenticated: '' @ e),
                  logDeny g (zero_AuditRecord\<lparr>au_Op := ''resource_read:'' @ uri, au_Decision := DecisionDeny,
                    au_ErrorKind := KindUnauthenticated, au_LatencyMs := ms\<rparr>) s))
         | Inr caller \<Rightarrow> (case parseResourceURI uri of
             None \<Rightarrow> (errResult CodeInvalidParams (''invalid resource URI: '' @ uri), s)
           | Some (scheme, path) \<Rightarrow>
               if scheme \<noteq> ''memory'' then (errResult CodeInvalidParams (''invalid resource URI: '' @ uri), s)
               else route_resource g r caller path start s))"

end
