(* ===== verification/MemoryService.thy ===== *)
theory MemoryService
  imports MemoryGateway
begin

section \<open>The memory service\<close>

text \<open>
  What the gateway guarantees, and what it guarantees together with the worker and the AgentFS store behind it.

  \<open>authorized\<close> states what a forwarded request must satisfy.  The locale \<open>gateway_env\<close> is the contract between the
  gateway and its environment: a relation on worlds that the clock, the authentication, the store of retrievers and the
  verifier respect.  Its lemmas follow each tool through its guards, its request and its audit record, once for every
  such relation.  It is interpreted with the relation that always holds, for every gateway, which gives the
  authorization of requests, and used with the relation that keeps the files of a tenant, for a gateway in front of AgentFS.
\<close>

subsection \<open>What a request needs\<close>

definition granted :: "string \<Rightarrow> MemoryOperation \<Rightarrow> string \<Rightarrow> MemoryGrant list \<Rightarrow> bool" where
  "granted caller op ns grants \<longleftrightarrow> (\<exists>g \<in> set grants. mg_Identity g \<noteq> []
     \<and> (mg_Identity g = caller \<or> HasSuffix (mg_Identity g) ''/'' \<and> HasPrefix caller (mg_Identity g))
     \<and> op \<in> set (mg_Operations g) \<and> (''*'' \<in> set (mg_Namespaces g) \<or> ns \<in> set (mg_Namespaces g)))"

lemma containsOp_iff: "containsOp ops op \<longleftrightarrow> op \<in> set ops"
  by (induction ops) auto

lemma matchesNamespace_iff: "matchesNamespace ns n \<longleftrightarrow> ''*'' \<in> set ns \<or> n \<in> set ns"
  by (induction ns) auto

lemma matchesIdentity_iff:
  "matchesIdentity p c \<longleftrightarrow> p \<noteq> [] \<and> (p = c \<or> HasSuffix p ''/'' \<and> HasPrefix c p)"
  by (auto simp: matchesIdentity_def HasPrefix_def)

lemma Allow_None_iff: "Allow caller op ns grants = None \<longleftrightarrow> granted caller op ns grants"
  by (induction grants) (auto simp: granted_def containsOp_iff matchesNamespace_iff matchesIdentity_iff)

fun req_identity :: "worker_request \<Rightarrow> RequestIdentity" where
  "req_identity (RetrieveReq q) = rr_Identity q"
| "req_identity (WriteReq q) = wq_Identity q"
| "req_identity (GetReq q) = gq_Identity q"
| "req_identity (DeleteReq q) = dq_Identity q"
| "req_identity (ListNamespacesReq q) = lq_Identity q"
| "req_identity (SummarizeReq q) = sq_Identity q"
| "req_identity (MergeFSReq q) = mr_Identity q"

fun req_operation :: "worker_request \<Rightarrow> MemoryOperation" where
  "req_operation (WriteReq q) = MemoryOpWrite"
| "req_operation (MergeFSReq q) = MemoryOpWrite"
| "req_operation (DeleteReq q) = MemoryOpDelete"
| "req_operation _ = MemoryOpRead"

fun req_scope :: "worker_request \<Rightarrow> string" where
  "req_scope (ListNamespacesReq q) = ''*''"
| "req_scope q = ri_Namespace (req_identity q)"

text \<open>A transaction token that was verified and is bound to the caller.\<close>

definition token_ok :: "'w Gateway \<Rightarrow> CallerIdentity \<Rightarrow> string \<Rightarrow> bool" where
  "token_ok g caller trat \<longleftrightarrow> trat \<noteq> [] \<and> (\<exists>verify claims w w'. gw_TratVerifier g = Some verify
     \<and> verify trat w = (Inr claims, w') \<and> c_Subject claims = id_SPIFFEID caller)"

fun within_limits :: "'w Gateway \<Rightarrow> CallerIdentity \<Rightarrow> MemoryRetrieverSpec \<Rightarrow> worker_request \<Rightarrow> bool" where
  "within_limits g caller spec (RetrieveReq q) \<longleftrightarrow>
     (0 < sint (q_MaxTopK (mrs_Quota spec)) \<longrightarrow> sint (rr_TopK q) \<le> sint (q_MaxTopK (mrs_Quota spec)))
     \<and> f_Tenant (rr_Filters q) = id_Tenant caller \<and> f_Namespace (rr_Filters q) = ri_Namespace (rr_Identity q)"
| "within_limits g caller spec (WriteReq q) \<longleftrightarrow>
     (0 < sint (q_MaxWriteBytes (mrs_Quota spec)) \<longrightarrow>
        sint (of_nat (length (doc_Content (wq_Document q))) :: int64) \<le> sint (q_MaxWriteBytes (mrs_Quota spec)))
     \<and> doc_Tenant (wq_Document q) = id_Tenant caller \<and> doc_Namespace (wq_Document q) = ri_Namespace (wq_Identity q)
     \<and> (mrs_MutationsTraT spec \<longrightarrow> token_ok g caller (wq_TraT q))"
| "within_limits g caller spec (DeleteReq q) \<longleftrightarrow> (mrs_MutationsTraT spec \<longrightarrow> token_ok g caller (dq_TraT q))"
| "within_limits g caller spec (MergeFSReq q) \<longleftrightarrow>
     mrs_AllowedMergePolicies spec = [] \<or> mr_OnConflict q = [] \<or> mr_OnConflict q \<in> set (mrs_AllowedMergePolicies spec)"
| "within_limits g caller spec _ \<longleftrightarrow> True"

definition authorized :: "'w Gateway \<Rightarrow> CallerIdentity \<Rightarrow> RetrieverInfo \<Rightarrow> RequestIdentity \<Rightarrow> string \<times> worker_request \<Rightarrow> bool" where
  "authorized g caller info i m \<longleftrightarrow> fst m = rv_WorkerURL info \<and> req_identity (snd m) = i
     \<and> granted (id_SPIFFEID caller) (req_operation (snd m)) (req_scope (snd m)) (mrs_Policy (rv_Spec info))
     \<and> within_limits g caller (rv_Spec info) (snd m)"

definition memoryTools :: "string list" where
  "memoryTools = [''retrieve_memory'', ''write_memory'', ''list_memory_namespaces'', ''get_memory'', ''delete_memory'',
     ''summarize_memory'', ''merge_memory_fs'']"

subsection \<open>Runs of a handler\<close>

text \<open>The effect of a request on the world of the worker.\<close>

fun serve :: "'w RetrievalService \<Rightarrow> worker_request \<Rightarrow> 'w \<Rightarrow> 'w" where
  "serve rs (RetrieveReq q) w = snd (rs_Retrieve rs q w)"
| "serve rs (WriteReq q) w = snd (rs_Write rs q w)"
| "serve rs (GetReq q) w = snd (rs_Get rs q w)"
| "serve rs (DeleteReq q) w = snd (rs_Delete rs q w)"
| "serve rs (ListNamespacesReq q) w = snd (rs_ListNamespaces rs q w)"
| "serve rs (SummarizeReq q) w = snd (rs_Summarize rs q w)"
| "serve rs (MergeFSReq q) w = snd (rs_MergeFS rs q w)"

definition served :: "('w \<Rightarrow> 'w \<Rightarrow> bool) \<Rightarrow> 'w Gateway \<Rightarrow> (string \<times> worker_request \<Rightarrow> bool) \<Rightarrow> bool" where
  "served R g P \<longleftrightarrow> (\<forall>url rq w. P (url, rq) \<longrightarrow> R w (serve (gw_WorkerFactory g url) rq w))"

text \<open>
  A handler that was started in \<open>s0\<close> and has sent nothing yet, or one request that satisfies
  \<open>P\<close>, without an audit record; and a handler that has answered: it has left one audit record, which
  allows the call exactly when the answer is a result, and a result means that a request was sent.  \<open>R\<close>
  relates the world before to the world after.
\<close>

definition unsent :: "('w \<Rightarrow> 'w \<Rightarrow> bool) \<Rightarrow> 'w gateway_state \<Rightarrow> 'w gateway_state \<Rightarrow> bool" where
  "unsent R s0 s \<longleftrightarrow> gs_audit s = gs_audit s0 \<and> gs_sent s = gs_sent s0 \<and> gs_windows s = gs_windows s0 \<and> R (gs_env s0) (gs_env s)"

definition sent :: "('w \<Rightarrow> 'w \<Rightarrow> bool) \<Rightarrow> (string \<times> worker_request \<Rightarrow> bool) \<Rightarrow> 'w gateway_state \<Rightarrow> 'w gateway_state \<Rightarrow> bool" where
  "sent R P s0 s \<longleftrightarrow> gs_audit s = gs_audit s0 \<and> gs_windows s = gs_windows s0 \<and> R (gs_env s0) (gs_env s)
     \<and> (\<exists>m. gs_sent s = gs_sent s0 @ [m] \<and> P m)"

definition answered ::
  "('w \<Rightarrow> 'w \<Rightarrow> bool) \<Rightarrow> bool \<Rightarrow> (string \<times> worker_request \<Rightarrow> bool) \<Rightarrow> 'w gateway_state \<Rightarrow> (RPCError + 'a) \<times> 'w gateway_state \<Rightarrow> bool" where
  "answered R audits P s0 out \<longleftrightarrow>
     (gs_sent (snd out) = gs_sent s0 \<and> isl (fst out) \<or> (\<exists>m. gs_sent (snd out) = gs_sent s0 @ [m] \<and> P m))
     \<and> (if audits then \<exists>rec. gs_audit (snd out) = gs_audit s0 @ [rec] \<and> (au_Decision rec = DecisionAllow \<longleftrightarrow> \<not> isl (fst out))
        else gs_audit (snd out) = gs_audit s0)
     \<and> gs_windows (snd out) = gs_windows s0 \<and> R (gs_env s0) (gs_env (snd out))"

lemma decisions_differ: "DecisionDeny \<noteq> DecisionAllow"
  by (simp add: DecisionDeny_def DecisionAllow_def)

lemma ClampTopK_Inr: "ClampTopK k q = Inr k' \<Longrightarrow> 0 < sint (q_MaxTopK q) \<longrightarrow> sint k' \<le> sint (q_MaxTopK q)"
  by (auto simp: ClampTopK_def split: if_splits)

lemma CheckWriteSize_None: "CheckWriteSize n q = None \<Longrightarrow> 0 < sint (q_MaxWriteBytes q) \<longrightarrow> sint n \<le> sint (q_MaxWriteBytes q)"
  by (auto simp: CheckWriteSize_def split: if_splits)

lemma deny_not_Inr: "deny g caller op ref ns start code msg k s \<noteq> (Inr a, s')"
  by (simp add: deny_def Let_def errResult_def split: prod.split)

lemma authorized_intro:
  assumes "Allow (id_SPIFFEID caller) (req_operation rq) (req_scope rq) (mrs_Policy (rv_Spec info)) = None"
    and "req_identity rq = i" "within_limits g caller (rv_Spec info) rq"
  shows "authorized g caller info i (rv_WorkerURL info, rq)"
  using assms by (simp add: authorized_def Allow_None_iff)

text \<open>
  The limit on the rate: a call that is let through is recorded, and the calls of the last minute were
  fewer than the limit.
\<close>

definition windows_ok :: "Enforcer \<Rightarrow> bool" where
  "windows_ok e \<longleftrightarrow> (\<forall>c calls. e c = Some calls \<longrightarrow> length calls < 2 ^ 31)"

definition rate_ok :: "string \<Rightarrow> QuotaSpec \<Rightarrow> Enforcer \<Rightarrow> Enforcer \<Rightarrow> bool" where
  "rate_ok caller q e e' \<longleftrightarrow> (if sint (q_RequestsPerMinute q) \<le> 0 then e' = e
     else \<exists>now live. live = filter (\<lambda>t. now - windowSz < t) (case e caller of None \<Rightarrow> [] | Some calls \<Rightarrow> calls)
       \<and> int (length live) < sint (q_RequestsPerMinute q) \<and> e' = e(caller \<mapsto> live @ [now]))"

lemma CheckRate_result:
  assumes "CheckRate caller q now e = (r, e')" "windows_ok e"
  shows "windows_ok e' \<and> (r = None \<longrightarrow> rate_ok caller q e e')"
proof -
  let ?live = "filter (\<lambda>t. now - windowSz < t) (case e caller of None \<Rightarrow> [] | Some calls \<Rightarrow> calls)"
  have "length (case e caller of None \<Rightarrow> [] | Some calls \<Rightarrow> calls) < 2 ^ 31" using assms(2) by (auto simp: windows_ok_def split: option.split)
  then have n: "length ?live < 2 ^ 31" using length_filter_le le_less_trans by blast
  then have i: "sint (of_nat (length ?live) :: int32) = int (length ?live)"
    by (simp add: signed_of_nat signed_take_bit_int_eq_self)
  have "sint (q_RequestsPerMinute q) < 2 ^ 31" using sint_i32_bounds by blast
  then show ?thesis
    using assms n i unfolding CheckRate_def Let_def rate_ok_def windows_ok_def by (auto split: if_splits intro!: exI [of _ now])
qed

text \<open>What a call of a tool may do: nothing but an audit record, or one authorized request.\<close>

definition lawful_call :: "'w Gateway \<Rightarrow> http_request \<Rightarrow> 'w gateway_state \<Rightarrow> 'w gateway_state \<Rightarrow> bool" where
  "lawful_call g r s s' \<longleftrightarrow> (\<exists>caller info ref ns m w1 w2 w3 w4. ExtractIdentity (gw_Auth g) r w1 = (Inr caller, w2)
     \<and> gw_Retrievers g ref w3 = (Inr info, w4) \<and> mrs_Tenant (rv_Spec info) \<in> {[], id_Tenant caller}
     \<and> rate_ok (id_SPIFFEID caller) (mrs_Quota (rv_Spec info)) (gs_windows s) (gs_windows s')
     \<and> gs_sent s' = gs_sent s @ [m] \<and> authorized g caller info (caller_on caller ns ref) m)"

text \<open>A state that a call reaches before it sends or records anything.\<close>

definition calm :: "('w \<Rightarrow> 'w \<Rightarrow> bool) \<Rightarrow> 'w gateway_state \<Rightarrow> 'w gateway_state \<Rightarrow> bool" where
  "calm R s t \<longleftrightarrow> gs_audit t = gs_audit s \<and> gs_sent t = gs_sent s \<and> windows_ok (gs_windows t) \<and> R (gs_env s) (gs_env t)"

text \<open>
  The environment of a gateway: what its clock, its authentication, its store of retrievers and its
  verifier may do to the world.
\<close>

locale gateway_env =
  fixes R :: "'w \<Rightarrow> 'w \<Rightarrow> bool" and g :: "'w Gateway"
  assumes R_refl: "R w w"
    and R_trans: "R a b \<Longrightarrow> R b c \<Longrightarrow> R a c"
    and now_R: "R w (snd (gw_Now g w))"
    and auth_R: "R w (snd (ExtractIdentity (gw_Auth g) r w))"
    and retrievers_R: "R w (snd (gw_Retrievers g ref w))"
    and verifier_R: "gw_TratVerifier g = Some verify \<Longrightarrow> R w (snd (verify trat w))"
begin

lemma unsent_refl: "unsent R s s"
  by (simp add: unsent_def R_refl)

lemma ask_fields:
  assumes "ask f s = (a, s')" "\<And>w. R w (snd (f w))"
  shows "gs_audit s' = gs_audit s \<and> gs_sent s' = gs_sent s \<and> gs_windows s' = gs_windows s \<and> R (gs_env s) (gs_env s')"
  using assms(1) assms(2) [of "gs_env s"] by (auto simp: ask_def split: prod.splits)

lemma unsent_ask: "ask f s = (a, s') \<Longrightarrow> (\<And>w. R w (snd (f w))) \<Longrightarrow> unsent R s0 s \<Longrightarrow> unsent R s0 s'"
  using ask_fields [of f s a s'] R_trans by (auto simp: unsent_def)

lemma sent_ask: "ask f s = (a, s') \<Longrightarrow> (\<And>w. R w (snd (f w))) \<Longrightarrow> sent R P s0 s \<Longrightarrow> sent R P s0 s'"
  using ask_fields [of f s a s'] R_trans by (auto simp: sent_def)

lemma sent_send:
  assumes "send url rq f s = (a, s')" "unsent R s0 s" "P (url, rq)" "served R g P"
    and "\<And>w. snd (f w) = serve (gw_WorkerFactory g url) rq w"
  shows "sent R P s0 s'"
proof -
  obtain b w where f: "f (gs_env s) = (b, w)" by fastforce
  have "R (gs_env s) w" using assms(3,4) assms(5) [of "gs_env s"] unfolding served_def f by simp
  then show ?thesis using assms(1-3) R_trans by (auto simp: send_def f unsent_def sent_def)
qed

lemma pending_msElapsed:
  assumes "msElapsed g start s = (ms, s')" "unsent R s0 s \<or> sent R P s0 s"
  shows "unsent R s0 s' \<or> sent R P s0 s'"
  using assms unsent_ask [OF _ now_R] sent_ask [OF _ now_R] by (auto simp: msElapsed_def split: prod.splits)

lemma answered_logDeny:
  assumes "unsent R s0 s \<or> sent R P s0 s"
  shows "answered R (gw_Audits g) P s0 (errResult code msg, logDeny g rec s)"
proof (cases "gw_Audits g \<and> au_Timestamp rec = zero_time")
  case True
  obtain now s1 where 1: "ask (gw_Now g) s = (now, s1)" by fastforce
  have "unsent R s0 s1 \<or> sent R P s0 s1" using assms unsent_ask [OF 1 now_R] sent_ask [OF 1 now_R] by blast
  with True decisions_differ show ?thesis
    by (auto simp: logDeny_def 1 audit_log_def answered_def unsent_def sent_def errResult_def)
qed (use assms decisions_differ in \<open>auto simp: logDeny_def audit_log_def answered_def unsent_def sent_def errResult_def Let_def\<close>)

lemma answered_deny:
  assumes "unsent R s0 s \<or> sent R P s0 s"
  shows "answered R (gw_Audits g) P s0 (deny g caller op ref ns start code msg k s)"
proof -
  obtain ms s1 where 1: "msElapsed g start s = (ms, s1)" by fastforce
  obtain now s2 where 2: "ask (gw_Now g) s1 = (now, s2)" by fastforce
  have "unsent R s0 s2 \<or> sent R P s0 s2" using pending_msElapsed [OF 1 assms] unsent_ask [OF 2 now_R] sent_ask [OF 2 now_R] by blast
  then show ?thesis unfolding deny_def by (simp add: 1 2 Let_def answered_logDeny)
qed

lemma answered_allow:
  assumes "sent R P s0 s"
  shows "answered R (gw_Audits g) P s0 (okResult a, logAllow g caller op ref ns fs n start s)"
proof -
  obtain ms s1 where 1: "msElapsed g start s = (ms, s1)" by fastforce
  obtain now s2 where 2: "ask (gw_Now g) s1 = (now, s2)" by fastforce
  have "sent R P s0 s1" using 1 assms sent_ask [OF _ now_R] by (auto simp: msElapsed_def split: prod.splits)
  then have "sent R P s0 s2" by (rule sent_ask [OF 2 now_R])
  with assms show ?thesis
    by (auto simp: logAllow_def 1 2 audit_log_def answered_def sent_def okResult_def)
qed

text \<open>Sending a request and answering from its response.\<close>

lemma answered_forward:
  assumes "unsent R s0 s" "served R g P" "\<And>w. snd (f w) = serve (gw_WorkerFactory g url) rq w" "P (url, rq)"
  shows "answered R (gw_Audits g) P s0 (case send url rq f s of (resp, s) \<Rightarrow> (case resp of
      Inl e \<Rightarrow> denyWorkerError g caller op ref ns start e s
    | Inr a \<Rightarrow> (okResult (t a), logAllow g caller op ref ns (x a) (n a) start s)))"
proof -
  obtain resp s1 where 1: "send url rq f s = (resp, s1)" by fastforce
  have "sent R P s0 s1" by (rule sent_send [where P = P, OF 1 assms(1) assms(4,2,3)])
  then show ?thesis by (cases resp) (simp_all add: 1 answered_allow answered_deny denyWorkerError_def)
qed

lemma verified_unsent:
  "gw_TratVerifier g = Some verify \<Longrightarrow> ask (verify t) s = (a, s') \<Longrightarrow> unsent R s0 s \<Longrightarrow> unsent R s0 s'"
  by (rule unsent_ask [OF _ verifier_R])

lemma requireTrat_Inl:
  assumes "requireTrat g caller op ref ns required args start s = (Inl e, s')" "unsent R s0 s"
  shows "answered R (gw_Audits g) P s0 (Inl e :: RPCError + string, s')"
proof -
  have d: "answered R (gw_Audits g) P s0 (Inl e :: RPCError + string, s')"
    if "deny g caller op ref ns start code msg k s1 = (Inl e :: RPCError + string, s')" "unsent R s0 s1" for code msg k s1
    unfolding that(1) [symmetric] by (rule answered_deny) (simp add: that(2))
  show ?thesis
    using assms unfolding requireTrat_def Let_def
    by (auto split: if_splits option.splits sum.splits prod.splits elim!: d dest: verified_unsent)
qed

lemma requireTrat_Inr:
  assumes "requireTrat g caller op ref ns required args start s = (Inr t, s')" "unsent R s0 s"
  shows "unsent R s0 s' \<and> (required \<longrightarrow> token_ok g caller t)"
proof -
  have v: "unsent R s0 s1 \<and> (\<exists>w w'. verify t w = (a, w'))" if "gw_TratVerifier g = Some verify" "ask (verify t) s = (a, s1)" for verify t a s1
    using verified_unsent [OF that assms(2)] that(2) by (auto simp: ask_def split: prod.splits)
  show ?thesis
    using assms unfolding requireTrat_def Let_def token_ok_def
    by (auto simp: deny_not_Inr dest!: v split: if_splits option.splits sum.splits prod.splits)
qed

lemma doRetrieve_answered:
  assumes "unsent R s0 s" "served R g (authorized g caller info i)"
  shows "answered R (gw_Audits g) (authorized g caller info i) s0 (doRetrieve g caller info i args start s)"
  unfolding doRetrieve_def Let_def using assms
  by (auto split: option.split sum.split intro!: answered_deny answered_forward authorized_intro simp: ClampTopK_Inr)

lemma doListNamespaces_answered:
  assumes "unsent R s0 s" "served R g (authorized g caller info i)"
  shows "answered R (gw_Audits g) (authorized g caller info i) s0 (doListNamespaces g caller info i start s)"
  unfolding doListNamespaces_def Let_def using assms
  by (auto split: option.split intro!: answered_deny answered_forward authorized_intro)

lemma doGet_answered:
  assumes "unsent R s0 s" "served R g (authorized g caller info i)"
  shows "answered R (gw_Audits g) (authorized g caller info i) s0 (doGet g caller info i args start s)"
proof -
  let ?req = "\<lparr>gq_Identity = i, gq_ID = jsonStr g (args ''id'')\<rparr>"
  obtain resp s1 where 1: "send (rv_WorkerURL info) (GetReq ?req) (rs_Get (gw_WorkerFactory g (rv_WorkerURL info)) ?req) s = (resp, s1)" by fastforce
  have "sent R (authorized g caller info i) s0 s1"
    if "Allow (id_SPIFFEID caller) MemoryOpRead (ri_Namespace i) (mrs_Policy (rv_Spec info)) = None"
    by (rule sent_send [where P = "authorized g caller info i", OF 1 assms(1) _ assms(2)]) (use that in \<open>auto intro: authorized_intro\<close>)
  then show ?thesis
    unfolding doGet_def Let_def 1 denyWorkerError_def using assms
    by (auto split: option.split sum.split intro!: answered_deny answered_allow)
qed

lemma doSummarize_answered:
  assumes "unsent R s0 s" "served R g (authorized g caller info i)"
  shows "answered R (gw_Audits g) (authorized g caller info i) s0 (doSummarize g caller info i args start s)"
  unfolding doSummarize_def Let_def using assms
  by (auto split: option.split intro!: answered_deny answered_forward authorized_intro)

lemma doMergeFS_answered:
  assumes "unsent R s0 s" "served R g (authorized g caller info i)"
  shows "answered R (gw_Audits g) (authorized g caller info i) s0 (doMergeFS g caller info i args start s)"
  unfolding doMergeFS_def Let_def using assms
  by (auto split: option.split intro!: answered_deny answered_forward authorized_intro)

lemma doWrite_answered:
  assumes "unsent R s0 s" "served R g (authorized g caller info i)"
  shows "answered R (gw_Audits g) (authorized g caller info i) s0 (doWrite g caller info i args start s)"
proof (cases "Allow (id_SPIFFEID caller) MemoryOpWrite (ri_Namespace i) (mrs_Policy (rv_Spec info))")
  case None
  obtain r s1 where t: "requireTrat g caller ''write_memory'' (ri_RetrieverRef i) (ri_Namespace i) (mrs_MutationsTraT (rv_Spec info)) args start s = (r, s1)"
    by fastforce
  show ?thesis
  proof (cases r)
    case (Inl e)
    with requireTrat_Inl [OF _ assms(1)] t None show ?thesis by (simp add: doWrite_def Let_def)
  next
    case (Inr trat)
    with requireTrat_Inr [OF _ assms(1)] t have "unsent R s0 s1 \<and> (mrs_MutationsTraT (rv_Spec info) \<longrightarrow> token_ok g caller trat)" by simp
    then show ?thesis
      unfolding doWrite_def Let_def using None t Inr assms(2)
      by (auto split: option.split intro!: answered_deny answered_forward authorized_intro simp: new_doc_def CheckWriteSize_None)
  qed
qed (auto simp: doWrite_def Let_def assms intro: answered_deny)

lemma doDelete_answered:
  assumes "unsent R s0 s" "served R g (authorized g caller info i)"
  shows "answered R (gw_Audits g) (authorized g caller info i) s0 (doDelete g caller info i args start s)"
proof (cases "Allow (id_SPIFFEID caller) MemoryOpDelete (ri_Namespace i) (mrs_Policy (rv_Spec info))")
  case None
  obtain r s1 where t: "requireTrat g caller ''delete_memory'' (ri_RetrieverRef i) (ri_Namespace i) (mrs_MutationsTraT (rv_Spec info)) args start s = (r, s1)"
    by fastforce
  show ?thesis
  proof (cases r)
    case (Inl e)
    with requireTrat_Inl [OF _ assms(1)] t None show ?thesis by (simp add: doDelete_def Let_def)
  next
    case (Inr trat)
    with requireTrat_Inr [OF _ assms(1)] t have "unsent R s0 s1 \<and> (mrs_MutationsTraT (rv_Spec info) \<longrightarrow> token_ok g caller trat)" by simp
    then show ?thesis
      unfolding doDelete_def Let_def using None t Inr assms(2)
      by (auto split: option.split intro!: answered_deny answered_forward authorized_intro)
  qed
qed (auto simp: doDelete_def Let_def assms intro: answered_deny)

lemma route_tool_answered:
  assumes "unsent R s0 s" "served R g (authorized g caller info i)"
  shows "if toolName \<in> set memoryTools then answered R (gw_Audits g) (authorized g caller info i) s0 (route_tool g caller info i toolName args start s)
    else route_tool g caller info i toolName args start s = (errResult CodeMethodNotFound (''unknown tool: '' @ toolName), s)"
proof -
  note handlers = doRetrieve_answered [OF assms] doWrite_answered [OF assms] doListNamespaces_answered [OF assms] doGet_answered [OF assms]
    doDelete_answered [OF assms] doSummarize_answered [OF assms] doMergeFS_answered [OF assms]
  show ?thesis by (simp add: route_tool_def memoryTools_def handlers)
qed
lemma rate_gate_result:
  assumes "rate_gate g caller q s = (r, s')" "windows_ok (gs_windows s)"
  shows "gs_audit s' = gs_audit s \<and> gs_sent s' = gs_sent s \<and> windows_ok (gs_windows s') \<and> R (gs_env s) (gs_env s')
    \<and> (r = None \<longrightarrow> rate_ok caller q (gs_windows s) (gs_windows s'))"
proof (cases "sint (q_RequestsPerMinute q) \<le> 0")
  case False
  obtain now s1 where 1: "ask (gw_Now g) s = (now, s1)" by fastforce
  obtain e w where 2: "CheckRate caller q now (gs_windows s1) = (e, w)" by fastforce
  have "r = e" "s' = s1\<lparr>gs_windows := w\<rparr>" using assms(1) False by (auto simp: rate_gate_def 1 2)
  with CheckRate_result [OF 2] ask_fields [OF 1 now_R] assms(2) show ?thesis by simp
qed (use assms R_refl in \<open>auto simp: rate_gate_def rate_ok_def\<close>)

text \<open>
  The two ways through a call: it is refused before it is routed, or it is routed for an authenticated
  caller to a retriever that is open to its tenant.
\<close>

lemma HandleToolCall_cases:
  assumes "HandleToolCall g r toolName rawArgs s = (res, s')" "windows_ok (gs_windows s)"
  obtains (refused) t where "calm R s t" "answered R (gw_Audits g) (\<lambda>_. False) t (res, s')"
  | (routed) caller info ref args start t w1 w2 w3 w4 where "ExtractIdentity (gw_Auth g) r w1 = (Inr caller, w2)"
      "jc_args (gw_json g) rawArgs = Inr args" "gw_Retrievers g ref w3 = (Inr info, w4)"
      "mrs_Tenant (rv_Spec info) \<in> {[], id_Tenant caller}"
      "rate_ok (id_SPIFFEID caller) (mrs_Quota (rv_Spec info)) (gs_windows s) (gs_windows t)" "calm R s t"
      "route_tool g caller info (caller_on caller (jsonStr g (args ''namespace'')) ref) toolName args start t = (res, s')"
proof -
  obtain start s1 where 1: "ask (gw_Now g) s = (start, s1)" by fastforce
  obtain who s2 where 2: "ask (ExtractIdentity (gw_Auth g) r) s1 = (who, s2)" by fastforce
  have u2: "unsent R s s2" using unsent_ask [OF 2 auth_R unsent_ask [OF 1 now_R unsent_refl]] .
  have calm: "calm R s t" if "unsent R s t" for t using that assms(2) by (simp add: calm_def unsent_def)
  have denied: thesis if "deny g caller toolName ref ns start code msg k t = (res, s')" "calm R s t" for caller ref ns code msg k t
    by (rule refused [OF that(2)], unfold that(1) [symmetric], rule answered_deny) (simp add: unsent_refl)
  show ?thesis
  proof (cases who)
    case (Inl e)
    obtain ms s3 where 3: "msElapsed g start s2 = (ms, s3)" by fastforce
    with Inl assms pending_msElapsed [OF 3 disjI1 [OF u2]] show ?thesis
      by (intro refused [of s]) (auto simp: HandleToolCall_def 1 2 calm_def R_refl intro: answered_logDeny)
  next
    case (Inr caller)
    show ?thesis
    proof (cases "jc_args (gw_json g) rawArgs")
      case (Inl e)
      note run = assms(1) [unfolded HandleToolCall_def, simplified 1 2 Inr Inl Let_def prod.case sum.case]
      show ?thesis by (rule denied [OF run calm [OF u2]])
    next
      case args: (Inr args)
      let ?ref = "jsonStr g (args ''retrieverRef'')" and ?ns = "jsonStr g (args ''namespace'')"
      obtain found s3 where 3: "ask (gw_Retrievers g ?ref) s2 = (found, s3)" by fastforce
      note c3 = calm [OF unsent_ask [OF 3 retrievers_R u2]]
      note run = assms(1) [unfolded HandleToolCall_def, simplified 1 2 Inr args 3 Let_def prod.case sum.case]
      show ?thesis
      proof (cases found)
        case (Inl e)
        show ?thesis by (rule denied [OF run [simplified Inl sum.case] c3])
      next
        case found: (Inr info)
        obtain w where w: "ExtractIdentity (gw_Auth g) r (gs_env s1) = (Inr caller, w)" using 2 unfolding ask_def Inr by (auto split: prod.splits)
        obtain w' where w': "gw_Retrievers g ?ref (gs_env s2) = (Inr info, w')" using 3 unfolding ask_def found by (auto split: prod.splits)
        obtain e s4 where 4: "rate_gate g (id_SPIFFEID caller) (mrs_Quota (rv_Spec info)) s3 = (e, s4)" by fastforce
        have rg: "calm R s s4" "e = None \<longrightarrow> rate_ok (id_SPIFFEID caller) (mrs_Quota (rv_Spec info)) (gs_windows s) (gs_windows s4)"
          using rate_gate_result [OF 4] c3 unsent_ask [OF 3 retrievers_R u2] R_trans by (auto simp: calm_def unsent_def)
        show ?thesis
        proof (cases "mrs_Tenant (rv_Spec info) \<in> {[], id_Tenant caller} \<and> e = None")
          case True
          then show ?thesis using rg run by (intro routed [OF w args w' _ _ rg(1), of start]) (auto simp: found 4)
        next
          case False
          have "\<exists>code msg k t. deny g caller toolName ?ref ?ns start code msg k t = (res, s') \<and> (t = s3 \<or> t = s4)"
            using False run by (cases e) (auto simp: found 4 split: if_splits)
          then show ?thesis using c3 rg(1) by (elim exE conjE) (erule denied, auto)
        qed
      qed
    qed
  qed
qed

lemma HandleToolCall_answered:
  assumes "HandleToolCall g r toolName rawArgs s = (res, s')" "windows_ok (gs_windows s)"
    and "\<forall>caller info i w1 w2. ExtractIdentity (gw_Auth g) r w1 = (Inr caller, w2) \<longrightarrow> ri_Tenant i = id_Tenant caller \<longrightarrow>
      served R g (authorized g caller info i)"
  shows "(gs_sent s' = gs_sent s \<and> isl res \<or> lawful_call g r s s') \<and> windows_ok (gs_windows s') \<and> R (gs_env s) (gs_env s')
    \<and> (toolName \<in> set memoryTools \<longrightarrow> gw_Audits g \<longrightarrow>
        (\<exists>rec. gs_audit s' = gs_audit s @ [rec] \<and> (au_Decision rec = DecisionAllow \<longleftrightarrow> \<not> isl res)))"
  using assms(1,2)
proof (cases rule: HandleToolCall_cases)
  case (refused t)
  then show ?thesis using R_trans by (auto simp: answered_def calm_def split: if_splits)
next
  case (routed caller info ref args start t w1 w2 w3 w4)
  let ?i = "caller_on caller (jsonStr g (args ''namespace'')) ref"
  have sv: "served R g (authorized g caller info ?i)" by (rule assms(3) [rule_format, OF routed(1)]) (simp add: caller_on_def)
  have "lawful_call g r s s'" if "gs_sent s' = gs_sent t @ [m]" "authorized g caller info ?i m" "gs_windows s' = gs_windows t" for m
    unfolding lawful_call_def using routed(1,3-6) that
    by (intro exI [of _ caller] exI [of _ info] exI [of _ ref] exI [of _ "jsonStr g (args ''namespace'')"] exI [of _ m] exI conjI) (auto simp: calm_def)
  with route_tool_answered [OF unsent_refl [of t] sv, of toolName args start] routed(6,7) R_trans
  show ?thesis by (auto simp: answered_def errResult_def calm_def split: if_splits)
qed
end

interpretation any_env: gateway_env "\<lambda>_ _. True" g for g :: "'w Gateway"
  by unfold_locales auto


subsection \<open>A gateway in front of AgentFS\<close>

text \<open>
  A worker behind the HTTP transport: an error reaches the gateway as its kind and its text, and a
  worker that panics breaks the connection.  The encoding of requests and responses loses nothing.
  \<open>raw\<close> is the body of an error response and \<open>lost\<close> the text the client reports for a broken connection.
\<close>

definition hop :: "string \<Rightarrow> (mem_error + 'a) \<times> 'w \<Rightarrow> (mem_error + 'a) \<times> 'w" where
  "hop raw r = (case r of (Inl e, w) \<Rightarrow> (Inl (client_error (fst (writeErr e)) raw (snd (writeErr e))), w) | (Inr a, w) \<Rightarrow> (Inr a, w))"

definition worker_service :: "string \<Rightarrow> string \<Rightarrow> 'w Worker \<Rightarrow> 'w RetrievalService" where
  "worker_service raw lost wk =
     \<lparr>rs_Retrieve = \<lambda>q w. hop raw (wk_Retrieve wk q w),
      rs_Write = \<lambda>q w. (case wk_Write wk q w of (None, w) \<Rightarrow> (Inl (BackendUnavailable lost), w) | (Some r, w) \<Rightarrow> hop raw (r, w)),
      rs_Get = \<lambda>q w. hop raw (wk_Get wk q w),
      rs_Delete = \<lambda>q w. hop raw (wk_Delete wk q w),
      rs_ListNamespaces = \<lambda>q w. hop raw (wk_ListNamespaces wk q w),
      rs_Summarize = \<lambda>q w. hop raw (wk_Summarize wk q w),
      rs_BranchFS = \<lambda>q w. hop raw (wk_BranchFS wk q w),
      rs_SnapshotFS = \<lambda>q w. hop raw (wk_SnapshotFS wk q w),
      rs_ListBranches = \<lambda>q w. hop raw (wk_ListBranches wk q w),
      rs_MergeFS = \<lambda>q w. hop raw (wk_MergeFS wk q w)\<rparr>"

text \<open>
  A world with an AgentFS store.  What the environment supplies to a call, the state of its context, the clock and
  the orders of its loops over maps, is read from sequences at a counter.
\<close>

record fs_world =
  fw_fs :: agentFSBackend
  fw_ctx :: "nat \<Rightarrow> string option"
  fw_clock :: "nat \<Rightarrow> time"
  fw_keys :: "nat \<Rightarrow> string list"
  fw_orders :: "nat \<Rightarrow> merge_orders"
  fw_want :: "nat \<Rightarrow> (string \<times> string) list"
  fw_tick :: nat

definition fs_run :: "(nat \<Rightarrow> agentFSBackend \<Rightarrow> 'a \<times> agentFSBackend) \<Rightarrow> fs_world \<Rightarrow> 'a \<times> fs_world" where
  "fs_run f w = (let (a, b) = f (fw_tick w) (fw_fs w) in (a, w\<lparr>fw_fs := b, fw_tick := fw_tick w + 2\<rparr>))"

definition agentfs_backend ::
  "(bytes \<Rightarrow> string) \<Rightarrow> (string \<Rightarrow> Filter \<Rightarrow> fs_world \<Rightarrow> (mem_error + SnapshotInfo) \<times> fs_world) \<Rightarrow> fs_world Backend" where
  "agentfs_backend hash snap =
     \<lparr>be_Retrieve = \<lambda>q k f w. fs_run (\<lambda>n b. (fs_Retrieve (fw_ctx w n) (fw_keys w n) q k f (fw_want w n) b, b)) w,
      be_Write = \<lambda>d w. fs_run (\<lambda>n b. fs_Write (fw_ctx w n) (fw_clock w n) (fw_clock w (n + 1)) d b) w,
      be_Get = \<lambda>i f w. fs_run (\<lambda>n b. (fs_Get (fw_ctx w n) i f b, b)) w,
      be_Delete = \<lambda>i f w. fs_run (\<lambda>n b. fs_Delete (fw_ctx w n) i f b) w,
      be_ListNamespaces = \<lambda>f w. fs_run (\<lambda>n b. (fs_ListNamespaces (fw_ctx w n) (fw_keys w n) f b, b)) w,
      be_Summarize = \<lambda>q f w. fs_run (\<lambda>n b. (fs_Summarize, b)) w,
      be_Branch = \<lambda>base new f w. fs_run (\<lambda>n b. fs_Branch hash (fw_ctx w n) (fw_clock w n) (fw_clock w (n + 1)) (fw_keys w n) base new f b) w,
      be_Snapshot = snap,
      be_ListBranches = \<lambda>f w. fs_run (\<lambda>n b. (fs_ListBranches (fw_ctx w n) (fw_keys w n) f b, b)) w,
      be_Merge = \<lambda>src dst opts f w. fs_run (\<lambda>n b. fs_Merge hash (fw_ctx w n) (fw_clock w n) (fw_orders w n) src dst opts f b) w,
      be_vector = None\<rparr>"

text \<open>Each file lies under the name of its tenant, which holds no slash.\<close>

definition tenant_keys :: "(string \<rightharpoonup> Document) \<Rightarrow> bool" where
  "tenant_keys F \<longleftrightarrow> (\<forall>k d. F k = Some d \<longrightarrow> plain (doc_Tenant d) \<and> HasPrefix k (doc_Tenant d @ [slash]))"

definition own_change :: "string \<Rightarrow> (string \<rightharpoonup> Document) \<Rightarrow> (string \<rightharpoonup> Document) \<Rightarrow> bool" where
  "own_change t F F' \<longleftrightarrow> (\<forall>k. F' k = F k \<or> (HasPrefix k (t @ [slash]) \<or> (\<exists>d. F k = Some d \<and> doc_Tenant d = t)) \<and> (\<forall>d. F' k = Some d \<longrightarrow> HasPrefix k (t @ [slash]) \<and> doc_Tenant d = t))"

definition keeps_tenant :: "string \<Rightarrow> fs_world \<Rightarrow> fs_world \<Rightarrow> bool" where
  "keeps_tenant u w w' \<longleftrightarrow> (tenant_keys (fs_files (fw_fs w)) \<longrightarrow>
     tenant_keys (fs_files (fw_fs w')) \<and> fs_view u (fw_fs w') = fs_view u (fw_fs w))"

lemma plain_prefix_unique: "plain t \<Longrightarrow> plain u \<Longrightarrow> HasPrefix k (t @ [slash]) \<Longrightarrow> HasPrefix k (u @ [slash]) \<Longrightarrow> t = u"
  by (auto simp: HasPrefix_iff dest: plain_slash_inject)

lemma own_change_keeps:
  assumes "own_change t (fs_files b) (fs_files b')" "tenant_keys (fs_files b)" "plain t"
  shows "tenant_keys (fs_files b')" and "u \<noteq> t \<Longrightarrow> fs_view u b' = fs_view u b"
proof -
  show "tenant_keys (fs_files b')"
    unfolding tenant_keys_def using assms unfolding own_change_def tenant_keys_def by metis
  assume u: "u \<noteq> t"
  have "fs_view u b' k = fs_view u b k" for k
  proof (cases "fs_files b' k = fs_files b k")
    case False
    then have "fs_view u b' k = None" "fs_view u b k = None"
      using assms u plain_prefix_unique [OF assms(3)] unfolding own_change_def tenant_keys_def fs_view_def
      by (auto split: option.split) metis+
    then show ?thesis by simp
  qed (simp add: fs_view_def)
  then show "fs_view u b' = fs_view u b" by (rule ext)
qed

lemma fileKey_tenant: "HasPrefix (fileKey t n br p) (t @ [slash])"
  by (simp add: fileKey_def HasPrefix_iff)

lemma fs_Write_own: "fs_Write ctx t0 now doc b = (r, b') \<Longrightarrow> own_change (doc_Tenant doc) (fs_files b) (fs_files b')"
proof (cases r)
  case (Inr x)
  assume "fs_Write ctx t0 now doc b = (r, b')"
  with Inr have "fs_Write ctx t0 now doc b = (Inr x, b')" by simp
  then show ?thesis by (cases rule: fs_Write_cases) (auto simp: own_change_def fileKey_tenant)
qed (auto simp: own_change_def dest: fs_Write_fails)

lemma fs_Delete_own: "fs_Delete ctx i f b = (r, b') \<Longrightarrow> own_change (f_Tenant f) (fs_files b) (fs_files b')"
proof (cases r)
  case None
  assume "fs_Delete ctx i f b = (r, b')"
  with None have "fs_Delete ctx i f b = (None, b')" by simp
  then show ?thesis by (cases rule: fs_Delete_cases) (auto simp: own_change_def)
qed (auto simp: own_change_def dest: fs_Delete_fails)

lemma commit_own:
  "let F' = fold (commit_path plan f dstB now) rels F in F' k = F k \<or> HasPrefix k (f_Tenant f @ [slash]) \<and> (\<forall>d. F' k = Some d \<longrightarrow> doc_Tenant d = f_Tenant f)"
proof (induction rels arbitrary: F)
  case (Cons rel rels)
  let ?G = "commit_path plan f dstB now rel F"
  have "?G k = F k \<or> HasPrefix k (f_Tenant f @ [slash]) \<and> (\<forall>d. ?G k = Some d \<longrightarrow> doc_Tenant d = f_Tenant f)"
    by (auto simp: commit_path_def Let_def fileKey_tenant merged_doc_def split: option.split planned.split)
  with Cons.IH [of ?G] show ?case by (auto simp: Let_def)
qed simp

lemma fs_Merge_own:
  assumes "fs_Merge hash ctx now ords srcB dstB opts f b = (r, b')"
  shows "own_change (f_Tenant f) (fs_files b) (fs_files b')"
  using assms
proof (cases rule: fs_Merge_cases)
  case (2 db plan res)
  show ?thesis unfolding own_change_def 2 using commit_own [of plan f dstB now "mo_commit ords" "fs_files b"] by (simp add: Let_def) blast
qed (simp add: own_change_def)

lemma keeps_tenant_same: "fw_fs w' = fw_fs w \<Longrightarrow> keeps_tenant u w w'"
  by (simp add: keeps_tenant_def)

lemma keeps_tenant_trans: "keeps_tenant u a b \<Longrightarrow> keeps_tenant u b c \<Longrightarrow> keeps_tenant u a c"
  by (auto simp: keeps_tenant_def)

lemma fs_run_keeps:
  assumes "\<And>n b. own_change t (fs_files b) (fs_files (snd (f n b)))" "plain t" "u \<noteq> t"
  shows "keeps_tenant u w (snd (fs_run f w))"
proof -
  obtain a b where 1: "f (fw_tick w) (fw_fs w) = (a, b)" by fastforce
  have "own_change t (fs_files (fw_fs w)) (fs_files b)" using assms(1) [of "fw_fs w" "fw_tick w"] by (simp add: 1)
  from own_change_keeps [OF this _ assms(2)] assms(3) show ?thesis by (simp add: keeps_tenant_def fs_run_def 1)
qed

lemma fs_run_read: "keeps_tenant u w (snd (fs_run (\<lambda>n b. (h n b, b)) w))"
  by (simp add: fs_run_def keeps_tenant_same)

text \<open>The operations of the store under a filter of another tenant.\<close>

lemma agentfs_keeps:
  fixes hash snap
  defines "B \<equiv> agentfs_backend hash snap"
  assumes "plain (f_Tenant f)" "u \<noteq> f_Tenant f"
  shows "keeps_tenant u w (snd (be_Retrieve B q k f w))" "keeps_tenant u w (snd (be_Get B i f w))"
    "keeps_tenant u w (snd (be_Delete B i f w))" "keeps_tenant u w (snd (be_ListNamespaces B f w))"
    "keeps_tenant u w (snd (be_Summarize B q f w))" "keeps_tenant u w (snd (be_Merge B src dst opts f w))"
    "doc_Tenant d = f_Tenant f \<Longrightarrow> keeps_tenant u w (snd (be_Write B d w))"
proof -
  note own = fs_Delete_own [OF prod.collapse [symmetric]] fs_Merge_own [OF prod.collapse [symmetric]] fs_Write_own [OF prod.collapse [symmetric]]
  show "keeps_tenant u w (snd (be_Retrieve B q k f w))" "keeps_tenant u w (snd (be_Get B i f w))"
    "keeps_tenant u w (snd (be_ListNamespaces B f w))" "keeps_tenant u w (snd (be_Summarize B q f w))"
    by (simp_all add: B_def agentfs_backend_def fs_run_read)
  show "keeps_tenant u w (snd (be_Delete B i f w))" "keeps_tenant u w (snd (be_Merge B src dst opts f w))"
    unfolding B_def agentfs_backend_def Backend.simps using assms(2,3) by (auto intro!: fs_run_keeps [of "f_Tenant f"] own)
  show "keeps_tenant u w (snd (be_Write B d w))" if "doc_Tenant d = f_Tenant f"
    unfolding B_def agentfs_backend_def Backend.simps using assms(2,3) own(3) [where doc = d, unfolded that] by (auto intro!: fs_run_keeps [of "f_Tenant f"])
qed

definition helpers_keep :: "fs_world Worker \<Rightarrow> bool" where
  "helpers_keep wk \<longleftrightarrow> (\<forall>emb txt w. wk_embedder wk = Some emb \<longrightarrow> fw_fs (snd (emb txt w)) = fw_fs w)
     \<and> (\<forall>sum q ts w. wk_summarizer wk = Some sum \<longrightarrow> fw_fs (snd (sum q ts w)) = fw_fs w)"

lemma snd_wrap: "snd (wrap_result r) = snd r" "snd (hop raw r) = snd r"
  by (auto simp: wrap_result_def hop_def split: sum.split prod.split)

lemma agentfs_not_vector [simp]: "be_vector (agentfs_backend hash snap) = None"
  by (simp add: agentfs_backend_def)

lemma filterFrom_fields [simp]: "f_Tenant (filterFrom i x) = ri_Tenant i" "f_Namespace (filterFrom i x) = ri_Namespace i"
  by (simp_all add: filterFrom_def)

lemma embed_doc_fields:
  "helpers_keep wk \<Longrightarrow> embed_doc wk d w = (d', w') \<Longrightarrow> doc_Tenant d' = doc_Tenant d \<and> doc_Path d' = doc_Path d \<and> fw_fs w' = fw_fs w"
  unfolding helpers_keep_def embed_doc_def by (auto split: option.splits if_splits sum.splits prod.splits) (metis snd_conv)+

lemma admit_agentfs:
  "wk_selector wk = StaticSelector (agentfs_backend hash snap) \<Longrightarrow> admit wk i ref = Inr b \<Longrightarrow> b = agentfs_backend hash snap"
  by (auto simp: admit_def StaticSelector_def split: option.splits)

lemma wk_Retrieve_keeps:
  assumes "wk_selector wk = StaticSelector (agentfs_backend hash snap)" "helpers_keep wk"
    and "plain (ri_Tenant (rr_Identity q))" "u \<noteq> ri_Tenant (rr_Identity q)"
  shows "keeps_tenant u w (snd (wk_Retrieve wk q w))"
proof (cases "admit wk (rr_Identity q) (rr_StoreRef q)")
  case (Inr b)
  note b = admit_agentfs [OF assms(1) Inr]
  have r: "keeps_tenant u w (snd (be_Retrieve b qs k (filterFrom (rr_Identity q) x) w'))" if "fw_fs w' = fw_fs w" for qs k x w'
    using keeps_tenant_trans [OF keeps_tenant_same [OF that]] agentfs_keeps(1) [of "filterFrom (rr_Identity q) x" u] assms(3,4) by (simp add: b)
  have e: "fw_fs w' = fw_fs w" if "wk_embedder wk = Some emb" "emb t w = (v, w')" for emb t v w'
    using assms(2) that unfolding helpers_keep_def by (metis snd_conv)
  show ?thesis by (auto simp: wk_Retrieve_def Inr snd_wrap Let_def b [symmetric] intro!: r dest: e split: option.split sum.split prod.split) (simp_all add: b)
qed (simp add: wk_Retrieve_def keeps_tenant_same)

lemma wk_Write_keeps:
  assumes "wk_selector wk = StaticSelector (agentfs_backend hash snap)" "helpers_keep wk"
    and "plain (ri_Tenant (wq_Identity q))" "u \<noteq> ri_Tenant (wq_Identity q)"
  shows "keeps_tenant u w (snd (wk_Write wk q w))"
proof (cases "admit wk (wq_Identity q) (ri_RetrieverRef (wq_Identity q))")
  case (Inr b)
  note b = admit_agentfs [OF assms(1) Inr]
  let ?d = "(wq_Document q)\<lparr>doc_Tenant := ri_Tenant (wq_Identity q), doc_Namespace := ri_Namespace (wq_Identity q)\<rparr>"
  obtain d w1 where 1: "embed_doc wk ?d w = (d, w1)" by fastforce
  obtain r w2 where 2: "be_Write b d w1 = (r, w2)" by fastforce
  from embed_doc_fields [OF assms(2) 1] have d: "doc_Tenant d = ri_Tenant (wq_Identity q)" "fw_fs w1 = fw_fs w" by auto
  have "keeps_tenant u w1 (snd (be_Write b d w1))" unfolding b
    by (rule agentfs_keeps(7) [where f = "filterFrom (wq_Identity q) no_filter"]) (use assms(3,4) d in auto)
  then have "keeps_tenant u w w2" using keeps_tenant_trans [OF keeps_tenant_same [OF d(2)]] by (simp add: 2)
  then show ?thesis by (simp add: wk_Write_def Inr 1 2 Let_def split: sum.split) (simp add: b)
qed (simp add: wk_Write_def keeps_tenant_same Let_def)

lemma wk_Summarize_keeps:
  assumes "wk_selector wk = StaticSelector (agentfs_backend hash snap)" "helpers_keep wk"
    and "plain (ri_Tenant (sq_Identity q))" "u \<noteq> ri_Tenant (sq_Identity q)"
  shows "keeps_tenant u w (snd (wk_Summarize wk q w))"
proof (cases "admit wk (sq_Identity q) (ri_RetrieverRef (sq_Identity q))")
  case (Inr b)
  note b = admit_agentfs [OF assms(1) Inr]
  let ?f = "filterFrom (sq_Identity q) no_filter"
  obtain r w1 where 1: "be_Retrieve b (sq_Query q) 10 ?f w = (r, w1)" by fastforce
  have k: "keeps_tenant u w w1" "keeps_tenant u w (snd (be_Summarize b (sq_Query q) ?f w))"
    using agentfs_keeps(1) [of ?f u w hash snap "sq_Query q" 10] agentfs_keeps(5) [of ?f u w hash snap "sq_Query q"] assms(3,4) 1
    unfolding b by simp_all
  have e: "keeps_tenant u w w'" if "wk_summarizer wk = Some summ" "summ t ts w1 = (v, w')" for summ t ts v w'
    using assms(2) that keeps_tenant_trans [OF k(1) keeps_tenant_same] unfolding helpers_keep_def by (metis snd_conv)
  show ?thesis
  proof (cases "wk_summarizer wk")
    case None
    with k(2) show ?thesis by (simp add: wk_Summarize_def Inr Let_def snd_wrap)
  next
    case (Some summ)
    with e [OF Some] k(1) show ?thesis by (auto simp: wk_Summarize_def Inr Let_def 1 split: sum.split prod.split)
  qed
qed (simp add: wk_Summarize_def keeps_tenant_same)

text \<open>A worker on AgentFS, whatever it embeds and summarizes with.\<close>

lemma worker_keeps:
  assumes "wk_selector wk = StaticSelector (agentfs_backend hash snap)" "helpers_keep wk"
    and "plain (ri_Tenant (req_identity rq))" "u \<noteq> ri_Tenant (req_identity rq)"
  shows "keeps_tenant u w (serve (worker_service raw lost wk) rq w)"
proof -
  note b = admit_agentfs [OF assms(1)]
  note B = agentfs_keeps [where f = "filterFrom i no_filter" and hash = hash and snap = snap and u = u for i]
  show ?thesis
  proof (cases rq)
    case (DeleteReq q)
    with assms(3,4) have d: "keeps_tenant u w (snd (be_Delete (agentfs_backend hash snap) (dq_ID q) (filterFrom (dq_Identity q) no_filter) w))"
      by (intro B(3)) auto
    show ?thesis unfolding DeleteReq
      by (auto simp: worker_service_def snd_wrap wk_Delete_def keeps_tenant_same dest!: b split: sum.split option.split prod.split) (use d in auto)
  next
    case (WriteReq q)
    with wk_Write_keeps [OF assms(1,2), of q u w] assms(3,4) show ?thesis
      by (auto simp: worker_service_def snd_wrap split: option.split prod.split)
  qed (use assms wk_Retrieve_keeps [OF assms(1,2)] wk_Summarize_keeps [OF assms(1,2)] in
      \<open>auto simp: worker_service_def snd_wrap wk_Get_def wk_ListNamespaces_def wk_MergeFS_def keeps_tenant_same dest!: b intro!: B split: sum.split\<close>)
qed

subsection \<open>Tenants across the service\<close>

lemma str_Index_char: "str_Index s [c] = None \<Longrightarrow> c \<notin> set s" "str_Index s [c] = Some i \<Longrightarrow> c \<notin> set (take i s)"
  by (induction s arbitrary: i) (auto simp: HasPrefix_def split: if_splits)

lemma tenant_plain: "tenantFromSPIFFEPath path = Inr t \<Longrightarrow> plain t"
  by (auto simp: tenantFromSPIFFEPath_def Let_def plain_def dest: str_Index_char split: option.splits if_splits)

lemma ExtractIdentity_plain: "ExtractIdentity cfg r w = (Inr caller, w') \<Longrightarrow> plain (id_Tenant caller)"
  by (auto simp: ExtractIdentity_def Let_def dest: tenant_plain split: if_splits option.splits sum.splits prod.splits)

text \<open>A gateway whose environment leaves the files alone and whose workers serve AgentFS.\<close>

definition env_keeps :: "fs_world Gateway \<Rightarrow> bool" where
  "env_keeps g \<longleftrightarrow> (\<forall>w. fw_fs (snd (gw_Now g w)) = fw_fs w)
     \<and> (\<forall>p t as w. ac_ParseAndValidate (gw_Auth g) = Some p \<longrightarrow> fw_fs (snd (p t as w)) = fw_fs w)
     \<and> (\<forall>t as w. fw_fs (snd (ac_ParseInsecure (gw_Auth g) t as w)) = fw_fs w)
     \<and> (\<forall>ref w. fw_fs (snd (gw_Retrievers g ref w)) = fw_fs w)
     \<and> (\<forall>v t w. gw_TratVerifier g = Some v \<longrightarrow> fw_fs (snd (v t w)) = fw_fs w)"

definition agentfs_gateway :: "(bytes \<Rightarrow> string) \<Rightarrow> fs_world Gateway \<Rightarrow> bool" where
  "agentfs_gateway hash g \<longleftrightarrow> env_keeps g \<and> (\<forall>url. \<exists>raw lost wk snap. gw_WorkerFactory g url = worker_service raw lost wk
     \<and> wk_selector wk = StaticSelector (agentfs_backend hash snap) \<and> helpers_keep wk)"

lemma ExtractIdentity_keeps:
  assumes "env_keeps g"
  shows "fw_fs (snd (ExtractIdentity (gw_Auth g) r w)) = fw_fs w"
proof -
  define auds where "auds = (if ac_Audience (gw_Auth g) \<noteq> [] then [ac_Audience (gw_Auth g)] else [])"
  obtain svid w1 where p: "(case ac_ParseAndValidate (gw_Auth g) of Some validate \<Rightarrow> validate (TrimPrefix (hr_Authorization r) ''Bearer '') auds w
     | None \<Rightarrow> ac_ParseInsecure (gw_Auth g) (TrimPrefix (hr_Authorization r) ''Bearer '') auds w) = (svid, w1)" by fastforce
  have "fw_fs w1 = fw_fs w" using assms p unfolding env_keeps_def by (auto split: option.splits) (metis snd_conv)+
  then show ?thesis unfolding ExtractIdentity_def Let_def auds_def [symmetric] p by (simp split: option.split sum.split)
qed

lemma env_keeps_gateway_env: "env_keeps g \<Longrightarrow> gateway_env (keeps_tenant u) g"
  using ExtractIdentity_keeps [of g] by unfold_locales (auto simp: env_keeps_def intro: keeps_tenant_same keeps_tenant_trans)

text \<open>A request that no token of a tenant authenticates.\<close>

definition foreign :: "'w Gateway \<Rightarrow> string \<Rightarrow> http_request \<Rightarrow> bool" where
  "foreign g u r \<longleftrightarrow> (\<forall>w w' caller. ExtractIdentity (gw_Auth g) r w = (Inr caller, w') \<longrightarrow> id_Tenant caller \<noteq> u)"

lemma foreign_call_keeps:
  assumes "agentfs_gateway hash g" "foreign g u r" "HandleToolCall g r toolName rawArgs s = (res, s')" "windows_ok (gs_windows s)"
  shows "windows_ok (gs_windows s') \<and> keeps_tenant u (gs_env s) (gs_env s')"
proof -
  have env: "gateway_env (keeps_tenant u) g" using assms(1) by (simp add: agentfs_gateway_def env_keeps_gateway_env)
  have sv: "served (keeps_tenant u) g (authorized g caller info i)"
    if c: "ExtractIdentity (gw_Auth g) r w1 = (Inr caller, w2)" "ri_Tenant i = id_Tenant caller" for caller info i w1 w2
    unfolding served_def
  proof (intro allI impI)
    fix url rq w
    assume "authorized g caller info i (url, rq)"
    then have i: "req_identity rq = i" by (simp add: authorized_def)
    obtain raw lost wk snap where wk: "gw_WorkerFactory g url = worker_service raw lost wk"
      "wk_selector wk = StaticSelector (agentfs_backend hash snap)" "helpers_keep wk" using assms(1) unfolding agentfs_gateway_def by metis
    have "plain (id_Tenant caller)" "u \<noteq> id_Tenant caller"
      using ExtractIdentity_plain [OF c(1)] assms(2) c(1) unfolding foreign_def by metis+
    then show "keeps_tenant u w (serve (gw_WorkerFactory g url) rq w)" unfolding wk(1)
      by (intro worker_keeps [OF wk(2,3)]) (auto simp: c i)
  qed
  have "\<forall>caller info i w1 w2. ExtractIdentity (gw_Auth g) r w1 = (Inr caller, w2) \<longrightarrow> ri_Tenant i = id_Tenant caller \<longrightarrow>
      served (keeps_tenant u) g (authorized g caller info i)" by (intro allI impI) (rule sv)
  from gateway_env.HandleToolCall_answered [OF env assms(3,4) this] show ?thesis by blast
qed

fun tool_calls :: "'w Gateway \<Rightarrow> (http_request \<times> string \<times> bytes) list \<Rightarrow> 'w gateway_state \<Rightarrow> 'w gateway_state" where
  "tool_calls g [] s = s"
| "tool_calls g ((r, toolName, rawArgs) # calls) s = tool_calls g calls (snd (HandleToolCall g r toolName rawArgs s))"

lemma foreign_calls_keep:
  "agentfs_gateway hash g \<Longrightarrow> (\<forall>c \<in> set calls. foreign g u (fst c)) \<Longrightarrow> windows_ok (gs_windows s) \<Longrightarrow>
   keeps_tenant u (gs_env s) (gs_env (tool_calls g calls s))"
proof (induction calls arbitrary: s)
  case (Cons c calls)
  obtain r toolName rawArgs where c: "c = (r, toolName, rawArgs)" by (cases c)
  obtain res s1 where 1: "HandleToolCall g r toolName rawArgs s = (res, s1)" by fastforce
  have "windows_ok (gs_windows s1)" "keeps_tenant u (gs_env s) (gs_env s1)"
    using foreign_call_keeps [OF Cons.prems(1) _ 1 Cons.prems(3)] Cons.prems(2) by (auto simp: c)
  with Cons.IH [OF Cons.prems(1), of s1] Cons.prems(2) show ?case by (simp add: c 1) (blast intro: keeps_tenant_trans)
qed (simp add: keeps_tenant_same)

text \<open>
  Claim C11.  Tenants are isolated across the whole service: gateway, transport, worker and AgentFS.
  Any sequence of tool calls, well-formed or not and with any namespace, branch or identifier, by callers
  of other tenants keeps every file under the name of its tenant, and leaves what the store returns to a tenant unchanged.
\<close>

theorem memory_service_isolated:
  assumes "agentfs_gateway hash g" "\<forall>c \<in> set calls. foreign g (f_Tenant f) (fst c)"
    and "windows_ok (gs_windows s)" "tenant_keys (fs_files (fw_fs (gs_env s)))"
  shows "tenant_keys (fs_files (fw_fs (gs_env (tool_calls g calls s))))
    \<and> (fs_Get None i f (fw_fs (gs_env (tool_calls g calls s))) = Inr d \<longleftrightarrow> fs_Get None i f (fw_fs (gs_env s)) = Inr d)"
  using foreign_calls_keep [OF assms(1-3)] assms(4) by (simp add: keeps_tenant_def fs_Get_view)

lemma wk_Write_agentfs:
  assumes "wk_selector wk = StaticSelector (agentfs_backend hash snap)" "doc_Path (wq_Document q) = []" "helpers_keep wk"
  shows "\<exists>e. fst (wk_Write wk q w) = Some (Inl e)"
proof (cases "admit wk (wq_Identity q) (ri_RetrieverRef (wq_Identity q))")
  case (Inr b)
  note b = admit_agentfs [OF assms(1) Inr]
  let ?d = "(wq_Document q)\<lparr>doc_Tenant := ri_Tenant (wq_Identity q), doc_Namespace := ri_Namespace (wq_Identity q)\<rparr>"
  obtain d w1 where 1: "embed_doc wk ?d w = (d, w1)" by fastforce
  have "doc_Path d = []" using embed_doc_fields [OF assms(3) 1] assms(2) by simp
  then have "\<exists>e w2. be_Write b d w1 = (Inl e, w2)"
    by (auto simp: b agentfs_backend_def fs_run_def fs_Write_def safePath_def split: option.split)
  then show ?thesis by (auto simp: wk_Write_def Inr 1 Let_def)
qed (simp add: wk_Write_def Let_def)

lemma wk_ListNamespaces_unnamed: "ri_Namespace (lq_Identity q) = [] \<Longrightarrow> \<exists>e. fst (wk_ListNamespaces wk q w) = Inl e"
  by (auto simp: wk_ListNamespaces_def admit_def validateIdentity_def)

lemma deny_isl: "isl (fst (deny g caller op ref ns start code msg k s))"
  by (simp add: deny_def Let_def errResult_def split: prod.split)

lemma doWrite_refused:
  assumes "\<And>q w. doc_Path (wq_Document q) = [] \<Longrightarrow> isl (fst (rs_Write (gw_WorkerFactory g (rv_WorkerURL info)) q w))"
  shows "isl (fst (doWrite g caller info i args start s))"
proof -
  have "isl r" if "send url rq (rs_Write (gw_WorkerFactory g (rv_WorkerURL info)) q) s1 = (r, s2)" "doc_Path (wq_Document q) = []" for url rq q s1 r s2
    using assms [OF that(2), of "gs_env s1"] that(1) by (auto simp: send_def split: prod.splits)
  then show ?thesis unfolding doWrite_def Let_def denyWorkerError_def
    by (auto simp: deny_isl new_doc_def split: option.split sum.split prod.split) fastforce
qed

lemma doListNamespaces_refused:
  assumes "\<And>w. isl (fst (rs_ListNamespaces (gw_WorkerFactory g (rv_WorkerURL info)) \<lparr>lq_Identity = i\<rparr> w))"
  shows "isl (fst (doListNamespaces g caller info i start s))"
proof -
  obtain r s1 where 1: "send (rv_WorkerURL info) (ListNamespacesReq \<lparr>lq_Identity = i\<rparr>)
    (rs_ListNamespaces (gw_WorkerFactory g (rv_WorkerURL info)) \<lparr>lq_Identity = i\<rparr>) s = (r, s1)" by fastforce
  then have "isl r" using assms [of "gs_env s"] by (auto simp: send_def split: prod.splits)
  then show ?thesis unfolding doListNamespaces_def Let_def denyWorkerError_def
    by (cases r) (auto simp: deny_isl 1 split: option.split)
qed

text \<open>
  Claim C26.  Two tools never succeed.  Through a gateway whose workers serve AgentFS, \<open>write_memory\<close> is always refused,
  because the gateway never sets the path the store requires; and \<open>list_memory_namespaces\<close> called with the
  arguments of its schema, which has no namespace, is always refused by the worker.
\<close>

theorem memory_tools_refused:
  assumes "agentfs_gateway hash g" "HandleToolCall g r toolName rawArgs s = (res, s')" "windows_ok (gs_windows s)"
    and "jc_args (gw_json g) rawArgs = Inr args"
    and "toolName = ''write_memory'' \<or> toolName = ''list_memory_namespaces'' \<and> args ''namespace'' = None"
  shows "isl res"
  using assms(2,3)
proof (cases rule: any_env.HandleToolCall_cases)
  case (routed caller info ref args' start t w1 w2 w3 w4)
  obtain raw lost wk snap where wk: "gw_WorkerFactory g (rv_WorkerURL info) = worker_service raw lost wk"
    "wk_selector wk = StaticSelector (agentfs_backend hash snap)" "helpers_keep wk" using assms(1) unfolding agentfs_gateway_def by metis
  have args: "args' = args" using assms(4) routed(2) by simp
  let ?i = "caller_on caller (jsonStr g (args ''namespace'')) ref"
  from assms(5) show ?thesis
  proof (elim disjE conjE)
    assume w: "toolName = ''write_memory''"
    have "isl (fst (rs_Write (gw_WorkerFactory g (rv_WorkerURL info)) q w))" if "doc_Path (wq_Document q) = []" for q w
      using wk_Write_agentfs [OF wk(2) that wk(3), of w] by (auto simp: wk(1) worker_service_def hop_def split: prod.split)
    from doWrite_refused [OF this, of caller ?i args start t] routed(7) show ?thesis by (simp add: route_tool_def w args)
  next
    assume l: "toolName = ''list_memory_namespaces''" "args ''namespace'' = None"
    have "isl (fst (rs_ListNamespaces (gw_WorkerFactory g (rv_WorkerURL info)) \<lparr>lq_Identity = ?i\<rparr> w))" for w
      using wk_ListNamespaces_unnamed [of "\<lparr>lq_Identity = ?i\<rparr>" wk w] l(2)
      by (auto simp: wk(1) worker_service_def hop_def caller_on_def jsonStr_def split: prod.split)
    from doListNamespaces_refused [OF this, of caller start t] routed(7) show ?thesis by (simp add: route_tool_def l args)
  qed
qed (auto simp: answered_def)

subsection \<open>A concrete service\<close>

definition svc_spiffe :: string where "svc_spiffe = ''spiffe://d/ns/u/sa/x''"

definition svc_codec :: gateway_codec where
  "svc_codec = \<lparr>jc_args = \<lambda>raw. Inr [''retrieverRef'' \<mapsto> ''r'', ''id'' \<mapsto> ''t/n/main/x'', ''content'' \<mapsto> ''c'', ''namespace'' \<mapsto> raw],
     jc_string = Some, jc_int32 = \<lambda>_. None, jc_bool = \<lambda>_. False, jc_map = \<lambda>_. None, je_retrieved = \<lambda>_. [], je_written = \<lambda>_. [],
     je_strings = concat, je_document = doc_Content, je_summary = id, je_merged = \<lambda>_. [], je_namespace = \<lambda>_ ns. ns,
     je_retriever = \<lambda>ref _. ref, je_episodes = \<lambda>a _ _. a\<rparr>"

definition svc_info :: RetrieverInfo where
  "svc_info = \<lparr>rv_Spec = \<lparr>mrs_Stores = [''s''], mrs_ModelProviderRef = [], mrs_TopK = 10, mrs_Namespaces = [''n''], mrs_Tenant = ''u'',
     mrs_Policy = [\<lparr>mg_Identity = ''spiffe://d/ns/u/'', mg_Operations = [''read'', ''write''], mg_Namespaces = [''n'']\<rparr>],
     mrs_Quota = \<lparr>q_MaxTopK = 5, q_RequestsPerMinute = 2, q_MaxWriteBytes = 100\<rparr>, mrs_MutationsTraT = False,
     mrs_DefaultMergePolicy = [], mrs_AllowedMergePolicies = []\<rparr>, rv_WorkerURL = ''http://w''\<rparr>"

definition svc_worker :: "fs_world Worker" where
  "svc_worker = \<lparr>wk_Chunk = \<lparr>cs_MaxBytes = 0, cs_OverlapBytes = 0\<rparr>, wk_AllowedTenants = [],
     wk_selector = StaticSelector (agentfs_backend id (\<lambda>_ _ w. (Inl (ErrNotSupported ''Snapshot'' ''agentfs''), w))),
     wk_embedder = None, wk_summarizer = None\<rparr>"

definition svc_gateway :: "fs_world Gateway" where
  "svc_gateway = \<lparr>gw_Auth = \<lparr>ac_ParseAndValidate = None,
       ac_ParseInsecure = \<lambda>_ _ w. (Inr \<lparr>sid_String = svc_spiffe, sid_Path = ''/ns/u/sa/x'', sid_TrustDomain = ''d''\<rparr>, w),
       ac_Audience = [], ac_TrustDomain = [], ac_TrustDomainFromString = Inr\<rparr>,
     gw_Retrievers = \<lambda>_ w. (Inr svc_info, w), gw_WorkerFactory = \<lambda>_. worker_service [] ''EOF'' svc_worker,
     gw_Audits = True, gw_TratVerifier = None, gw_Now = \<lambda>w. (7, w), gw_json = svc_codec, gw_range = \<lambda>_. []\<rparr>"

definition svc_request :: http_request where
  "svc_request = \<lparr>hr_Authorization = ''Bearer x'', hr_Query = \<lambda>_. []\<rparr>"

definition svc_service :: "fs_world gateway_state" where
  "svc_service = \<lparr>gs_env = \<lparr>fw_fs = demo_fs, fw_ctx = \<lambda>_. None, fw_clock = \<lambda>_. 5, fw_keys = \<lambda>_. [], fw_orders = \<lambda>_. demo_orders,
       fw_want = \<lambda>_. [], fw_tick = 0\<rparr>, gs_windows = Map.empty, gs_audit = [], gs_sent = []\<rparr>"

lemma svc_caller:
  "ExtractIdentity (gw_Auth svc_gateway) svc_request w = (Inr \<lparr>id_SPIFFEID = svc_spiffe, id_Tenant = ''u'', id_TrustDomain = ''d''\<rparr>, w)"
  by (simp add: ExtractIdentity_def svc_gateway_def svc_request_def HasPrefix_def TrimPrefix_def trust_error_def tenantFromSPIFFEPath_def)

lemma svc_agentfs: "agentfs_gateway id svc_gateway"
  unfolding agentfs_gateway_def
proof (intro conjI allI)
  show "env_keeps svc_gateway" by (simp add: env_keeps_def svc_gateway_def)
  show "\<exists>raw lost wk snap. gw_WorkerFactory svc_gateway url = worker_service raw lost wk
    \<and> wk_selector wk = StaticSelector (agentfs_backend id snap) \<and> helpers_keep wk" for url
    by (intro exI [of _ "[]"] exI [of _ "''EOF''"] exI [of _ svc_worker] exI [of _ "\<lambda>_ _ w. (Inl (ErrNotSupported ''Snapshot'' ''agentfs''), w)"])
      (simp add: svc_gateway_def svc_worker_def helpers_keep_def)
qed

lemma svc_windows: "windows_ok (gs_windows svc_service)"
  by (simp add: svc_service_def windows_ok_def)

lemma svc_fields:
  "gw_Now svc_gateway = Pair 7" "gw_json svc_gateway = svc_codec" "gw_Retrievers svc_gateway = (\<lambda>_ w. (Inr svc_info, w))"
  "gw_Audits svc_gateway" "jc_args svc_codec raw = Inr [''retrieverRef'' \<mapsto> ''r'', ''id'' \<mapsto> ''t/n/main/x'', ''content'' \<mapsto> ''c'', ''namespace'' \<mapsto> raw]"
  "jsonStr svc_gateway (Some b) = b" "mrs_Tenant (rv_Spec svc_info) = ''u''" "sint (q_RequestsPerMinute (mrs_Quota (rv_Spec svc_info))) = 2"
  "Allow svc_spiffe MemoryOpRead ''n'' (mrs_Policy (rv_Spec svc_info)) = None"
  by (simp_all add: svc_gateway_def svc_codec_def svc_info_def jsonStr_def matchesIdentity_def HasSuffix_def HasPrefix_def svc_spiffe_def
      MemoryOpRead_def)

lemma gs_sent_log [simp]:
  "gs_sent (snd (deny g caller op ref ns start code msg k s)) = gs_sent s"
  "gs_sent (logAllow g caller op ref ns fs n start s) = gs_sent s"
  by (auto simp: deny_def logDeny_def logAllow_def audit_log_def msElapsed_def ask_def Let_def split: prod.split)

lemma svc_call:
  "gs_sent (snd (HandleToolCall svc_gateway svc_request ''get_memory'' ''n'' svc_service)) \<noteq> []"
proof -
  have sent: "gs_sent (snd (doGet svc_gateway \<lparr>id_SPIFFEID = svc_spiffe, id_Tenant = ''u'', id_TrustDomain = ''d''\<rparr> svc_info
      (caller_on c ''n'' ref) [''retrieverRef'' \<mapsto> ''r'', ''id'' \<mapsto> ''t/n/main/x'', ''content'' \<mapsto> ''c'', ''namespace'' \<mapsto> ''n''] start s)) \<noteq> []" for c ref start s
    by (simp add: doGet_def Let_def caller_on_def svc_fields denyWorkerError_def send_def split: prod.split sum.split)
  have "CheckRate svc_spiffe (mrs_Quota (rv_Spec svc_info)) 7 (gs_windows svc_service) = (None, [svc_spiffe \<mapsto> [7]])"
    by (simp add: CheckRate_def svc_service_def svc_fields)
  then show ?thesis
    by (simp add: HandleToolCall_def ask_def svc_caller svc_fields rate_gate_def route_tool_def sent Let_def)
qed


lemma svc_tenant_keys: "tenant_keys (fs_files (fw_fs (gs_env svc_service)))"
  by (auto simp: tenant_keys_def svc_service_def demo_fs_def HasPrefix_def split: if_splits)

theorem memory_service_isolated_witness:
  "fs_Get None ''t/n/main/x'' tn_filter (fw_fs (gs_env (tool_calls svc_gateway [(svc_request, ''delete_memory'', ''n'')] svc_service)))
     = Inr (demo_doc ''t/n/main/x'' ''a'')"
proof -
  have "foreign svc_gateway (f_Tenant tn_filter) svc_request" by (auto simp: foreign_def svc_caller)
  moreover have "fs_Get None ''t/n/main/x'' tn_filter (fw_fs (gs_env svc_service)) = Inr (demo_doc ''t/n/main/x'' ''a'')"
    by (simp add: fs_Get_iff svc_service_def) (simp add: demo_fs_def)
  ultimately show ?thesis
    using memory_service_isolated [OF svc_agentfs _ svc_windows svc_tenant_keys, of "[(svc_request, ''delete_memory'', ''n'')]" tn_filter] by simp
qed

theorem memory_tools_refused_witness:
  "isl (fst (HandleToolCall svc_gateway svc_request ''write_memory'' ''n'' svc_service))"
proof -
  obtain res s' where 1: "HandleToolCall svc_gateway svc_request ''write_memory'' ''n'' svc_service = (res, s')" by fastforce
  have "jc_args (gw_json svc_gateway) ''n'' = Inr [''retrieverRef'' \<mapsto> ''r'', ''id'' \<mapsto> ''t/n/main/x'', ''content'' \<mapsto> ''c'', ''namespace'' \<mapsto> ''n'']"
    by (simp add: svc_fields)
  from memory_tools_refused [OF svc_agentfs 1 svc_windows this] 1 show ?thesis by simp
qed
end
