(* ===== verification/TeamTask.thy ===== *)
theory TeamTask
  imports Json
begin

section \<open>The shared task list of a team\<close>

text \<open>
  The task list of package \<open>teamtask\<close>: the tasks and errors of \<open>task.go\<close>, the store in memory
  (\<open>mem.go\<close>) and the store on a NATS key-value bucket (\<open>nats.go\<close>).  The bucket is a
  record of functions over a world that carries whatever the server and the other members do
  between two calls; \<open>encoding/json\<close> is a pair of functions between tasks and stored values.
\<close>

type_synonym TaskState = string

definition TaskPending :: TaskState where "TaskPending = ''pending''"
definition TaskInProgress :: TaskState where "TaskInProgress = ''inProgress''"
definition TaskCompleted :: TaskState where "TaskCompleted = ''completed''"

lemmas task_states = TaskPending_def TaskInProgress_def TaskCompleted_def

record Task =
  tk_ID :: string
  tk_Title :: string
  tk_State :: TaskState
  tk_Deps :: "string list"
  tk_Owner :: string
  tk_Result :: string

text \<open>The sentinel errors, and every other error by its message.\<close>

datatype task_error = ErrNotFound | ErrNotClaimable | ErrNotOwner | ErrConflict | task_failure string

definition BucketName :: "string \<Rightarrow> string \<Rightarrow> string" where
  "BucketName namespace team = ''team_'' @ namespace @ ''_'' @ team"

fun deps_loop :: "string list \<Rightarrow> (string \<rightharpoonup> Task) \<Rightarrow> bool" where
  "deps_loop [] byID = True"
| "deps_loop (d # ds) byID = (case byID d of
     None \<Rightarrow> False
   | Some dep \<Rightarrow> if tk_State dep \<noteq> TaskCompleted then False else deps_loop ds byID)"

definition depsSatisfied :: "Task \<Rightarrow> (string \<rightharpoonup> Task) \<Rightarrow> bool" where
  "depsSatisfied t byID = deps_loop (tk_Deps t) byID"

subsection \<open>The store in memory\<close>

record MemStore =
  ms_tasks :: "string \<rightharpoonup> Task"
  ms_seq :: nat

definition NewMemStore :: MemStore where
  "NewMemStore = \<lparr>ms_tasks = Map.empty, ms_seq = 0\<rparr>"

definition default_state :: "Task \<Rightarrow> Task" where
  "default_state t = (if tk_State t = [] then t\<lparr>tk_State := TaskPending\<rparr> else t)"

definition mem_Create :: "Task \<Rightarrow> MemStore \<Rightarrow> (task_error + string) \<times> MemStore" where
  "mem_Create t0 m =
     (let (t, m) = (if tk_ID t0 = [] then let n = ms_seq m + 1 in (t0\<lparr>tk_ID := ''task-'' @ show_nat n\<rparr>, m\<lparr>ms_seq := n\<rparr>)
                    else (t0, m));
          t = default_state t
      in (Inr (tk_ID t), m\<lparr>ms_tasks := (ms_tasks m)(tk_ID t \<mapsto> t)\<rparr>))"

text \<open>The order in which the loop visits the map is an argument.\<close>

definition mem_List :: "string list \<Rightarrow> MemStore \<Rightarrow> Task list" where
  "mem_List keys m = List.map_filter (ms_tasks m) keys"

definition mem_Get :: "string \<Rightarrow> MemStore \<Rightarrow> task_error + Task" where
  "mem_Get i m = (case ms_tasks m i of None \<Rightarrow> Inl ErrNotFound | Some t \<Rightarrow> Inr t)"

definition mem_Claim :: "string \<Rightarrow> string \<Rightarrow> MemStore \<Rightarrow> (task_error + Task) \<times> MemStore" where
  "mem_Claim i owner m = (case ms_tasks m i of
     None \<Rightarrow> (Inl ErrNotFound, m)
   | Some t \<Rightarrow>
       if tk_State t \<noteq> TaskPending \<or> \<not> depsSatisfied t (ms_tasks m) then (Inl ErrNotClaimable, m)
       else let t = t\<lparr>tk_State := TaskInProgress, tk_Owner := owner\<rparr>
            in (Inr t, m\<lparr>ms_tasks := (ms_tasks m)(i \<mapsto> t)\<rparr>))"

definition mem_Complete :: "string \<Rightarrow> string \<Rightarrow> string \<Rightarrow> MemStore \<Rightarrow> (task_error + unit) \<times> MemStore" where
  "mem_Complete i owner result m = (case ms_tasks m i of
     None \<Rightarrow> (Inl ErrNotFound, m)
   | Some t \<Rightarrow>
       if tk_State t \<noteq> TaskInProgress then (Inl ErrNotClaimable, m)
       else if tk_Owner t \<noteq> owner then (Inl ErrNotOwner, m)
       else let t = t\<lparr>tk_State := TaskCompleted, tk_Result := result\<rparr>
            in (Inr (), m\<lparr>ms_tasks := (ms_tasks m)(i \<mapsto> t)\<rparr>))"

subsection \<open>The store on a key-value bucket\<close>

datatype kv_error = ErrKeyNotFound | ErrNoKeysFound | kv_failure string

text \<open>
  The operations of a bucket the store calls, the JSON encoding of a task and the generator of
  identifiers.  A revision is the sequence number the server gave a write.
\<close>

record ('w, 'v) NATSStore =
  kv_Get :: "string \<Rightarrow> 'w \<Rightarrow> (kv_error + 'v \<times> nat) \<times> 'w"
  kv_Create :: "string \<Rightarrow> 'v \<Rightarrow> 'w \<Rightarrow> (kv_error + nat) \<times> 'w"
  kv_Update :: "string \<Rightarrow> 'v \<Rightarrow> nat \<Rightarrow> 'w \<Rightarrow> (kv_error + nat) \<times> 'w"
  kv_Keys :: "'w \<Rightarrow> (kv_error + string list) \<times> 'w"
  marshal :: "Task \<Rightarrow> 'v"
  unmarshal :: "'v \<Rightarrow> string + Task"
  nuid_Next :: "'w \<Rightarrow> string \<times> 'w"

definition casAttempts :: nat where "casAttempts = 5"

fun kv_message :: "kv_error \<Rightarrow> string" where
  "kv_message ErrKeyNotFound = ''nats: key not found''"
| "kv_message ErrNoKeysFound = ''nats: no keys found''"
| "kv_message (kv_failure m) = m"

definition nats_Create :: "('w, 'v) NATSStore \<Rightarrow> Task \<Rightarrow> 'w \<Rightarrow> (task_error + string) \<times> 'w" where
  "nats_Create s t0 w =
     (let (t, w) = (if tk_ID t0 = [] then let (n, w) = nuid_Next s w in (t0\<lparr>tk_ID := ''task-'' @ n\<rparr>, w) else (t0, w));
          t = default_state t
      in case kv_Create s (tk_ID t) (marshal s t) w of
           (Inl e, w) \<Rightarrow> (Inl (task_failure (''teamtask: create '' @ tk_ID t @ '': '' @ kv_message e)), w)
         | (Inr _, w) \<Rightarrow> (Inr (tk_ID t), w))"

definition nats_get :: "('w, 'v) NATSStore \<Rightarrow> string \<Rightarrow> 'w \<Rightarrow> (task_error + Task \<times> nat) \<times> 'w" where
  "nats_get s i w = (case kv_Get s i w of
     (Inl ErrKeyNotFound, w) \<Rightarrow> (Inl ErrNotFound, w)
   | (Inl e, w) \<Rightarrow> (Inl (task_failure (kv_message e)), w)
   | (Inr (v, revn), w) \<Rightarrow> (case unmarshal s v of
       Inl m \<Rightarrow> (Inl (task_failure m), w)
     | Inr t \<Rightarrow> (Inr (t, revn), w)))"

definition nats_Get :: "('w, 'v) NATSStore \<Rightarrow> string \<Rightarrow> 'w \<Rightarrow> (task_error + Task) \<times> 'w" where
  "nats_Get s i w = (case nats_get s i w of (Inl e, w) \<Rightarrow> (Inl e, w) | (Inr (t, _), w) \<Rightarrow> (Inr t, w))"

fun list_loop :: "('w, 'v) NATSStore \<Rightarrow> string list \<Rightarrow> Task list \<Rightarrow> 'w \<Rightarrow> (task_error + Task list) \<times> 'w" where
  "list_loop s [] out w = (Inr out, w)"
| "list_loop s (k # ks) out w = (case nats_get s k w of
     (Inl ErrNotFound, w) \<Rightarrow> list_loop s ks out w
   | (Inl e, w) \<Rightarrow> (Inl e, w)
   | (Inr (t, _), w) \<Rightarrow> list_loop s ks (out @ [t]) w)"

definition nats_List :: "('w, 'v) NATSStore \<Rightarrow> 'w \<Rightarrow> (task_error + Task list) \<times> 'w" where
  "nats_List s w = (case kv_Keys s w of
     (Inl ErrNoKeysFound, w) \<Rightarrow> (Inr [], w)
   | (Inl e, w) \<Rightarrow> (Inl (task_failure (kv_message e)), w)
   | (Inr keys, w) \<Rightarrow> list_loop s keys [] w)"

definition by_id :: "Task list \<Rightarrow> string \<rightharpoonup> Task" where
  "by_id ts = fold (\<lambda>t m. m(tk_ID t \<mapsto> t)) ts Map.empty"

definition snapshotByID :: "('w, 'v) NATSStore \<Rightarrow> 'w \<Rightarrow> (task_error + (string \<rightharpoonup> Task)) \<times> 'w" where
  "snapshotByID s w = (case nats_List s w of (Inl e, w) \<Rightarrow> (Inl e, w) | (Inr ts, w) \<Rightarrow> (Inr (by_id ts), w))"

text \<open>The retry loops, on the number of attempts left.\<close>

fun claim_loop :: "('w, 'v) NATSStore \<Rightarrow> nat \<Rightarrow> string \<Rightarrow> string \<Rightarrow> 'w \<Rightarrow> (task_error + Task) \<times> 'w" where
  "claim_loop s 0 i owner w = (Inl ErrConflict, w)"
| "claim_loop s (Suc n) i owner w = (case nats_get s i w of
     (Inl e, w) \<Rightarrow> (Inl e, w)
   | (Inr (t, revn), w) \<Rightarrow> (case snapshotByID s w of
       (Inl e, w) \<Rightarrow> (Inl e, w)
     | (Inr byID, w) \<Rightarrow>
         if tk_State t \<noteq> TaskPending \<or> \<not> depsSatisfied t byID then (Inl ErrNotClaimable, w)
         else let t = t\<lparr>tk_State := TaskInProgress, tk_Owner := owner\<rparr>
              in case kv_Update s i (marshal s t) revn w of
                   (Inr _, w) \<Rightarrow> (Inr t, w)
                 | (Inl _, w) \<Rightarrow> claim_loop s n i owner w))"

definition nats_Claim :: "('w, 'v) NATSStore \<Rightarrow> string \<Rightarrow> string \<Rightarrow> 'w \<Rightarrow> (task_error + Task) \<times> 'w" where
  "nats_Claim s i owner w = claim_loop s casAttempts i owner w"

fun complete_loop :: "('w, 'v) NATSStore \<Rightarrow> nat \<Rightarrow> string \<Rightarrow> string \<Rightarrow> string \<Rightarrow> 'w \<Rightarrow> (task_error + unit) \<times> 'w" where
  "complete_loop s 0 i owner result w = (Inl ErrConflict, w)"
| "complete_loop s (Suc n) i owner result w = (case nats_get s i w of
     (Inl e, w) \<Rightarrow> (Inl e, w)
   | (Inr (t, revn), w) \<Rightarrow>
       if tk_State t \<noteq> TaskInProgress then (Inl ErrNotClaimable, w)
       else if tk_Owner t \<noteq> owner then (Inl ErrNotOwner, w)
       else let t = t\<lparr>tk_State := TaskCompleted, tk_Result := result\<rparr>
            in case kv_Update s i (marshal s t) revn w of
                 (Inr _, w) \<Rightarrow> (Inr (), w)
               | (Inl _, w) \<Rightarrow> complete_loop s n i owner result w)"

definition nats_Complete :: "('w, 'v) NATSStore \<Rightarrow> string \<Rightarrow> string \<Rightarrow> string \<Rightarrow> 'w \<Rightarrow> (task_error + unit) \<times> 'w" where
  "nats_Complete s i owner result w = complete_loop s casAttempts i owner result w"

subsection \<open>Histories of a task list\<close>

datatype task_event = Created string | Claimed string string | Finished string string

inductive run :: "('s \<Rightarrow> 'e \<Rightarrow> 's \<Rightarrow> bool) \<Rightarrow> 's \<Rightarrow> 'e list \<Rightarrow> 's \<Rightarrow> bool" for step where
  run_Nil [simp]: "run step s [] s"
| run_Cons: "step s e s' \<Longrightarrow> run step s' es s'' \<Longrightarrow> run step s (e # es) s''"

lemma run_append: "run step s es s' \<Longrightarrow> run step s' es' s'' \<Longrightarrow> run step s (es @ es') s''"
  by (induction rule: run.induct) (auto intro: run_Cons)

lemma run_single: "step s e s' \<Longrightarrow> run step s [e] s'"
  by (auto intro: run_Cons)

text \<open>What the life of a task may change.\<close>

definition advance :: "Task \<Rightarrow> Task \<Rightarrow> bool" where
  "advance t t' \<longleftrightarrow> t' = t
     \<or> tk_ID t' = tk_ID t \<and> tk_Title t' = tk_Title t \<and> tk_Deps t' = tk_Deps t
       \<and> (tk_State t = TaskPending \<and> tk_State t' \<in> {TaskInProgress, TaskCompleted}
          \<or> tk_State t = TaskInProgress \<and> tk_State t' = TaskCompleted \<and> tk_Owner t' = tk_Owner t)"

lemma advance_refl [simp]: "advance t t"
  by (simp add: advance_def)

lemma advance_trans: "advance t t' \<Longrightarrow> advance t' t'' \<Longrightarrow> advance t t''"
  by (auto simp: advance_def task_states)

lemma advance_completed: "advance t t' \<Longrightarrow> tk_State t = TaskCompleted \<Longrightarrow> t' = t"
  by (auto simp: advance_def task_states)

lemma deps_loop_iff: "deps_loop ds m \<longleftrightarrow> (\<forall>d \<in> set ds. \<exists>t. m d = Some t \<and> tk_State t = TaskCompleted)"
  by (induction ds) (auto split: option.split)

text \<open>
  The contract of a task list as its members see it: the events that change it, each of them
  atomic.
\<close>

locale task_history =
  fixes tasks :: "'s \<Rightarrow> string \<rightharpoonup> Task" and step :: "'s \<Rightarrow> task_event \<Rightarrow> 's \<Rightarrow> bool"
  assumes created: "step s (Created k) s' \<Longrightarrow> tasks s k = None \<and> (\<exists>t. tasks s' = (tasks s)(k \<mapsto> t))"
    and claimed: "step s (Claimed k u) s' \<Longrightarrow> \<exists>t. tasks s k = Some t \<and> tk_State t = TaskPending
      \<and> depsSatisfied t (tasks s) \<and> tasks s' = (tasks s)(k \<mapsto> t\<lparr>tk_State := TaskInProgress, tk_Owner := u\<rparr>)"
    and finished: "step s (Finished k u) s' \<Longrightarrow> \<exists>t r. tasks s k = Some t \<and> tk_State t = TaskInProgress
      \<and> tk_Owner t = u \<and> tasks s' = (tasks s)(k \<mapsto> t\<lparr>tk_State := TaskCompleted, tk_Result := r\<rparr>)"
begin

lemma step_advance:
  assumes "step s e s'" "tasks s k = Some t"
  shows "\<exists>t'. tasks s' k = Some t' \<and> advance t t'"
proof (cases e)
  case (Created j)
  with created assms show ?thesis by fastforce
next
  case (Claimed j u)
  with assms(1) claimed obtain t0 where "tasks s j = Some t0" "tk_State t0 = TaskPending"
    "tasks s' = (tasks s)(j \<mapsto> t0\<lparr>tk_State := TaskInProgress, tk_Owner := u\<rparr>)" by blast
  with assms(2) show ?thesis by (auto simp: advance_def)
next
  case (Finished j u)
  with assms(1) finished obtain t0 r where "tasks s j = Some t0" "tk_State t0 = TaskInProgress"
    "tasks s' = (tasks s)(j \<mapsto> t0\<lparr>tk_State := TaskCompleted, tk_Result := r\<rparr>)" by blast
  with assms(2) show ?thesis by (auto simp: advance_def)
qed

lemma run_advance: "run step s es s' \<Longrightarrow> tasks s k = Some t \<Longrightarrow> \<exists>t'. tasks s' k = Some t' \<and> advance t t'"
  by (induction arbitrary: t rule: run.induct) (auto dest!: step_advance intro: advance_trans)

lemma completed_stable: "run step s es s' \<Longrightarrow> tasks s k = Some t \<Longrightarrow> tk_State t = TaskCompleted \<Longrightarrow> tasks s' k = Some t"
  by (auto dest: run_advance advance_completed)

lemma deps_stable: "run step s es s' \<Longrightarrow> depsSatisfied t (tasks s) \<Longrightarrow> depsSatisfied t (tasks s')"
  unfolding depsSatisfied_def deps_loop_iff by (meson completed_stable)

lemma no_claim_after:
  "run step s es s' \<Longrightarrow> tasks s k = Some t \<Longrightarrow> tk_State t \<in> {TaskInProgress, TaskCompleted} \<Longrightarrow> Claimed k u \<notin> set es"
proof (induction arbitrary: t rule: run.induct)
  case (run_Cons s e s' es s'')
  from step_advance [OF run_Cons(1,4)] obtain t' where "tasks s' k = Some t'" "advance t t'" by blast
  with run_Cons have "Claimed k u \<notin> set es" by (auto simp: advance_def task_states)
  moreover have "e \<noteq> Claimed k u" using run_Cons(1,4,5) claimed by (fastforce simp: task_states)
  ultimately show ?case by simp
qed simp

lemma no_finish_after:
  "run step s es s' \<Longrightarrow> tasks s k = Some t \<Longrightarrow> tk_State t = TaskCompleted \<Longrightarrow> Finished k u \<notin> set es"
proof (induction arbitrary: t rule: run.induct)
  case (run_Cons s e s' es s'')
  from step_advance [OF run_Cons(1,4)] obtain t' where "tasks s' k = Some t'" "advance t t'" by blast
  with run_Cons have "Finished k u \<notin> set es" by (auto simp: advance_def task_states)
  moreover have "e \<noteq> Finished k u" using run_Cons(1,4,5) finished by (fastforce simp: task_states)
  ultimately show ?case by simp
qed simp

lemma finish_by_owner:
  "run step s es s' \<Longrightarrow> tasks s k = Some t \<Longrightarrow> tk_State t = TaskInProgress \<Longrightarrow> Finished k u \<in> set es \<Longrightarrow> u = tk_Owner t"
proof (induction arbitrary: t rule: run.induct)
  case (run_Cons s e s' es s'')
  from step_advance [OF run_Cons(1,4)] obtain t' where t': "tasks s' k = Some t'" "advance t t'" by blast
  show ?case
  proof (cases "e = Finished k u")
    case True
    with run_Cons(1,4) finished show ?thesis by fastforce
  next
    case False
    with run_Cons have fin: "Finished k u \<in> set es" by simp
    show ?thesis
    proof (cases "tk_State t' = TaskInProgress")
      case True
      with run_Cons(3) [OF t'(1) True fin] t'(2) run_Cons(5) show ?thesis by (auto simp: advance_def task_states)
    next
      case False
      with t'(2) run_Cons(5) have c: "tk_State t' = TaskCompleted" by (auto simp: advance_def)
      from run_Cons(2) t'(1) c fin show ?thesis by (blast dest: no_finish_after)
    qed
  qed
qed simp

lemma single_winner:
  "run step s es s' \<Longrightarrow> length (filter (\<lambda>e. \<exists>u. e = Claimed k u) es) \<le> 1"
proof (induction rule: run.induct)
  case (run_Cons s e s' es s'')
  show ?case
  proof (cases "\<exists>u. e = Claimed k u")
    case True
    then obtain u t where "tasks s' k = Some t" "tk_State t = TaskInProgress"
      using run_Cons(1) claimed by fastforce
    with run_Cons(2) have "\<forall>v. Claimed k v \<notin> set es" by (blast dest: no_claim_after)
    then have "filter (\<lambda>e. \<exists>u. e = Claimed k u) es = []" by (auto simp: filter_empty_conv)
    with True show ?thesis by simp
  qed (use run_Cons in simp)
qed simp

lemma winner_finishes:
  "run step s es s' \<Longrightarrow> Claimed k u \<in> set es \<Longrightarrow> Finished k v \<in> set es \<Longrightarrow> v = u"
proof (induction rule: run.induct)
  case (run_Cons s e s' es s'')
  consider (claim) "e = Claimed k u" | (fin) "e = Finished k v" | (later) "Claimed k u \<in> set es" "Finished k v \<in> set es"
    using run_Cons(4,5) by auto
  then show ?case
  proof cases
    case claim
    with run_Cons(1) claimed obtain t where "tasks s' k = Some t" "tk_State t = TaskInProgress" "tk_Owner t = u"
      by fastforce
    with run_Cons(2,5) claim finish_by_owner show ?thesis by fastforce
  next
    case fin
    with run_Cons(1) finished obtain t where "tasks s' k = Some t" "tk_State t = TaskCompleted" by fastforce
    with run_Cons(2,4) fin no_claim_after show ?thesis by fastforce
  qed (rule run_Cons.IH)
qed simp

end

text \<open>The store in memory, with every create on an identifier that is not in use.\<close>

inductive mem_step :: "MemStore \<Rightarrow> task_event \<Rightarrow> MemStore \<Rightarrow> bool" where
  mem_create: "mem_Create t m = (Inr k, m') \<Longrightarrow> ms_tasks m k = None \<Longrightarrow> mem_step m (Created k) m'"
| mem_claim: "mem_Claim k u m = (Inr t, m') \<Longrightarrow> mem_step m (Claimed k u) m'"
| mem_finish: "mem_Complete k u r m = (Inr (), m') \<Longrightarrow> mem_step m (Finished k u) m'"

lemma mem_Claim_Inr:
  "mem_Claim k u m = (Inr t', m') \<longleftrightarrow> (\<exists>t. ms_tasks m k = Some t \<and> tk_State t = TaskPending \<and> depsSatisfied t (ms_tasks m)
     \<and> t' = t\<lparr>tk_State := TaskInProgress, tk_Owner := u\<rparr> \<and> m' = m\<lparr>ms_tasks := (ms_tasks m)(k \<mapsto> t')\<rparr>)"
  by (auto simp: mem_Claim_def Let_def split: option.splits if_splits)

lemma mem_Complete_Inr:
  "mem_Complete k u r m = (Inr x, m') \<longleftrightarrow> (\<exists>t. ms_tasks m k = Some t \<and> tk_State t = TaskInProgress \<and> tk_Owner t = u
     \<and> m' = m\<lparr>ms_tasks := (ms_tasks m)(k \<mapsto> t\<lparr>tk_State := TaskCompleted, tk_Result := r\<rparr>)\<rparr>)"
  by (auto simp: mem_Complete_def Let_def split: option.splits if_splits)

lemma mem_Create_tasks: "mem_Create t m = (Inr k, m') \<Longrightarrow> \<exists>t'. ms_tasks m' = (ms_tasks m)(k \<mapsto> t')"
  by (cases "tk_ID t = []") (auto simp: mem_Create_def Let_def simp del: show_nat.simps)

interpretation memlist: task_history ms_tasks mem_step
  by unfold_locales (force elim!: mem_step.cases simp: mem_Claim_Inr mem_Complete_Inr dest: mem_Create_tasks)+

text \<open>
  The bucket.  An event of the history is one write of the server: what it leaves under the key is
  what the store in memory would leave, under a later revision.
\<close>

type_synonym 'v bucket = "string \<rightharpoonup> 'v \<times> nat"

definition tasks_of :: "('v \<Rightarrow> string + Task) \<Rightarrow> 'v bucket \<Rightarrow> string \<rightharpoonup> Task" where
  "tasks_of dec B k = (case B k of None \<Rightarrow> None | Some (v, _) \<Rightarrow> (case dec v of Inl _ \<Rightarrow> None | Inr t \<Rightarrow> Some t))"

abbreviation mem_of :: "('v \<Rightarrow> string + Task) \<Rightarrow> 'v bucket \<Rightarrow> MemStore" where
  "mem_of dec B \<equiv> \<lparr>ms_tasks = tasks_of dec B, ms_seq = 0\<rparr>"

inductive bucket_step :: "('v \<Rightarrow> string + Task) \<Rightarrow> 'v bucket \<Rightarrow> task_event \<Rightarrow> 'v bucket \<Rightarrow> bool" for dec where
  bucket_create: "B k = None \<Longrightarrow> dec v = Inr t \<Longrightarrow> tk_ID t = k \<Longrightarrow> bucket_step dec B (Created k) (B(k \<mapsto> (v, r)))"
| bucket_claim: "B k = Some (v, r) \<Longrightarrow> r < r' \<Longrightarrow> mem_Claim k u (mem_of dec B) = (Inr t', m') \<Longrightarrow> dec v' = Inr t' \<Longrightarrow>
    bucket_step dec B (Claimed k u) (B(k \<mapsto> (v', r')))"
| bucket_finish: "B k = Some (v, r) \<Longrightarrow> r < r' \<Longrightarrow> mem_Complete k u x (mem_of dec B) = (Inr (), m') \<Longrightarrow> dec v' = Inr t' \<Longrightarrow>
    ms_tasks m' k = Some t' \<Longrightarrow> bucket_step dec B (Finished k u) (B(k \<mapsto> (v', r')))"

definition bucket_wf :: "('v \<Rightarrow> string + Task) \<Rightarrow> 'v bucket \<Rightarrow> bool" where
  "bucket_wf dec B \<longleftrightarrow> (\<forall>k v r. B k = Some (v, r) \<longrightarrow> (\<exists>t. dec v = Inr t \<and> tk_ID t = k))"

lemma tasks_of_upd [simp]:
  "dec v = Inr t \<Longrightarrow> tasks_of dec (B(k \<mapsto> (v, r))) = (tasks_of dec B)(k \<mapsto> t)"
  by (auto simp: tasks_of_def)

lemma tasks_of_Some: "tasks_of dec B k = Some t \<longleftrightarrow> (\<exists>v r. B k = Some (v, r) \<and> dec v = Inr t)"
  by (auto simp: tasks_of_def split: option.splits sum.splits)

lemma tasks_of_None: "B k = None \<Longrightarrow> tasks_of dec B k = None"
  by (simp add: tasks_of_def)

interpretation kvlist: task_history "tasks_of dec" "bucket_step dec" for dec
  by unfold_locales (force elim!: bucket_step.cases simp: mem_Claim_Inr mem_Complete_Inr tasks_of_None)+

lemma bucket_step_wf: "bucket_step dec B e B' \<Longrightarrow> bucket_wf dec B \<Longrightarrow> bucket_wf dec B'"
  by (induction rule: bucket_step.induct)
    (fastforce simp: bucket_wf_def mem_Claim_Inr mem_Complete_Inr tasks_of_Some)+

lemma bucket_run_wf: "run (bucket_step dec) B es B' \<Longrightarrow> bucket_wf dec B \<Longrightarrow> bucket_wf dec B'"
  by (induction rule: run.induct) (auto dest: bucket_step_wf)

text \<open>A revision identifies a value.\<close>

lemma bucket_step_revision:
  "bucket_step dec B e B' \<Longrightarrow> B k = Some (v, r) \<Longrightarrow> \<exists>v' r'. B' k = Some (v', r') \<and> r \<le> r' \<and> (r = r' \<longrightarrow> v = v')"
  by (induction rule: bucket_step.induct) auto

lemma bucket_run_revision:
  "run (bucket_step dec) B es B' \<Longrightarrow> B k = Some (v, r) \<Longrightarrow> \<exists>v' r'. B' k = Some (v', r') \<and> r \<le> r' \<and> (r = r' \<longrightarrow> v = v')"
  by (induction arbitrary: v r rule: run.induct) (fastforce dest: bucket_step_revision)+

end
