(* ===== verification/TeamTaskBucket.thy ===== *)
theory TeamTaskBucket
  imports TeamTask
begin

section \<open>The task list on a bucket\<close>

text \<open>
  What the bucket store of \<open>nats.go\<close> guarantees its members.  Under interference each call that
  succeeds takes effect at one moment, as the operation of the store in memory; without
  interference the two stores agree on every answer.  The promises of the server and of the JSON
  codec are the predicates \<open>kv_ok\<close>, \<open>kv_quiet\<close> and \<open>codec_ok\<close>.
\<close>

subsection \<open>The bucket store under concurrent members\<close>

definition utf8_task :: "Task \<Rightarrow> bool" where
  "utf8_task t \<longleftrightarrow> utf8_Valid (tk_ID t) \<and> utf8_Valid (tk_Title t) \<and> utf8_Valid (tk_State t)
     \<and> list_all utf8_Valid (tk_Deps t) \<and> utf8_Valid (tk_Owner t) \<and> utf8_Valid (tk_Result t)"

text \<open>
  What \<open>encoding/json\<close> promises: decoding yields valid UTF-8, and on valid UTF-8 it inverts encoding.
\<close>

definition codec_ok :: "('w, 'v) NATSStore \<Rightarrow> bool" where
  "codec_ok s \<longleftrightarrow> (\<forall>t. utf8_task t \<longrightarrow> unmarshal s (marshal s t) = Inr t) \<and> (\<forall>v t. unmarshal s v = Inr t \<longrightarrow> utf8_task t)"

text \<open>
  What the server promises of a bucket whose other writers are members of the team too.  Their
  events may come before the effect of any call.  A read answers with the current entry.  A create
  takes effect only on an absent key and an update only on the revision it names, under a new
  revision; a call that fails may still have taken effect.
\<close>

definition evolves :: "('v \<Rightarrow> string + Task) \<Rightarrow> 'v bucket \<Rightarrow> 'v bucket \<Rightarrow> bool" where
  "evolves dec B B' \<longleftrightarrow> (\<exists>es. run (bucket_step dec) B es B')"

definition added :: "'v bucket \<Rightarrow> string \<Rightarrow> 'v \<Rightarrow> 'v bucket \<Rightarrow> bool" where
  "added B k v B' \<longleftrightarrow> B k = None \<and> (\<exists>n. B' = B(k \<mapsto> (v, n)))"

definition swapped :: "'v bucket \<Rightarrow> string \<Rightarrow> nat \<Rightarrow> 'v \<Rightarrow> 'v bucket \<Rightarrow> bool" where
  "swapped B k n v B' \<longleftrightarrow> (\<exists>v0 n'. B k = Some (v0, n) \<and> n < n' \<and> B' = B(k \<mapsto> (v, n')))"

definition kv_ok :: "('w, 'v) NATSStore \<Rightarrow> ('w \<Rightarrow> 'v bucket) \<Rightarrow> bool" where
  "kv_ok s bucket \<longleftrightarrow>
     (\<forall>k w r w'. kv_Get s k w = (r, w') \<longrightarrow> evolves (unmarshal s) (bucket w) (bucket w') \<and> (\<forall>x. r = Inr x \<longrightarrow> bucket w' k = Some x))
   \<and> (\<forall>w r w'. kv_Keys s w = (r, w') \<longrightarrow> evolves (unmarshal s) (bucket w) (bucket w'))
   \<and> (\<forall>w x w'. nuid_Next s w = (x, w') \<longrightarrow> evolves (unmarshal s) (bucket w) (bucket w'))
   \<and> (\<forall>k v w r w'. kv_Create s k v w = (r, w') \<longrightarrow>
        (\<exists>B. evolves (unmarshal s) (bucket w) B \<and> (isl r \<and> bucket w' = B \<or> added B k v (bucket w'))))
   \<and> (\<forall>k v n w r w'. kv_Update s k v n w = (r, w') \<longrightarrow>
        (\<exists>B. evolves (unmarshal s) (bucket w) B \<and> (isl r \<and> bucket w' = B \<or> swapped B k n v (bucket w'))))"

lemma kv_okD:
  assumes "kv_ok s bucket"
  shows "kv_Get s k w = (r, w') \<Longrightarrow> evolves (unmarshal s) (bucket w) (bucket w')"
    and "kv_Get s k w = (Inr x, w') \<Longrightarrow> bucket w' k = Some x"
    and "kv_Keys s w = (rk, w') \<Longrightarrow> evolves (unmarshal s) (bucket w) (bucket w')"
    and "nuid_Next s w = (y, w') \<Longrightarrow> evolves (unmarshal s) (bucket w) (bucket w')"
    and "kv_Create s k v w = (rc, w') \<Longrightarrow> \<exists>B. evolves (unmarshal s) (bucket w) B \<and> (isl rc \<and> bucket w' = B \<or> added B k v (bucket w'))"
    and "kv_Update s k v n w = (ru, w') \<Longrightarrow> \<exists>B. evolves (unmarshal s) (bucket w) B \<and> (isl ru \<and> bucket w' = B \<or> swapped B k n v (bucket w'))"
  using assms by (cases x; simp add: kv_ok_def)+

lemma evolves_refl [simp]: "evolves dec B B"
  unfolding evolves_def by (rule exI [of _ "[]"]) simp

lemma evolves_trans [trans]: "evolves dec B B' \<Longrightarrow> evolves dec B' B'' \<Longrightarrow> evolves dec B B''"
  unfolding evolves_def by (elim exE) (rule exI, rule run_append)

lemma evolves_step: "bucket_step dec B e B' \<Longrightarrow> evolves dec B B'"
  unfolding evolves_def by (rule exI, rule run_single)

lemma evolves_wf: "evolves dec B B' \<Longrightarrow> bucket_wf dec B \<Longrightarrow> bucket_wf dec B'"
  unfolding evolves_def by (elim exE) (rule bucket_run_wf)

lemma evolves_same_revision:
  assumes "evolves dec B B'" "B k = Some (v, r)" "B' k = Some (v', r)"
  shows "v' = v"
proof -
  from assms(1) obtain es where "run (bucket_step dec) B es B'" by (auto simp: evolves_def)
  from bucket_run_revision [OF this assms(2)] assms(3) show ?thesis by auto
qed

lemma evolves_completed:
  "evolves dec B B' \<Longrightarrow> tasks_of dec B k = Some t \<Longrightarrow> tk_State t = TaskCompleted \<Longrightarrow> tasks_of dec B' k = Some t"
  unfolding evolves_def by (auto intro: kvlist.completed_stable)

lemma evolves_deps: "evolves dec B B' \<Longrightarrow> depsSatisfied t (tasks_of dec B) \<Longrightarrow> depsSatisfied t (tasks_of dec B')"
  unfolding evolves_def by (auto intro: kvlist.deps_stable)

lemma nats_get_evolves:
  assumes "kv_ok s bucket" "nats_get s k w = (r, w')"
  shows "evolves (unmarshal s) (bucket w) (bucket w')"
    and "r = Inr (t, n) \<Longrightarrow> \<exists>v. bucket w' k = Some (v, n) \<and> unmarshal s v = Inr t"
proof -
  obtain g w1 where g: "kv_Get s k w = (g, w1)" by fastforce
  with assms(2) have "w' = w1"
    by (auto simp: nats_get_def split: sum.splits kv_error.splits)
  with kv_okD(1) [OF assms(1) g] show "evolves (unmarshal s) (bucket w) (bucket w')" by simp
  show "\<exists>v. bucket w' k = Some (v, n) \<and> unmarshal s v = Inr t" if "r = Inr (t, n)"
    using assms(2) g that kv_okD(2) [OF assms(1)]
    by (auto simp: nats_get_def split: sum.splits kv_error.splits)
qed

definition seen :: "('v \<Rightarrow> string + Task) \<Rightarrow> 'v bucket \<Rightarrow> Task list \<Rightarrow> bool" where
  "seen dec B ts \<longleftrightarrow> (\<forall>t\<in>set ts. tk_State t = TaskCompleted \<longrightarrow> tasks_of dec B (tk_ID t) = Some t)"

lemma seen_stable: "evolves dec B B' \<Longrightarrow> seen dec B ts \<Longrightarrow> seen dec B' ts"
  by (simp add: seen_def evolves_completed)

lemma list_loop_seen:
  assumes "kv_ok s bucket" "list_loop s ks out w = (r, w')" "bucket_wf (unmarshal s) (bucket w)" "seen (unmarshal s) (bucket w) out"
  shows "evolves (unmarshal s) (bucket w) (bucket w') \<and> (\<forall>ts. r = Inr ts \<longrightarrow> seen (unmarshal s) (bucket w') ts)"
  using assms(2-)
proof (induction ks arbitrary: out w)
  case Nil
  then show ?case by auto
next
  case (Cons k ks)
  obtain g w1 where g: "nats_get s k w = (g, w1)" by fastforce
  note ev = nats_get_evolves(1) [OF assms(1) g]
  have wf1: "bucket_wf (unmarshal s) (bucket w1)" by (rule evolves_wf [OF ev Cons.prems(2)])
  have out1: "seen (unmarshal s) (bucket w1) out" by (rule seen_stable [OF ev Cons.prems(3)])
  consider (found) t n where "g = Inr (t, n)" | (missing) "g = Inl ErrNotFound" | (failed) e where "g = Inl e" "e \<noteq> ErrNotFound"
    by (cases g) auto
  then show ?case
  proof cases
    case found
    then obtain v where v: "bucket w1 k = Some (v, n)" "unmarshal s v = Inr t" using nats_get_evolves(2) [OF assms(1) g] by blast
    with wf1 have "tk_ID t = k" by (fastforce simp: bucket_wf_def)
    with v out1 have o2: "seen (unmarshal s) (bucket w1) (out @ [t])" by (simp add: seen_def tasks_of_def)
    have "list_loop s ks (out @ [t]) w1 = (r, w')" using Cons.prems(1) g found by simp
    from Cons.IH [OF this wf1 o2] ev show ?thesis by (blast intro: evolves_trans)
  next
    case missing
    have "list_loop s ks out w1 = (r, w')" using Cons.prems(1) g missing by simp
    from Cons.IH [OF this wf1 out1] ev show ?thesis by (blast intro: evolves_trans)
  next
    case failed
    with Cons.prems(1) g have "r = Inl e" "w' = w1" by (cases e; simp)+
    with ev show ?thesis by auto
  qed
qed

lemma by_id_Some: "by_id ts d = Some t \<Longrightarrow> t \<in> set ts \<and> tk_ID t = d"
proof -
  have "fold (\<lambda>t m. m(tk_ID t \<mapsto> t)) ts m d = Some t \<Longrightarrow> m d = Some t \<or> t \<in> set ts \<and> tk_ID t = d" for m :: "string \<rightharpoonup> Task"
    by (induction ts arbitrary: m) (fastforce split: if_splits)+
  then show "by_id ts d = Some t \<Longrightarrow> t \<in> set ts \<and> tk_ID t = d" by (fastforce simp: by_id_def)
qed

lemma snapshot_evolves:
  assumes "kv_ok s bucket" "snapshotByID s w = (r, w')" "bucket_wf (unmarshal s) (bucket w)"
  shows "evolves (unmarshal s) (bucket w) (bucket w')"
    and "r = Inr byID \<Longrightarrow> depsSatisfied t byID \<Longrightarrow> depsSatisfied t (tasks_of (unmarshal s) (bucket w'))"
proof -
  obtain g w1 where g: "kv_Keys s w = (g, w1)" by fastforce
  note ev = kv_okD(3) [OF assms(1) g]
  obtain l w2 where l: "nats_List s w = (l, w2)" by fastforce
  have w2: "w2 = w'" and rl: "r = Inr byID \<Longrightarrow> \<exists>ts. l = Inr ts \<and> byID = by_id ts"
    using assms(2) l by (auto simp: snapshotByID_def split: sum.splits)
  have L: "evolves (unmarshal s) (bucket w) (bucket w') \<and> (\<forall>ts. l = Inr ts \<longrightarrow> seen (unmarshal s) (bucket w') ts)"
  proof (cases g)
    case (Inr ks)
    with l g w2 have "list_loop s ks [] w1 = (l, w')" by (simp add: nats_List_def)
    from list_loop_seen [OF assms(1) this evolves_wf [OF ev assms(3)]] ev show ?thesis
      by (auto simp: seen_def intro: evolves_trans)
  next
    case (Inl e)
    with l g w2 have "w' = w1" "l = Inr [] \<or> isl l" by (cases e; auto simp: nats_List_def)+
    with ev show ?thesis by (auto simp: seen_def)
  qed
  then show "evolves (unmarshal s) (bucket w) (bucket w')" by blast
  show "depsSatisfied t (tasks_of (unmarshal s) (bucket w'))" if "r = Inr byID" "depsSatisfied t byID"
    using L rl [OF that(1)] that(2) unfolding depsSatisfied_def deps_loop_iff seen_def by (metis by_id_Some)
qed


lemma utf8_states: "utf8_Valid TaskPending" "utf8_Valid TaskInProgress" "utf8_Valid TaskCompleted"
  by (code_simp, code_simp, code_simp)

lemma codec_claim:
  assumes "codec_ok s" "unmarshal s v = Inr t" "utf8_Valid u"
  shows "unmarshal s (marshal s (t\<lparr>tk_State := TaskInProgress, tk_Owner := u\<rparr>)) = Inr (t\<lparr>tk_State := TaskInProgress, tk_Owner := u\<rparr>)"
    and "unmarshal s (marshal s (t\<lparr>tk_State := TaskCompleted, tk_Result := u\<rparr>)) = Inr (t\<lparr>tk_State := TaskCompleted, tk_Result := u\<rparr>)"
  using assms by (simp_all add: codec_ok_def utf8_task_def utf8_states)

text \<open>
  What an operation leaves: the bucket has evolved, and where it succeeded its last event is the
  operation of the store in memory, on the tasks of that moment.
\<close>

definition took_effect ::
  "('v \<Rightarrow> string + Task) \<Rightarrow> (MemStore \<Rightarrow> 'r \<times> MemStore) \<Rightarrow> task_event \<Rightarrow> 'r \<Rightarrow> 'v bucket \<Rightarrow> 'v bucket \<Rightarrow> bool" where
  "took_effect dec f e r B0 B' \<longleftrightarrow> (\<exists>B. evolves dec B0 B \<and> bucket_step dec B e B'
     \<and> f (mem_of dec B) = (r, mem_of dec B'))"

lemma took_effect_after: "evolves dec B0 B1 \<Longrightarrow> took_effect dec f e r B1 B' \<Longrightarrow> took_effect dec f e r B0 B'"
  unfolding took_effect_def using evolves_trans by metis

lemma took_effect_evolves: "took_effect dec f e r B0 B' \<Longrightarrow> evolves dec B0 B'"
  unfolding took_effect_def by (auto intro: evolves_trans evolves_step)

lemma swapped_claim:
  assumes "swapped B k n v' B'" "evolves dec B1 B" "B1 k = Some (v, n)" "dec v = Inr t" "tk_State t = TaskPending"
    "depsSatisfied t (tasks_of dec B)" "dec v' = Inr (t\<lparr>tk_State := TaskInProgress, tk_Owner := u\<rparr>)"
  shows "took_effect dec (mem_Claim k u) (Claimed k u) (Inr (t\<lparr>tk_State := TaskInProgress, tk_Owner := u\<rparr>)) B B'"
proof -
  from assms(1) obtain v0 n' where B: "B k = Some (v0, n)" "n < n'" "B' = B(k \<mapsto> (v', n'))" by (auto simp: swapped_def)
  with evolves_same_revision [OF assms(2,3)] have "v0 = v" by blast
  with B assms(4) have t: "tasks_of dec B k = Some t" by (simp add: tasks_of_def)
  have c: "mem_Claim k u (mem_of dec B) = (Inr (t\<lparr>tk_State := TaskInProgress, tk_Owner := u\<rparr>), mem_of dec B')"
    using t assms(5-7) B(3) by (simp add: mem_Claim_Inr)
  have "bucket_step dec B (Claimed k u) B'" unfolding B(3) by (rule bucket_claim [OF B(1,2) c assms(7)])
  with c show ?thesis unfolding took_effect_def using evolves_refl by metis
qed

lemma swapped_finish:
  assumes "swapped B k n v' B'" "evolves dec B1 B" "B1 k = Some (v, n)" "dec v = Inr t" "tk_State t = TaskInProgress"
    "tk_Owner t = u" "dec v' = Inr (t\<lparr>tk_State := TaskCompleted, tk_Result := x\<rparr>)"
  shows "took_effect dec (mem_Complete k u x) (Finished k u) (Inr ()) B B'"
proof -
  from assms(1) obtain v0 n' where B: "B k = Some (v0, n)" "n < n'" "B' = B(k \<mapsto> (v', n'))" by (auto simp: swapped_def)
  with evolves_same_revision [OF assms(2,3)] have "v0 = v" by blast
  with B assms(4) have t: "tasks_of dec B k = Some t" by (simp add: tasks_of_def)
  have c: "mem_Complete k u x (mem_of dec B) = (Inr (), mem_of dec B')"
    using t assms(5-7) B(3) by (simp add: mem_Complete_Inr)
  have "bucket_step dec B (Finished k u) B'" unfolding B(3)
    by (rule bucket_finish [OF B(1,2) c assms(7)]) (simp add: B(3) assms(7))
  with c show ?thesis unfolding took_effect_def using evolves_refl by metis
qed

lemma claim_loop_effect:
  assumes ok: "kv_ok s bucket" "codec_ok s" "utf8_Valid u"
    and "bucket_wf (unmarshal s) (bucket w)" "claim_loop s m i u w = (r, w')"
  shows "evolves (unmarshal s) (bucket w) (bucket w')
    \<and> (\<forall>t. r = Inr t \<longrightarrow> took_effect (unmarshal s) (mem_Claim i u) (Claimed i u) (Inr t) (bucket w) (bucket w'))"
  using assms(4,5)
proof (induction m arbitrary: w)
  case (Suc m)
  obtain g w1 where g: "nats_get s i w = (g, w1)" by fastforce
  note ev1 = nats_get_evolves(1) [OF ok(1) g]
  note wf1 = evolves_wf [OF ev1 Suc.prems(1)]
  obtain p w2 where p: "snapshotByID s w1 = (p, w2)" by fastforce
  note ev2 = snapshot_evolves(1) [OF ok(1) p wf1]
  consider (stop) "isl r" "w' = w1 \<or> w' = w2"
    | (swap) t n byID where "g = Inr (t, n)" "p = Inr byID" "tk_State t = TaskPending" "depsSatisfied t byID"
    using Suc.prems(2) g p by (fastforce split: sum.splits if_splits)
  then show ?case
  proof cases
    case stop
    with ev1 ev2 show ?thesis by (auto intro: evolves_trans)
  next
    case swap
    let ?t = "t\<lparr>tk_State := TaskInProgress, tk_Owner := u\<rparr>"
    obtain q w3 where q: "kv_Update s i (marshal s ?t) n w2 = (q, w3)" by fastforce
    obtain B where B: "evolves (unmarshal s) (bucket w2) B" "isl q \<and> bucket w3 = B \<or> swapped B i n (marshal s ?t) (bucket w3)"
      using kv_okD(6) [OF ok(1) q] by blast
    obtain v where v: "bucket w1 i = Some (v, n)" "unmarshal s v = Inr t"
      using nats_get_evolves(2) [OF ok(1) g swap(1)] by blast
    have dep: "depsSatisfied t (tasks_of (unmarshal s) B)"
      by (rule evolves_deps [OF B(1) snapshot_evolves(2) [OF ok(1) p wf1 swap(2,4)]])
    have ev: "evolves (unmarshal s) (bucket w) B" by (rule evolves_trans [OF ev1 evolves_trans [OF ev2 B(1)]])
    have eff: "swapped B i n (marshal s ?t) (bucket w3) \<Longrightarrow>
        took_effect (unmarshal s) (mem_Claim i u) (Claimed i u) (Inr ?t) (bucket w) (bucket w3)"
      by (rule took_effect_after [OF ev swapped_claim [OF _ evolves_trans [OF ev2 B(1)] v swap(3) dep codec_claim(1) [OF ok(2) v(2) ok(3)]]])
    then have ev3: "evolves (unmarshal s) (bucket w) (bucket w3)" using B(2) ev took_effect_evolves by metis
    show ?thesis
    proof (cases q)
      case (Inr x)
      with Suc.prems(2) g p swap q have "r = Inr ?t" "w' = w3" by simp_all
      with Inr B(2) eff ev3 show ?thesis by simp
    next
      case (Inl x)
      with Suc.prems(2) g p swap q have "claim_loop s m i u w3 = (r, w')" by simp
      from Suc.IH [OF evolves_wf [OF ev3 Suc.prems(1)] this] ev3 show ?thesis
        using evolves_trans took_effect_after by metis
    qed
  qed
qed auto

lemma complete_loop_effect:
  assumes ok: "kv_ok s bucket" "codec_ok s" "utf8_Valid x" and "complete_loop s m i u x w = (r, w')"
  shows "evolves (unmarshal s) (bucket w) (bucket w')
    \<and> (r = Inr () \<longrightarrow> took_effect (unmarshal s) (mem_Complete i u x) (Finished i u) (Inr ()) (bucket w) (bucket w'))"
  using assms(4)
proof (induction m arbitrary: w)
  case (Suc m)
  obtain g w1 where g: "nats_get s i w = (g, w1)" by fastforce
  note ev1 = nats_get_evolves(1) [OF ok(1) g]
  consider (stop) "isl r" "w' = w1" | (swap) t n where "g = Inr (t, n)" "tk_State t = TaskInProgress" "tk_Owner t = u"
    using Suc.prems g by (fastforce split: sum.splits if_splits)
  then show ?case
  proof cases
    case stop
    with ev1 show ?thesis by auto
  next
    case swap
    let ?t = "t\<lparr>tk_State := TaskCompleted, tk_Result := x\<rparr>"
    obtain q w3 where q: "kv_Update s i (marshal s ?t) n w1 = (q, w3)" by fastforce
    obtain B where B: "evolves (unmarshal s) (bucket w1) B" "isl q \<and> bucket w3 = B \<or> swapped B i n (marshal s ?t) (bucket w3)"
      using kv_okD(6) [OF ok(1) q] by blast
    obtain v where v: "bucket w1 i = Some (v, n)" "unmarshal s v = Inr t"
      using nats_get_evolves(2) [OF ok(1) g swap(1)] by blast
    have ev: "evolves (unmarshal s) (bucket w) B" by (rule evolves_trans [OF ev1 B(1)])
    have eff: "swapped B i n (marshal s ?t) (bucket w3) \<Longrightarrow>
        took_effect (unmarshal s) (mem_Complete i u x) (Finished i u) (Inr ()) (bucket w) (bucket w3)"
      by (rule took_effect_after [OF ev swapped_finish [OF _ B(1) v swap(2,3) codec_claim(2) [OF ok(2) v(2) ok(3)]]])
    then have ev3: "evolves (unmarshal s) (bucket w) (bucket w3)" using B(2) ev took_effect_evolves by metis
    show ?thesis
    proof (cases q)
      case (Inr y)
      with Suc.prems g swap q have "w' = w3" by simp
      with Inr B(2) eff ev3 show ?thesis by simp
    next
      case (Inl y)
      with Suc.prems g swap q have "complete_loop s m i u x w3 = (r, w')" by simp
      from Suc.IH [OF this] ev3 show ?thesis using evolves_trans took_effect_after by metis
    qed
  qed
qed auto


subsection \<open>The bucket store without interference\<close>

definition kv_quiet :: "('w, 'v) NATSStore \<Rightarrow> ('w \<Rightarrow> 'v bucket) \<Rightarrow> bool" where
  "kv_quiet s bucket \<longleftrightarrow>
     (\<forall>k w. kv_Get s k w = (case bucket w k of None \<Rightarrow> Inl ErrKeyNotFound | Some x \<Rightarrow> Inr x, w))
   \<and> (\<forall>w. \<exists>ks. set ks = dom (bucket w) \<and> kv_Keys s w = (if ks = [] then Inl ErrNoKeysFound else Inr ks, w))
   \<and> (\<forall>k v n w v0. bucket w k = Some (v0, n) \<longrightarrow>
        (\<exists>n' w'. kv_Update s k v n w = (Inr n', w') \<and> bucket w' = (bucket w)(k \<mapsto> (v, n'))))"

lemma by_id_map:
  assumes "\<forall>k\<in>set ks. tk_ID (f k) = k"
  shows "by_id (map f ks) = (\<lambda>d. if d \<in> set ks then Some (f d) else None)"
proof -
  have "fold (\<lambda>t m. m(tk_ID t \<mapsto> t)) (map f ks) m = (\<lambda>d. if d \<in> set ks then Some (f d) else m d)" for m
    using assms by (induction ks arbitrary: m) (auto simp: fun_eq_iff)
  then show ?thesis by (simp add: by_id_def)
qed

lemma quiet_get:
  assumes "kv_quiet s bucket" "bucket_wf (unmarshal s) (bucket w)"
  shows "nats_get s k w = (case bucket w k of None \<Rightarrow> Inl ErrNotFound
     | Some (v, n) \<Rightarrow> Inr (the (tasks_of (unmarshal s) (bucket w) k), n), w)"
proof (cases "bucket w k")
  case (Some x)
  obtain v n where x: "x = (v, n)" by fastforce
  from assms(2) Some x obtain t where "unmarshal s v = Inr t" by (fastforce simp: bucket_wf_def)
  with Some x assms(1) show ?thesis by (simp add: kv_quiet_def nats_get_def tasks_of_def)
qed (use assms(1) in \<open>simp add: kv_quiet_def nats_get_def\<close>)

lemma quiet_list:
  assumes "kv_quiet s bucket" "bucket_wf (unmarshal s) (bucket w)" "set ks \<subseteq> dom (bucket w)"
  shows "list_loop s ks out w = (Inr (out @ map (\<lambda>k. the (tasks_of (unmarshal s) (bucket w) k)) ks), w)"
  using assms(3)
proof (induction ks arbitrary: out)
  case (Cons k ks)
  then obtain v n where "bucket w k = Some (v, n)" by fastforce
  with Cons show ?case by (simp add: quiet_get [OF assms(1,2)])
qed simp

lemma quiet_snapshot:
  assumes "kv_quiet s bucket" "bucket_wf (unmarshal s) (bucket w)"
  shows "snapshotByID s w = (Inr (tasks_of (unmarshal s) (bucket w)), w)"
proof -
  let ?T = "tasks_of (unmarshal s) (bucket w)"
  from assms(1) obtain ks where ks: "set ks = dom (bucket w)" "kv_Keys s w = (if ks = [] then Inl ErrNoKeysFound else Inr ks, w)"
    unfolding kv_quiet_def by metis
  have dom: "\<exists>t. ?T k = Some t \<and> tk_ID t = k" if "k \<in> set ks" for k
    using that ks(1) assms(2) by (fastforce simp: bucket_wf_def tasks_of_def)
  have "by_id (map (\<lambda>k. the (?T k)) ks) = (\<lambda>d. if d \<in> set ks then Some (the (?T d)) else None)"
    using dom by (intro by_id_map ballI) (metis option.sel)
  also have "\<dots> = ?T"
  proof (rule ext)
    fix d
    have "d \<notin> set ks \<Longrightarrow> bucket w d = None" using ks(1) by (metis domIff)
    then show "(if d \<in> set ks then Some (the (?T d)) else None) = ?T d"
      using dom [of d] by (cases "d \<in> set ks") (auto simp: tasks_of_None)
  qed
  finally have "by_id (map (\<lambda>k. the (?T k)) ks) = ?T" .
  moreover have "nats_List s w = (Inr (map (\<lambda>k. the (?T k)) ks), w)"
    using ks quiet_list [OF assms, of ks "[]"] by (cases ks) (simp_all add: nats_List_def)
  ultimately show ?thesis by (simp add: snapshotByID_def)
qed

lemma quiet_update:
  assumes "kv_quiet s bucket" "bucket w k = Some (v0, n)"
  obtains n' w' where "kv_Update s k v n w = (Inr n', w')" "bucket w' = (bucket w)(k \<mapsto> (v, n'))"
  using assms unfolding kv_quiet_def by metis

lemma wf_task:
  assumes "bucket_wf dec B" "B k = Some (v, n)"
  obtains t where "dec v = Inr t" "tasks_of dec B k = Some t"
  using assms by (fastforce simp: bucket_wf_def tasks_of_def)

lemma quiet_Claim:
  assumes q: "kv_quiet s bucket" "bucket_wf (unmarshal s) (bucket w)" and c: "codec_ok s" "utf8_Valid u"
  shows "\<exists>w'. nats_Claim s i u w = (fst (mem_Claim i u (mem_of (unmarshal s) (bucket w))), w')
     \<and> mem_of (unmarshal s) (bucket w') = snd (mem_Claim i u (mem_of (unmarshal s) (bucket w)))"
proof (cases "bucket w i")
  case None
  then show ?thesis
    by (simp add: nats_Claim_def casAttempts_def eval_nat_numeral quiet_get [OF q] mem_Claim_def tasks_of_None)
next
  case (Some x)
  obtain v n where x: "bucket w i = Some (v, n)" using Some by (cases x) simp
  obtain t where t: "unmarshal s v = Inr t" "tasks_of (unmarshal s) (bucket w) i = Some t" by (rule wf_task [OF q(2) x])
  let ?t = "t\<lparr>tk_State := TaskInProgress, tk_Owner := u\<rparr>"
  obtain n' w' where u: "kv_Update s i (marshal s ?t) n w = (Inr n', w')" "bucket w' = (bucket w)(i \<mapsto> (marshal s ?t, n'))"
    by (rule quiet_update [OF q(1) x])
  show ?thesis
    using codec_claim(1) [OF c(1) t(1) c(2)] x t u
    by (simp add: nats_Claim_def casAttempts_def eval_nat_numeral quiet_get [OF q] quiet_snapshot [OF q] mem_Claim_def Let_def)
qed

lemma quiet_Complete:
  assumes q: "kv_quiet s bucket" "bucket_wf (unmarshal s) (bucket w)" and c: "codec_ok s" "utf8_Valid y"
  shows "\<exists>w'. nats_Complete s i u y w = (fst (mem_Complete i u y (mem_of (unmarshal s) (bucket w))), w')
     \<and> mem_of (unmarshal s) (bucket w') = snd (mem_Complete i u y (mem_of (unmarshal s) (bucket w)))"
proof (cases "bucket w i")
  case None
  then show ?thesis
    by (simp add: nats_Complete_def casAttempts_def eval_nat_numeral quiet_get [OF q] mem_Complete_def tasks_of_None)
next
  case (Some x)
  obtain v n where x: "bucket w i = Some (v, n)" using Some by (cases x) simp
  obtain t where t: "unmarshal s v = Inr t" "tasks_of (unmarshal s) (bucket w) i = Some t" by (rule wf_task [OF q(2) x])
  let ?t = "t\<lparr>tk_State := TaskCompleted, tk_Result := y\<rparr>"
  obtain n' w' where u: "kv_Update s i (marshal s ?t) n w = (Inr n', w')" "bucket w' = (bucket w)(i \<mapsto> (marshal s ?t, n'))"
    by (rule quiet_update [OF q(1) x])
  show ?thesis
    using codec_claim(2) [OF c(1) t(1) c(2)] x t u
    by (simp add: nats_Complete_def casAttempts_def eval_nat_numeral quiet_get [OF q] mem_Complete_def Let_def)
qed

lemma took_effect_run: "took_effect dec f e r B0 B' \<Longrightarrow> \<exists>es. run (bucket_step dec) B0 (es @ [e]) B'"
  unfolding took_effect_def evolves_def
proof (elim exE conjE)
  fix B es
  assume "run (bucket_step dec) B0 es B" "bucket_step dec B e B'"
  then show "\<exists>es. run (bucket_step dec) B0 (es @ [e]) B'"
    by (intro exI [of _ es]) (rule run_append, assumption, rule run_single [of "bucket_step dec"])
qed

subsection \<open>Properties of the task lists\<close>


text \<open>
  Claim C30.  A member whose Claim succeeds is the only one to win the task, whatever the others
  do meanwhile and afterwards: no claim of another member takes effect while the call runs or
  after it, no later call of Claim succeeds, and only the winner finishes the task, be it by a
  write of the history or by a call of Complete.
\<close>

theorem nats_single_winner:
  assumes "kv_ok s bucket" "codec_ok s" "bucket_wf (unmarshal s) (bucket w)" "utf8_Valid u"
    and "nats_Claim s i u w = (Inr t, w1)" "run (bucket_step (unmarshal s)) (bucket w1) es (bucket w2)"
  shows "\<exists>es0. run (bucket_step (unmarshal s)) (bucket w) (es0 @ [Claimed i u]) (bucket w1)
    \<and> (\<forall>v. Claimed i v \<notin> set (es0 @ es)) \<and> (\<forall>v. Finished i v \<in> set es \<longrightarrow> v = u)
    \<and> (\<forall>v t' w3. utf8_Valid v \<longrightarrow> nats_Claim s i v w2 \<noteq> (Inr t', w3))
    \<and> (\<forall>v x w3. utf8_Valid x \<longrightarrow> nats_Complete s i v x w2 = (Inr (), w3) \<longrightarrow> v = u)"
proof -
  have claim: "\<exists>es. run (bucket_step (unmarshal s)) (bucket w') (es @ [Claimed i v]) (bucket w'')"
    if "utf8_Valid v" "bucket_wf (unmarshal s) (bucket w')" "nats_Claim s i v w' = (Inr t', w'')" for v t' w' w''
    by (rule took_effect_run [of _ "mem_Claim i v" _ "Inr t'"])
       (use claim_loop_effect [OF assms(1,2) that(1,2), of casAttempts i] that(3) in \<open>simp add: nats_Claim_def\<close>)
  have finish: "\<exists>es. run (bucket_step (unmarshal s)) (bucket w') (es @ [Finished i v]) (bucket w'')"
    if "utf8_Valid x" "nats_Complete s i v x w' = (Inr (), w'')" for v x w' w''
    by (rule took_effect_run [of _ "mem_Complete i v x" _ "Inr ()"])
       (use complete_loop_effect [OF assms(1,2) that(1), of casAttempts i v w'] that(2) in \<open>simp add: nats_Complete_def\<close>)
  obtain es0 where r0: "run (bucket_step (unmarshal s)) (bucket w) (es0 @ [Claimed i u]) (bucket w1)"
    using claim [OF assms(4,3,5)] by blast
  note r = run_append [OF r0 assms(6)]
  have wf2: "bucket_wf (unmarshal s) (bucket w2)" by (rule bucket_run_wf [OF r assms(3)])
  have "Claimed i v \<notin> set (es0 @ es)" for v
    using kvlist.single_winner [OF r, of i] by (auto simp: filter_empty_conv)
  moreover have "v = u" if "Finished i v \<in> set es" for v
    using kvlist.winner_finishes [OF r, of i u v] that by simp
  moreover have False if v: "utf8_Valid v" and c: "nats_Claim s i v w2 = (Inr t', w3)" for v t' w3
  proof -
    obtain es' where "run (bucket_step (unmarshal s)) (bucket w2) (es' @ [Claimed i v]) (bucket w3)"
      using claim [OF v wf2 c] by blast
    from kvlist.single_winner [OF run_append [OF r this], of i] show False by simp
  qed
  moreover have "v = u" if x: "utf8_Valid x" and c: "nats_Complete s i v x w2 = (Inr (), w3)" for v x w3
  proof -
    obtain es' where "run (bucket_step (unmarshal s)) (bucket w2) (es' @ [Finished i v]) (bucket w3)"
      using finish [OF x c] by blast
    from kvlist.winner_finishes [OF run_append [OF r this], of i u v] show ?thesis by simp
  qed
  ultimately show ?thesis using r0 by blast
qed

text \<open>
  Claim C31.  Without interference the bucket store behaves exactly as the store in memory: Claim
  and Complete return, with the same answer, and leave the same tasks.  In particular a pending
  task whose dependencies are completed is claimed.
\<close>

theorem nats_refines_mem:
  assumes "kv_quiet s bucket" "bucket_wf (unmarshal s) (bucket w)" "codec_ok s" "utf8_Valid u" "utf8_Valid x"
  shows "(\<exists>w'. nats_Claim s i u w = (fst (mem_Claim i u (mem_of (unmarshal s) (bucket w))), w')
       \<and> mem_of (unmarshal s) (bucket w') = snd (mem_Claim i u (mem_of (unmarshal s) (bucket w))))
    \<and> (\<exists>w'. nats_Complete s i u x w = (fst (mem_Complete i u x (mem_of (unmarshal s) (bucket w))), w')
       \<and> mem_of (unmarshal s) (bucket w') = snd (mem_Complete i u x (mem_of (unmarshal s) (bucket w))))"
  using quiet_Claim [OF assms(1-4)] quiet_Complete [OF assms(1-3,5)] by blast

text \<open>
  The store in memory has no guard on create: creating a task under the identifier of
  a claimed one reopens it, and a second member wins it.
\<close>

lemma mem_Create_reopens:
  assumes "mem_Claim i a m = (Inr t, m1)" "i \<noteq> []" "tk_ID t = i"
  shows "\<exists>m2 t' m3. mem_Create (t\<lparr>tk_State := [], tk_Deps := []\<rparr>) m1 = (Inr i, m2) \<and> mem_Claim i b m2 = (Inr t', m3)"
  using assms by (auto simp: mem_Create_def default_state_def mem_Claim_Inr depsSatisfied_def)


text \<open>A server with one client: its entries, the latest first.\<close>

definition demo_kv :: "((string \<times> Task \<times> nat) list, Task) NATSStore" where
  "demo_kv = \<lparr>
     kv_Get = (\<lambda>k w. (case map_of w k of None \<Rightarrow> Inl ErrKeyNotFound | Some x \<Rightarrow> Inr x, w)),
     kv_Create = (\<lambda>k v w. if map_of w k = None then (Inr 1, (k, v, 1) # w) else (Inl (kv_failure ''key exists''), w)),
     kv_Update = (\<lambda>k v n w. case map_of w k of
        Some (_, n') \<Rightarrow> if n' = n then (Inr (n + 1), (k, v, n + 1) # w) else (Inl (kv_failure ''wrong last sequence''), w)
      | None \<Rightarrow> (Inl (kv_failure ''wrong last sequence''), w)),
     kv_Keys = (\<lambda>w. (if w = [] then Inl ErrNoKeysFound else Inr (map fst w), w)),
     marshal = id, unmarshal = (\<lambda>t. if utf8_task t then Inr t else Inl ''invalid UTF-8''),
     nuid_Next = Pair ''n''\<rparr>"

definition demo_task :: "string \<Rightarrow> string list \<Rightarrow> string \<Rightarrow> Task" where
  "demo_task i ds st = \<lparr>tk_ID = i, tk_Title = ''t'', tk_State = st, tk_Deps = ds, tk_Owner = [], tk_Result = []\<rparr>"

definition demo_world :: "(string \<times> Task \<times> nat) list" where
  "demo_world = [(''b'', demo_task ''b'' [''a''] TaskPending, 1), (''a'', demo_task ''a'' [] TaskCompleted, 2)]"

lemma swapped_Suc: "B k = Some (v0, n) \<Longrightarrow> swapped B k n v (B(k \<mapsto> (v, Suc n)))"
  unfolding swapped_def by (intro exI conjI) (assumption, rule lessI, rule refl)

lemma demo_kv_ok: "kv_ok demo_kv map_of"
  unfolding kv_ok_def
proof (intro conjI allI impI, goal_cases)
  case (1 k w r w')
  then have "w' = w" by (simp add: demo_kv_def)
  then show ?case by simp
next
  case (2 k w r w' x)
  then show ?case by (auto simp: demo_kv_def split: option.splits)
next
  case (3 w r w')
  then have "w' = w" by (simp add: demo_kv_def)
  then show ?case by simp
next
  case (4 w x w')
  then have "w' = w" by (simp add: demo_kv_def)
  then show ?case by simp
next
  case (5 k v w r w')
  then show ?case by (intro exI [of _ "map_of w"]) (auto simp: demo_kv_def added_def split: if_splits)
next
  case (6 k v n w r w')
  then show ?case by (intro exI [of _ "map_of w"]) (auto simp: demo_kv_def swapped_Suc split: if_splits option.splits)
qed

lemma demo_codec: "codec_ok demo_kv"
  by (simp add: codec_ok_def demo_kv_def)

lemma demo_quiet: "kv_quiet demo_kv map_of"
proof -
  have "\<exists>ks. set ks = dom (map_of w) \<and> kv_Keys demo_kv w = (if ks = [] then Inl ErrNoKeysFound else Inr ks, w)" for w
    by (intro exI [of _ "map fst w"]) (simp add: demo_kv_def dom_map_of_conv_image_fst)
  then show ?thesis by (simp add: kv_quiet_def demo_kv_def)
qed

lemma demo_utf8: "utf8_task (demo_task ''b'' [''a''] TaskPending)" "utf8_task (demo_task ''a'' [] TaskCompleted)"
  "utf8_Valid ''u''" "utf8_Valid ''done''"
  by (code_simp, code_simp, code_simp, code_simp)

lemma demo_wf: "bucket_wf (unmarshal demo_kv) (map_of demo_world)"
  by (auto simp: bucket_wf_def demo_world_def demo_kv_def demo_utf8 split: if_splits) (simp_all add: demo_task_def)

lemma demo_claimable:
  "mem_Claim ''b'' ''u'' (mem_of (unmarshal demo_kv) (map_of demo_world)) =
     (Inr ((demo_task ''b'' [''a''] TaskPending)\<lparr>tk_State := TaskInProgress, tk_Owner := ''u''\<rparr>),
      \<lparr>ms_tasks = (tasks_of (unmarshal demo_kv) (map_of demo_world))
         (''b'' \<mapsto> (demo_task ''b'' [''a''] TaskPending)\<lparr>tk_State := TaskInProgress, tk_Owner := ''u''\<rparr>), ms_seq = 0\<rparr>)"
proof -
  have "tasks_of (unmarshal demo_kv) (map_of demo_world) ''b'' = Some (demo_task ''b'' [''a''] TaskPending)"
    "tasks_of (unmarshal demo_kv) (map_of demo_world) ''a'' = Some (demo_task ''a'' [] TaskCompleted)"
    by (simp_all add: tasks_of_def demo_world_def demo_kv_def demo_utf8)
  then show ?thesis by (simp add: mem_Claim_def depsSatisfied_def demo_task_def Let_def)
qed

theorem nats_refines_mem_witness:
  "\<exists>w'. nats_Claim demo_kv ''b'' ''u'' demo_world =
     (Inr ((demo_task ''b'' [''a''] TaskPending)\<lparr>tk_State := TaskInProgress, tk_Owner := ''u''\<rparr>), w')"
  using nats_refines_mem [OF demo_quiet demo_wf demo_codec demo_utf8(3,4), of "''b''"] by (auto simp: demo_claimable)


theorem nats_single_winner_witness:
  "\<exists>t w1. nats_Claim demo_kv ''b'' ''u'' demo_world = (Inr t, w1) \<and> (\<nexists>t' w3. nats_Claim demo_kv ''b'' ''done'' w1 = (Inr t', w3))"
proof -
  obtain t w1 where c: "nats_Claim demo_kv ''b'' ''u'' demo_world = (Inr t, w1)"
    using quiet_Claim [OF demo_quiet demo_wf demo_codec demo_utf8(3), of "''b''"] by (auto simp: demo_claimable)
  from nats_single_winner [OF demo_kv_ok demo_codec demo_wf demo_utf8(3) c run_Nil] demo_utf8(4) c show ?thesis by auto
qed

end
