(* ===== verification/Workflow.thy ===== *)
theory Workflow
  imports Redact Lifecycle GoStrings
begin

section \<open>Workflows: admission and routing predicates\<close>

text \<open>
  The pure part of AgentWorkflow: the types and the admission check of \<open>agentworkflow.go\<close>, with
  its depth-first search for cycles, and the routing predicates of \<open>workflow_predicate.go\<close>.
  An error is its message; the joined error of the admission check is the list of its parts.
  A \<open>float64\<close> is a parameter: its type, the two ways the code obtains one and its comparisons.
\<close>

subsection \<open>Types\<close>

definition WorkflowStart :: string where "WorkflowStart = ''START''"
definition WorkflowEnd :: string where "WorkflowEnd = ''END''"

record WorkflowNode =
  wn_Name :: string
  wn_AgentRef :: string
  wn_Input :: bytes

record WorkflowEdge =
  we_From :: string
  we_To :: string
  we_When :: string

record AgentWorkflowSpec =
  ws_Paused :: bool
  ws_Nodes :: "WorkflowNode list"
  ws_Edges :: "WorkflowEdge list"
  ws_ResultSink :: string

record AgentWorkflow =
  wf_Name :: string
  wf_Spec :: AgentWorkflowSpec

subsection \<open>Predicates\<close>

record 'f float64_ops =
  ParseFloat :: "string \<Rightarrow> 'f option"
  json_float :: "string \<Rightarrow> 'f"
  float_eq :: "'f \<Rightarrow> 'f \<Rightarrow> bool"
  float_less :: "'f \<Rightarrow> 'f \<Rightarrow> bool"

text \<open>The literal of a predicate, by its kind.\<close>

datatype 'f pred_literal = lit_num 'f | lit_str string | lit_bool bool

record 'f Predicate =
  pr_path :: "string list"
  pr_op :: string
  pr_lit :: "'f pred_literal"

definition predicateOps :: "string list" where
  "predicateOps = [''=='', ''!='', ''<='', ''>='', ''<'', ''>'']"

definition dquote :: char where "dquote = CHR 0x22"

definition parse_literal :: "'f float64_ops \<Rightarrow> string \<Rightarrow> string + 'f pred_literal" where
  "parse_literal fo right =
     (if 2 \<le> length right \<and> HasPrefix right [dquote] \<and> HasSuffix right [dquote]
      then Inr (lit_str (take (length right - 2) (drop 1 right)))
      else if right = ''true'' \<or> right = ''false'' then Inr (lit_bool (right = ''true''))
      else case ParseFloat fo right of
        None \<Rightarrow> Inl (''predicate literal '' @ quoted right @ '' must be a number, a '' @ quoted ''string'' @ '', or true/false'')
      | Some n \<Rightarrow> Inr (lit_num n))"

fun numeric :: "'f pred_literal \<Rightarrow> bool" where
  "numeric (lit_num _) = True"
| "numeric _ = False"

definition predicate_error :: "string \<Rightarrow> string" where
  "predicate_error e = ''predicate '' @ quoted e @ '' must be '' @ [CHR 0x27] @ ''<path> <op> <literal>'' @ [CHR 0x27] @ '' (op: == != < <= > >=)''"

fun compile_ops :: "'f float64_ops \<Rightarrow> string \<Rightarrow> string list \<Rightarrow> string + 'f Predicate" where
  "compile_ops fo expr [] = Inl (predicate_error expr)"
| "compile_ops fo expr (op # ops) = (case str_Index expr op of
     None \<Rightarrow> compile_ops fo expr ops
   | Some i \<Rightarrow>
       if i = 0 then compile_ops fo expr ops
       else let left = bytes_TrimSpace (take i expr); right = bytes_TrimSpace (drop (i + length op) expr)
            in if left = [] \<or> right = [] then Inl (predicate_error expr)
               else if left = ''usage'' \<or> HasPrefix left ''usage.''
               then Inl (''predicate path '' @ quoted left @ '' reads usage '' @ [CHR 0xE2, CHR 0x80, CHR 0x94] @ '' routing must never gate on cost/toolCalls'')
               else case parse_literal fo right of
                 Inl e \<Rightarrow> Inl e
               | Inr l \<Rightarrow>
                   if \<not> numeric l \<and> op \<noteq> ''=='' \<and> op \<noteq> ''!=''
                   then Inl (''predicate op '' @ quoted op @ '' is only valid for numbers (string/bool support == and !=)'')
                   else Inr \<lparr>pr_path = str_Split (CHR ''.'') left, pr_op = op, pr_lit = l\<rparr>)"

definition CompilePredicate :: "'f float64_ops \<Rightarrow> string \<Rightarrow> string + 'f Predicate" where
  "CompilePredicate fo expr = compile_ops fo (bytes_TrimSpace expr) predicateOps"

fun navigate :: "json \<Rightarrow> string list \<Rightarrow> json" where
  "navigate cur [] = cur"
| "navigate cur (key # path) = (case cur of
     JObj m \<Rightarrow> navigate (case map_of m key of None \<Rightarrow> JNull | Some v \<Rightarrow> v) path
   | _ \<Rightarrow> JNull)"

definition compare_num :: "'f float64_ops \<Rightarrow> string \<Rightarrow> 'f \<Rightarrow> 'f \<Rightarrow> bool" where
  "compare_num fo op f n =
     (if op = ''=='' then float_eq fo f n
      else if op = ''!='' then \<not> float_eq fo f n
      else if op = ''<'' then float_less fo f n
      else if op = ''<='' then float_less fo f n \<or> float_eq fo f n
      else if op = ''>'' then float_less fo n f
      else if op = ''>='' then float_less fo n f \<or> float_eq fo f n
      else False)"

fun eval_value :: "'f float64_ops \<Rightarrow> 'f pred_literal \<Rightarrow> string \<Rightarrow> json \<Rightarrow> bool" where
  "eval_value fo (lit_num n) op (JNum x) = compare_num fo op (json_float fo x) n"
| "eval_value fo (lit_str s) op (JStr x) = (if op = ''=='' then x = s else x \<noteq> s)"
| "eval_value fo (lit_bool b) op (JBool x) = (if op = ''=='' then x = b else x \<noteq> b)"
| "eval_value fo _ op _ = False"

definition Predicate_Eval :: "'f float64_ops \<Rightarrow> json_codec \<Rightarrow> 'f Predicate \<Rightarrow> bytes \<Rightarrow> string + bool" where
  "Predicate_Eval fo cd p output =
     (if output = [] then Inr (eval_value fo (pr_lit p) (pr_op p) (navigate JNull (pr_path p)))
      else case json_Unmarshal cd output of
        None \<Rightarrow> Inl ''predicate: node output is not JSON''
      | Some doc \<Rightarrow> Inr (eval_value fo (pr_lit p) (pr_op p) (navigate doc (pr_path p))))"

subsection \<open>The search for cycles\<close>

datatype color = white | gray | black

definition adj_of :: "WorkflowEdge list \<Rightarrow> string \<Rightarrow> string list" where
  "adj_of edges = fold (\<lambda>e adj. adj(we_From e := adj (we_From e) @ [we_To e])) edges (\<lambda>_. [])"

text \<open>
  The loop of \<open>visit\<close> over the successors, with the recursive call written out; a call costs one
  unit of fuel.
\<close>

fun visit_loop :: "nat \<Rightarrow> (string \<Rightarrow> string list) \<Rightarrow> string list \<Rightarrow> (string \<Rightarrow> color) \<Rightarrow> (bool \<times> (string \<Rightarrow> color)) option" where
  "visit_loop fuel adj [] color = Some (False, color)"
| "visit_loop fuel adj (m # ms) color =
     (case color m of
        gray \<Rightarrow> Some (True, color)
      | black \<Rightarrow> visit_loop fuel adj ms color
      | white \<Rightarrow> (case fuel of
          0 \<Rightarrow> None
        | Suc fuel' \<Rightarrow> (case visit_loop fuel' adj (adj m) (color(m := gray)) of
            None \<Rightarrow> None
          | Some (True, color) \<Rightarrow> Some (True, color)
          | Some (False, color) \<Rightarrow> visit_loop fuel adj ms (color(m := black)))))"

definition visit :: "nat \<Rightarrow> (string \<Rightarrow> string list) \<Rightarrow> string \<Rightarrow> (string \<Rightarrow> color) \<Rightarrow> (bool \<times> (string \<Rightarrow> color)) option" where
  "visit fuel adj n color = (case visit_loop fuel adj (adj n) (color(n := gray)) of
     None \<Rightarrow> None
   | Some (True, color) \<Rightarrow> Some (True, color)
   | Some (False, color) \<Rightarrow> Some (False, color(n := black)))"

fun acyclic_loop :: "nat \<Rightarrow> (string \<Rightarrow> string list) \<Rightarrow> string list \<Rightarrow> (string \<Rightarrow> color) \<Rightarrow> bool option" where
  "acyclic_loop fuel adj [] color = Some True"
| "acyclic_loop fuel adj (n # ns) color =
     (if color n = white then case visit fuel adj n color of
        None \<Rightarrow> None
      | Some (True, _) \<Rightarrow> Some False
      | Some (False, color) \<Rightarrow> acyclic_loop fuel adj ns color
      else acyclic_loop fuel adj ns color)"

text \<open>
  The keys of the map are visited in the order \<open>keys\<close>.  The depth of the recursion is bounded by
  the number of vertices, so twice the number of edges is fuel enough.
\<close>

definition checkAcyclic :: "string list \<Rightarrow> WorkflowEdge list \<Rightarrow> string option option" where
  "checkAcyclic keys edges =
     (case acyclic_loop (2 * length edges) (adj_of edges) keys (\<lambda>_. white) of
        None \<Rightarrow> None
      | Some True \<Rightarrow> Some None
      | Some False \<Rightarrow> Some (Some ''spec.edges form a cycle (a workflow must be a DAG)''))"

subsection \<open>Admission\<close>

definition containsSlash :: "string \<Rightarrow> bool" where
  "containsSlash s \<longleftrightarrow> list_ex (\<lambda>c. c = CHR ''/'') s"

definition at_index :: "string \<Rightarrow> nat \<Rightarrow> string" where
  "at_index what i = ''spec.'' @ what @ ''['' @ show_nat i @ '']''"

definition node_name_errors :: "nat \<Rightarrow> WorkflowNode \<Rightarrow> string set \<Rightarrow> string list" where
  "node_name_errors i n names =
     (if wn_Name n = [] then [at_index ''nodes'' i @ ''.name is required'']
      else if wn_Name n = WorkflowStart \<or> wn_Name n = WorkflowEnd then [at_index ''nodes'' i @ ''.name '' @ quoted (wn_Name n) @ '' is reserved'']
      else if wn_Name n \<in> names then [at_index ''nodes'' i @ ''.name '' @ quoted (wn_Name n) @ '' is duplicated'']
      else [])"

definition node_ref_errors :: "nat \<Rightarrow> WorkflowNode \<Rightarrow> string list" where
  "node_ref_errors i n =
     (if wn_AgentRef n = [] then [at_index ''nodes'' i @ ''.agentRef is required'']
      else if containsSlash (wn_AgentRef n)
      then [at_index ''nodes'' i @ ''.agentRef must be a bare name in this namespace (no cross-namespace reference)'']
      else [])"

fun check_nodes :: "nat \<Rightarrow> WorkflowNode list \<Rightarrow> string set \<Rightarrow> string list \<times> string set" where
  "check_nodes i [] names = ([], names)"
| "check_nodes i (n # ns) names =
     (let es = node_name_errors i n names;
          (rest, names') = check_nodes (i + 1) ns (if es = [] then insert (wn_Name n) names else names)
      in (es @ node_ref_errors i n @ rest, names'))"

definition edge_errors :: "'f float64_ops \<Rightarrow> nat \<Rightarrow> WorkflowEdge \<Rightarrow> string set \<Rightarrow> string list" where
  "edge_errors fo i e names =
     (if we_From e = [] \<or> we_To e = [] then [at_index ''edges'' i @ '' needs both from and to'']
      else (if we_From e \<notin> names then [at_index ''edges'' i @ ''.from '' @ quoted (we_From e) @ '' is not a node''] else [])
         @ (if we_To e \<notin> names then [at_index ''edges'' i @ ''.to '' @ quoted (we_To e) @ '' is not a node''] else [])
         @ (if we_When e \<noteq> [] then (case CompilePredicate fo (we_When e) of
              Inl err \<Rightarrow> [at_index ''edges'' i @ ''.when: '' @ err] | Inr _ \<Rightarrow> []) else []))"

fun check_edges :: "'f float64_ops \<Rightarrow> nat \<Rightarrow> WorkflowEdge list \<Rightarrow> string set \<Rightarrow> string list" where
  "check_edges fo i [] names = []"
| "check_edges fo i (e # es) names = edge_errors fo i e names @ check_edges fo (i + 1) es names"

text \<open>An edge without an endpoint is skipped before its origin is looked at.\<close>

definition has_start_edge :: "WorkflowEdge list \<Rightarrow> bool" where
  "has_start_edge edges \<longleftrightarrow> list_ex (\<lambda>e. we_From e \<noteq> [] \<and> we_To e \<noteq> [] \<and> we_From e = WorkflowStart) edges"

definition ValidateAgentWorkflow :: "'f float64_ops \<Rightarrow> string list \<Rightarrow> AgentWorkflow \<Rightarrow> string list option" where
  "ValidateAgentWorkflow fo keys w =
     (let nodes = ws_Nodes (wf_Spec w); edges = ws_Edges (wf_Spec w);
          (nerrs, names) = check_nodes 0 nodes {WorkflowStart, WorkflowEnd}
      in map_option (\<lambda>cyc.
           (if nodes = [] then [''spec.nodes must list at least one node''] else [])
         @ nerrs @ check_edges fo 0 edges names
         @ (if edges \<noteq> [] \<and> \<not> has_start_edge edges then [''no edge originates from START (the workflow has no entry point)''] else [])
         @ (case cyc of None \<Rightarrow> [] | Some e \<Rightarrow> [e])) (checkAcyclic keys edges))"

subsection \<open>The search is correct\<close>

definition edge_rel :: "(string \<Rightarrow> string list) \<Rightarrow> (string \<times> string) set" where
  "edge_rel adj = {(x, y). y \<in> set (adj x)}"

definition dfs_inv :: "(string \<Rightarrow> string list) \<Rightarrow> (string \<Rightarrow> color) \<Rightarrow> bool" where
  "dfs_inv adj c \<longleftrightarrow> (\<forall>x. c x = black \<longrightarrow> (x, x) \<notin> (edge_rel adj)\<^sup>+ \<and> (\<forall>y. (x, y) \<in> edge_rel adj \<longrightarrow> c y = black))"

lemma black_closed:
  assumes "dfs_inv adj c" "(x, y) \<in> (edge_rel adj)\<^sup>*" "c x = black"
  shows "c y = black"
  using assms(2,1,3) by (induction rule: rtrancl_induct) (auto simp: dfs_inv_def)

lemma dfs_inv_gray: "dfs_inv adj c \<Longrightarrow> c m = white \<Longrightarrow> dfs_inv adj (c(m := gray))"
  by (auto simp: dfs_inv_def)

lemma dfs_inv_black:
  assumes "dfs_inv adj c" "c m = gray" "\<forall>y\<in>set (adj m). c y = black"
  shows "dfs_inv adj (c(m := black))"
proof -
  have "(m, m) \<notin> (edge_rel adj)\<^sup>+"
  proof
    assume "(m, m) \<in> (edge_rel adj)\<^sup>+"
    then obtain y where "(m, y) \<in> edge_rel adj" "(y, m) \<in> (edge_rel adj)\<^sup>*" by (blast dest: tranclD)
    with assms(3) black_closed [OF assms(1)] have "c m = black" by (auto simp: edge_rel_def)
    with assms(2) show False by simp
  qed
  with assms(1,3) show ?thesis by (auto simp: dfs_inv_def edge_rel_def)
qed

lemma visit_loop_white: "visit_loop fuel adj ms c = Some (b, c') \<Longrightarrow> c' x = white \<Longrightarrow> c x = white"
proof (induction fuel adj ms c arbitrary: b c' rule: visit_loop.induct)
  case (2 fuel adj m ms color)
  then show ?case
    by (cases "color m") (fastforce split: nat.splits option.splits bool.splits if_splits)+
qed simp

definition dfs_post :: "(string \<Rightarrow> string list) \<Rightarrow> string list \<Rightarrow> (string \<Rightarrow> color) \<Rightarrow> (string \<Rightarrow> color) \<Rightarrow> bool" where
  "dfs_post adj ms c c' \<longleftrightarrow> dfs_inv adj c' \<and> (\<forall>x. c' x = gray \<longleftrightarrow> c x = gray)
     \<and> (\<forall>x. c x = black \<longrightarrow> c' x = black) \<and> (\<forall>m\<in>set ms. c' m = black)"

lemma visit_loop_correct:
  assumes "visit_loop fuel adj ms c = Some (b, c')" "dfs_inv adj c" "set ms \<subseteq> set (adj u)"
    "\<forall>g. c g = gray \<longrightarrow> (g, u) \<in> (edge_rel adj)\<^sup>*"
  shows "if b then \<exists>x. (x, x) \<in> (edge_rel adj)\<^sup>+ else dfs_post adj ms c c'"
  using assms
proof (induction fuel adj ms c arbitrary: u b c' rule: visit_loop.induct)
  case (1 fuel adj color)
  then show ?case by (auto simp: dfs_post_def)
next
  case (2 fuel adj m ms color)
  have um: "(u, m) \<in> edge_rel adj" using 2(6) by (simp add: edge_rel_def)
  show ?case
  proof (cases "color m")
    case gray
    with 2(7) have "(m, u) \<in> (edge_rel adj)\<^sup>*" by blast
    then have "(m, m) \<in> (edge_rel adj)\<^sup>+" using um by (rule rtrancl_into_trancl1)
    with 2(4) gray show ?thesis by auto
  next
    case black
    have "if b then \<exists>x. (x, x) \<in> (edge_rel adj)\<^sup>+ else dfs_post adj ms color c'"
      using 2(4) black 2(6) by (intro 2(3) [OF black _ 2(5) _ 2(7)]) auto
    with black show ?thesis by (auto simp: dfs_post_def)
  next
    case white
    then obtain fuel' where f: "fuel = Suc fuel'" using 2(4) by (cases fuel) auto
    obtain b1 c1 where v: "visit_loop fuel' adj (adj m) (color(m := gray)) = Some (b1, c1)"
      using 2(4) white f by (auto split: option.splits)
    have inv1: "dfs_inv adj (color(m := gray))" by (rule dfs_inv_gray [OF 2(5) white])
    have gr: "\<forall>g. (color(m := gray)) g = gray \<longrightarrow> (g, m) \<in> (edge_rel adj)\<^sup>*"
      using 2(7) um by (auto intro: rtrancl_into_rtrancl)
    have sub: "if b1 then \<exists>x. (x, x) \<in> (edge_rel adj)\<^sup>+ else dfs_post adj (adj m) (color(m := gray)) c1"
      by (rule 2(1) [OF white f v inv1 _ gr]) simp
    show ?thesis
    proof (cases b1)
      case True
      with 2(4) white f v sub show ?thesis by auto
    next
      case False
      with sub have post: "dfs_post adj (adj m) (color(m := gray)) c1" by simp
      have inv2: "dfs_inv adj (c1(m := black))" using post by (intro dfs_inv_black) (auto simp: dfs_post_def)
      have gr2: "\<forall>g. (c1(m := black)) g = gray \<longrightarrow> (g, u) \<in> (edge_rel adj)\<^sup>*"
        using post 2(7) by (auto simp: dfs_post_def)
      have rest: "visit_loop fuel adj ms (c1(m := black)) = Some (b, c')" using 2(4) white f v False by simp
      have "if b then \<exists>x. (x, x) \<in> (edge_rel adj)\<^sup>+ else dfs_post adj ms (c1(m := black)) c'"
        using 2(6) v False by (intro 2(2) [OF white f v _ _ rest inv2 _ gr2]) auto
      with post white show ?thesis by (auto simp: dfs_post_def split: if_splits)
    qed
  qed
qed

lemma visit_loop_returns:
  assumes "finite V" "\<forall>x. set (adj x) \<subseteq> V" "set ms \<subseteq> V" "card {x \<in> V. c x = white} \<le> fuel"
  shows "visit_loop fuel adj ms c \<noteq> None"
  using assms
proof (induction fuel adj ms c rule: visit_loop.induct)
  case (2 fuel adj m ms color)
  let ?W = "\<lambda>c. {x \<in> V. c x = white}"
  show ?case
  proof (cases "color m")
    case white
    have sub: "?W (color(m := gray)) \<subset> ?W color" using white 2(6) by auto
    with psubset_card_mono [of "?W color"] 2(4) have less: "card (?W (color(m := gray))) < card (?W color)" by simp
    then obtain fuel' where f: "fuel = Suc fuel'" using 2(7) by (cases fuel) auto
    have "visit_loop fuel' adj (adj m) (color(m := gray)) \<noteq> None"
      using 2(5,7) less f by (intro 2(1) [OF white f 2(4,5)]) auto
    then obtain b c1 where v: "visit_loop fuel' adj (adj m) (color(m := gray)) = Some (b, c1)" by auto
    show ?thesis
    proof (cases b)
      case False
      have "c1 x = white \<Longrightarrow> color x = white" for x using visit_loop_white [OF v, of x] by (auto split: if_splits)
      then have "?W (c1(m := black)) \<subseteq> ?W color" by auto
      then have "card (?W (c1(m := black))) \<le> card (?W color)" using 2(4) by (intro card_mono) auto
      with 2(6,7) have "visit_loop fuel adj ms (c1(m := black)) \<noteq> None"
        using v False by (intro 2(2) [OF white f v _ _ 2(4,5)]) auto
      with white f v False show ?thesis by simp
    qed (use white f v in simp)
  next
    case black
    with 2(3) [OF black 2(4,5)] 2(6,7) show ?thesis by simp
  qed simp
qed simp

lemma adj_of_iff: "adj_of edges x = map we_To (filter (\<lambda>e. we_From e = x) edges)"
proof -
  have "fold (\<lambda>e adj. adj(we_From e := adj (we_From e) @ [we_To e])) edges a x
      = a x @ map we_To (filter (\<lambda>e. we_From e = x) edges)" for a
    by (induction edges arbitrary: a) auto
  then show ?thesis by (simp add: adj_of_def)
qed

definition edges_rel :: "WorkflowEdge list \<Rightarrow> (string \<times> string) set" where
  "edges_rel edges = {(we_From e, we_To e) |e. e \<in> set edges}"

lemma edge_rel_adj_of: "edge_rel (adj_of edges) = edges_rel edges"
  by (auto simp: edge_rel_def edges_rel_def adj_of_iff)

lemma visit_correct:
  assumes "finite V" "\<forall>x. set (adj x) \<subseteq> V" "card V \<le> fuel" "dfs_inv adj c" "\<forall>x. c x \<noteq> gray" "c n = white"
  obtains c' where "visit fuel adj n c = Some (True, c')" "\<exists>x. (x, x) \<in> (edge_rel adj)\<^sup>+"
  | c' where "visit fuel adj n c = Some (False, c')" "dfs_inv adj c'" "\<forall>x. c' x \<noteq> gray" "c' n = black"
      "\<forall>x. c x = black \<longrightarrow> c' x = black"
proof -
  have "card {x \<in> V. (c(n := gray)) x = white} \<le> fuel"
    using card_mono [OF assms(1), of "{x \<in> V. (c(n := gray)) x = white}"] assms(3) by auto
  then have "visit_loop fuel adj (adj n) (c(n := gray)) \<noteq> None"
    using assms(2) by (intro visit_loop_returns [OF assms(1,2)]) auto
  then obtain b c1 where v: "visit_loop fuel adj (adj n) (c(n := gray)) = Some (b, c1)" by (metis option.exhaust surj_pair)
  have inv1: "dfs_inv adj (c(n := gray))" by (rule dfs_inv_gray [OF assms(4,6)])
  have "if b then \<exists>x. (x, x) \<in> (edge_rel adj)\<^sup>+ else dfs_post adj (adj n) (c(n := gray)) c1"
    by (rule visit_loop_correct [OF v inv1, of n]) (use assms(5) in auto)
  moreover have "dfs_inv adj (c1(n := black))" if "dfs_post adj (adj n) (c(n := gray)) c1"
    using that by (intro dfs_inv_black) (auto simp: dfs_post_def)
  ultimately show thesis
    using that v assms(5) by (cases b) (auto simp: visit_def dfs_post_def split: if_splits)
qed

lemma acyclic_loop_correct:
  assumes "finite V" "\<forall>x. set (adj x) \<subseteq> V" "card V \<le> fuel" "dfs_inv adj c" "\<forall>x. c x \<noteq> gray"
    and "\<forall>x. adj x \<noteq> [] \<longrightarrow> x \<in> set ns \<or> c x = black"
  shows "acyclic_loop fuel adj ns c = Some (acyclic (edge_rel adj))"
  using assms(4-)
proof (induction ns arbitrary: c)
  case Nil
  have "(x, x) \<notin> (edge_rel adj)\<^sup>+" for x
  proof
    assume a: "(x, x) \<in> (edge_rel adj)\<^sup>+"
    then obtain y where "(x, y) \<in> edge_rel adj" by (blast dest: tranclD)
    then have "adj x \<noteq> []" by (auto simp: edge_rel_def)
    then have "c x = black" using Nil.prems(3) by simp
    with a Nil.prems(1) show False by (simp add: dfs_inv_def)
  qed
  then show ?case by (simp add: acyclic_def)
next
  case (Cons n ns)
  show ?case
  proof (cases "c n = white")
    case False
    then have "c n = black" using Cons.prems(2) by (cases "c n") auto
    with Cons.prems False show ?thesis by (auto intro!: Cons.IH)
  next
    case True
    from visit_correct [OF assms(1-3) Cons.prems(1,2) True] show ?thesis
    proof cases
      case 1
      with True show ?thesis by (auto simp: acyclic_def)
    next
      case (2 c')
      with True Cons.prems(3) show ?thesis by (auto intro!: Cons.IH)
    qed
  qed
qed

lemma checkAcyclic_correct:
  assumes "set keys = we_From ` set edges"
  shows "\<exists>r. checkAcyclic keys edges = Some r \<and> (r = None \<longleftrightarrow> acyclic (edges_rel edges))"
proof -
  let ?V = "we_From ` set edges \<union> we_To ` set edges"
  have "card ?V \<le> card (we_From ` set edges) + card (we_To ` set edges)" by (rule card_Un_le)
  also have "\<dots> \<le> 2 * length edges"
    using card_image_le [of "set edges" we_From] card_image_le [of "set edges" we_To] card_length [of edges] by simp
  finally have c: "card ?V \<le> 2 * length edges" .
  have "acyclic_loop (2 * length edges) (adj_of edges) keys (\<lambda>_. white) = Some (acyclic (edge_rel (adj_of edges)))"
    using assms by (intro acyclic_loop_correct [OF _ _ c]) (auto simp: adj_of_iff dfs_inv_def filter_empty_conv)
  then show ?thesis by (simp add: checkAcyclic_def edge_rel_adj_of split: bool.split)
qed

subsection \<open>Admission is exact\<close>

definition node_ok :: "WorkflowNode \<Rightarrow> bool" where
  "node_ok n \<longleftrightarrow> wn_Name n \<noteq> [] \<and> wn_Name n \<notin> {WorkflowStart, WorkflowEnd} \<and> wn_AgentRef n \<noteq> [] \<and> plain (wn_AgentRef n)"

definition edge_ok :: "'f float64_ops \<Rightarrow> string set \<Rightarrow> WorkflowEdge \<Rightarrow> bool" where
  "edge_ok fo names e \<longleftrightarrow> we_From e \<noteq> [] \<and> we_To e \<noteq> [] \<and> we_From e \<in> names \<and> we_To e \<in> names
     \<and> (we_When e = [] \<or> (\<exists>p. CompilePredicate fo (we_When e) = Inr p))"

definition well_formed :: "'f float64_ops \<Rightarrow> AgentWorkflowSpec \<Rightarrow> bool" where
  "well_formed fo s \<longleftrightarrow> ws_Nodes s \<noteq> [] \<and> distinct (map wn_Name (ws_Nodes s)) \<and> list_all node_ok (ws_Nodes s)
     \<and> list_all (edge_ok fo ({WorkflowStart, WorkflowEnd} \<union> wn_Name ` set (ws_Nodes s))) (ws_Edges s)
     \<and> (ws_Edges s = [] \<or> WorkflowStart \<in> we_From ` set (ws_Edges s)) \<and> acyclic (edges_rel (ws_Edges s))"

lemma containsSlash_iff: "containsSlash s \<longleftrightarrow> \<not> plain s"
  by (auto simp: containsSlash_def plain_def list_ex_iff)

lemma at_index_simps [simp]: "at_index w i \<noteq> []" "[] \<noteq> at_index w i"
  by (simp_all add: at_index_def)

lemma node_errors_empty:
  "{WorkflowStart, WorkflowEnd} \<subseteq> names \<Longrightarrow>
   node_name_errors i n names = [] \<and> node_ref_errors i n = [] \<longleftrightarrow> node_ok n \<and> wn_Name n \<notin> names"
  by (auto simp: node_name_errors_def node_ref_errors_def node_ok_def containsSlash_iff)

lemma check_nodes_correct:
  assumes "{WorkflowStart, WorkflowEnd} \<subseteq> names"
  shows "(fst (check_nodes i ns names) = [] \<longleftrightarrow>
      list_all node_ok ns \<and> distinct (map wn_Name ns) \<and> wn_Name ` set ns \<inter> names = {})
    \<and> (fst (check_nodes i ns names) = [] \<longrightarrow> snd (check_nodes i ns names) = names \<union> wn_Name ` set ns)"
  using assms
proof (induction i ns names rule: check_nodes.induct)
  case (2 i n ns names)
  define names1 where "names1 = (if node_name_errors i n names = [] then insert (wn_Name n) names else names)"
  have IH: "(fst (check_nodes (i + 1) ns names1) = [] \<longleftrightarrow>
      list_all node_ok ns \<and> distinct (map wn_Name ns) \<and> wn_Name ` set ns \<inter> names1 = {})
    \<and> (fst (check_nodes (i + 1) ns names1) = [] \<longrightarrow> snd (check_nodes (i + 1) ns names1) = names1 \<union> wn_Name ` set ns)"
    using 2 by (auto simp: names1_def)
  have eq: "check_nodes i (n # ns) names = (node_name_errors i n names @ node_ref_errors i n @ fst (check_nodes (i + 1) ns names1),
      snd (check_nodes (i + 1) ns names1))"
    by (simp add: names1_def Let_def case_prod_beta)
  show ?case
  proof (cases "node_name_errors i n names = [] \<and> node_ref_errors i n = []")
    case True
    then have "names1 = insert (wn_Name n) names" by (simp add: names1_def)
    with True IH eq node_errors_empty [OF 2(2), of i n] show ?thesis by auto
  next
    case False
    with eq node_errors_empty [OF 2(2), of i n] show ?thesis by auto
  qed
qed simp

lemma edge_errors_empty: "edge_errors fo i e names = [] \<longleftrightarrow> edge_ok fo names e"
  by (auto simp: edge_errors_def edge_ok_def split: sum.split)

lemma check_edges_empty: "check_edges fo i es names = [] \<longleftrightarrow> list_all (edge_ok fo names) es"
  by (induction fo i es names rule: check_edges.induct) (auto simp: edge_errors_empty)

text \<open>
  Claim C33.  Admission accepts exactly the well-formed workflows: it always returns, and reports
  no error if and only if there is a node, the names are unique, not empty and not reserved, every
  agent is a bare name, every edge joins known vertices under a predicate that compiles, some edge
  leaves START unless there is none, and the edges form no cycle, in whatever order the search
  visits the vertices.
\<close>

theorem ValidateAgentWorkflow_exact:
  assumes "set keys = we_From ` set (ws_Edges (wf_Spec w))"
  shows "\<exists>errs. ValidateAgentWorkflow fo keys w = Some errs \<and> (errs = [] \<longleftrightarrow> well_formed fo (wf_Spec w))"
proof -
  let ?names = "{WorkflowStart, WorkflowEnd}" and ?s = "wf_Spec w"
  obtain cyc where cyc: "checkAcyclic keys (ws_Edges ?s) = Some cyc" "cyc = None \<longleftrightarrow> acyclic (edges_rel (ws_Edges ?s))"
    using checkAcyclic_correct [OF assms] by blast
  obtain nerrs names where n: "check_nodes 0 (ws_Nodes ?s) ?names = (nerrs, names)" by fastforce
  note cn = check_nodes_correct [OF order_refl, of 0 "ws_Nodes ?s", unfolded n fst_conv snd_conv]
  have start: "list_all (edge_ok fo names) (ws_Edges ?s) \<Longrightarrow>
      has_start_edge (ws_Edges ?s) \<longleftrightarrow> WorkflowStart \<in> we_From ` set (ws_Edges ?s)"
    unfolding has_start_edge_def list_ex_iff list_all_iff edge_ok_def image_iff by metis
  have "list_all node_ok (ws_Nodes ?s) \<Longrightarrow> wn_Name ` set (ws_Nodes ?s) \<inter> ?names = {}"
    by (auto simp: list_all_iff node_ok_def)
  then have nodes: "nerrs = [] \<longleftrightarrow> list_all node_ok (ws_Nodes ?s) \<and> distinct (map wn_Name (ws_Nodes ?s))" using cn by blast
  have V: "ValidateAgentWorkflow fo keys w = Some (
      (if ws_Nodes ?s = [] then [''spec.nodes must list at least one node''] else [])
    @ nerrs @ check_edges fo 0 (ws_Edges ?s) names
    @ (if ws_Edges ?s \<noteq> [] \<and> \<not> has_start_edge (ws_Edges ?s)
       then [''no edge originates from START (the workflow has no entry point)''] else [])
    @ (case cyc of None \<Rightarrow> [] | Some e \<Rightarrow> [e]))"
    unfolding ValidateAgentWorkflow_def Let_def n cyc(1) by simp
  show ?thesis
  proof (cases "nerrs = []")
    case True
    with cn have names: "names = ?names \<union> wn_Name ` set (ws_Nodes ?s)" by blast
    have c: "(case cyc of None \<Rightarrow> [] | Some e \<Rightarrow> [e]) = [] \<longleftrightarrow> cyc = None" by (simp split: option.split)
    show ?thesis
      unfolding V well_formed_def names [symmetric] option.inject ex_simps
      using True nodes start cyc(2) c by (auto simp: check_edges_empty)
  next
    case False
    with nodes have "\<not> well_formed fo ?s" by (auto simp: well_formed_def)
    with False V show ?thesis by simp
  qed
qed

subsection \<open>Routing never reads usage\<close>

lemma str_Split_hd: "hd (str_Split d s) = takeWhile (\<lambda>c. c \<noteq> d) s" "str_Split d s \<noteq> []"
  by (induction s) auto

lemma str_Split_usage:
  assumes "hd (str_Split (CHR ''.'') s) = ''usage''"
  shows "s = ''usage'' \<or> HasPrefix s ''usage.''"
proof -
  have t: "takeWhile (\<lambda>c. c \<noteq> CHR ''.'') s = ''usage''" using assms by (simp add: str_Split_hd)
  have "s = takeWhile (\<lambda>c. c \<noteq> CHR ''.'') s @ dropWhile (\<lambda>c. c \<noteq> CHR ''.'') s" by simp
  then have s: "s = ''usage'' @ dropWhile (\<lambda>c. c \<noteq> CHR ''.'') s" by (simp only: t)
  show ?thesis
  proof (cases "dropWhile (\<lambda>c. c \<noteq> CHR ''.'') s")
    case Nil
    with s show ?thesis by (metis append_Nil2)
  next
    case (Cons x xs)
    then have "x = CHR ''.''" using hd_dropWhile [of "\<lambda>c. c \<noteq> CHR ''.''" s] by simp
    with s Cons have "s = ''usage.'' @ xs" by simp
    then show ?thesis by (metis HasPrefix_iff)
  qed
qed

lemma compile_ops_path:
  "compile_ops fo expr ops = Inr p \<Longrightarrow> \<exists>left. pr_path p = str_Split (CHR ''.'') left \<and> left \<noteq> ''usage'' \<and> \<not> HasPrefix left ''usage.''"
  by (induction fo expr ops rule: compile_ops.induct)
    (auto simp: Let_def split: option.splits if_splits sum.splits)

lemma CompilePredicate_path: "CompilePredicate fo expr = Inr p \<Longrightarrow> \<exists>k ks. pr_path p = k # ks \<and> k \<noteq> ''usage''"
  unfolding CompilePredicate_def using compile_ops_path str_Split_usage str_Split_hd(2) by (metis list.exhaust_sel)

text \<open>
  Claim C34.  Routing cannot depend on what a run cost: two outputs that agree outside their usage
  field make every admitted predicate give the same answer.
\<close>

theorem routing_ignores_usage:
  assumes "CompilePredicate fo expr = Inr p"
    "out \<noteq> []" "json_Unmarshal cd out = Some (JObj m)" "out' \<noteq> []" "json_Unmarshal cd out' = Some (JObj m')"
    "\<And>k. k \<noteq> ''usage'' \<Longrightarrow> map_of m k = map_of m' k"
  shows "Predicate_Eval fo cd p out = Predicate_Eval fo cd p out'"
  using CompilePredicate_path [OF assms(1)] assms(2-) by (auto simp: Predicate_Eval_def)

subsection \<open>Examples\<close>

definition digits_value :: "string \<Rightarrow> nat" where
  "digits_value s = fold (\<lambda>c n. 10 * n + (of_char c - 48)) s 0"

definition digit_ops :: "nat float64_ops" where
  "digit_ops = \<lparr>ParseFloat = (\<lambda>s. if s \<noteq> [] \<and> list_all json_digit s then Some (digits_value s) else None),
     json_float = digits_value, float_eq = (=), float_less = (<)\<rparr>"

definition two_steps :: AgentWorkflow where
  "two_steps = \<lparr>wf_Name = ''w'', wf_Spec = \<lparr>ws_Paused = False,
     ws_Nodes = [\<lparr>wn_Name = ''a'', wn_AgentRef = ''writer'', wn_Input = []\<rparr>, \<lparr>wn_Name = ''b'', wn_AgentRef = ''critic'', wn_Input = []\<rparr>],
     ws_Edges = [\<lparr>we_From = WorkflowStart, we_To = ''a'', we_When = []\<rparr>, \<lparr>we_From = ''a'', we_To = ''b'', we_When = ''score >= 80''\<rparr>,
       \<lparr>we_From = ''b'', we_To = WorkflowEnd, we_When = []\<rparr>], ws_ResultSink = []\<rparr>\<rparr>"

definition score_codec :: json_codec where
  "score_codec = \<lparr>json_Unmarshal = (\<lambda>b. Some (JObj [(''score'', JNum ''90''), (''usage'', JStr b)])), json_Marshal = (\<lambda>_. None)\<rparr>"

theorem ValidateAgentWorkflow_exact_witness: "well_formed digit_ops (wf_Spec two_steps)"
proof -
  have "ValidateAgentWorkflow digit_ops [''b'', ''a'', WorkflowStart] two_steps = Some []" by code_simp
  moreover have "set [''b'', ''a'', WorkflowStart] = we_From ` set (ws_Edges (wf_Spec two_steps))"
    by (auto simp: two_steps_def)
  ultimately show ?thesis using ValidateAgentWorkflow_exact [of "[''b'', ''a'', WorkflowStart]" two_steps digit_ops] by auto
qed

theorem routing_ignores_usage_witness:
  "\<exists>p. CompilePredicate digit_ops ''score >= 80'' = Inr p
     \<and> Predicate_Eval digit_ops score_codec p ''1'' = Inr True
     \<and> Predicate_Eval digit_ops score_codec p ''1'' = Predicate_Eval digit_ops score_codec p ''2''"
proof -
  have c: "CompilePredicate digit_ops ''score >= 80'' = Inr \<lparr>pr_path = [''score''], pr_op = ''>='', pr_lit = lit_num 80\<rparr>"
    by code_simp
  have "Predicate_Eval digit_ops score_codec \<lparr>pr_path = [''score''], pr_op = ''>='', pr_lit = lit_num 80\<rparr> ''1'' = Inr True"
    by code_simp
  with c routing_ignores_usage [OF c, of "''1''" score_codec _ "''2''"] show ?thesis by (simp add: score_codec_def)
qed

end
