(* ===== verification/WorkflowController.thy ===== *)
theory WorkflowController
  imports Workflow
begin

section \<open>The workflow controller\<close>

text \<open>
  One reconcile of an AgentWorkflow (\<open>agentworkflow_controller.go\<close>, with \<open>result_emit.go\<close> and
  \<open>RollUpTeamUsage\<close> of \<open>agentteam.go\<close>).  The API server and the event sink are the functions of
  a client over a world.  An object keeps the metadata the controller reads or writes; the
  namespace is that of the workflow.
\<close>

definition WorkflowNodeLabel :: string where "WorkflowNodeLabel = ''runtime.agents.smol-agents.ai/workflow-node''"
definition resultEmittedAnnotation :: string where
  "resultEmittedAnnotation = ''runtime.agents.smol-agents.ai/result-emitted''"

record OwnerReference =
  or_APIVersion :: string
  or_Kind :: string
  or_Name :: string
  or_UID :: string
  or_Controller :: bool
  or_BlockOwnerDeletion :: bool

record AgentRun =
  run_Name :: string
  run_GenerateName :: string
  run_Namespace :: string
  run_Labels :: "string \<rightharpoonup> string"
  run_Owners :: "OwnerReference list"
  run_AgentRef :: string
  run_Input :: bytes
  run_State :: Phase
  run_Output :: bytes
  run_Usage :: Usage

record NodeState =
  ns_Name :: string
  ns_Phase :: Phase
  ns_RunName :: string

record AgentWorkflowStatus =
  st_Phase :: Phase
  st_Reason :: string
  st_Message :: string
  st_NodeStates :: "NodeState list"
  st_CumulativeUsage :: Usage
  st_ObservedGeneration :: int64

record workflow_object =
  wo_Name :: string
  wo_Namespace :: string
  wo_UID :: string
  wo_Generation :: int64
  wo_Annotations :: "string \<rightharpoonup> string"
  wo_Spec :: AgentWorkflowSpec
  wo_Status :: AgentWorkflowStatus

record Event =
  ev_ID :: string
  ev_Type :: string
  ev_Source :: string
  ev_Subject :: string
  ev_Data :: bytes

text \<open>
  A create answers with the object as the server stored it.  An update of the status tells a
  missing object, which is ignored, from the other errors.
\<close>

datatype api_error = api_NotFound | api_failure string

record 'w workflow_client =
  cl_Get :: "string \<Rightarrow> 'w \<Rightarrow> (api_error + workflow_object) \<times> 'w"
  cl_List :: "string \<Rightarrow> 'w \<Rightarrow> (api_error + AgentRun list) \<times> 'w"
  cl_Create :: "AgentRun \<Rightarrow> 'w \<Rightarrow> (api_error + AgentRun) \<times> 'w"
  cl_UpdateStatus :: "workflow_object \<Rightarrow> 'w \<Rightarrow> api_error option \<times> 'w"
  cl_Emit :: "string \<Rightarrow> Event \<Rightarrow> 'w \<Rightarrow> string option \<times> 'w"
  cl_Patch :: "workflow_object \<Rightarrow> 'w \<Rightarrow> string option \<times> 'w"

text \<open>The result of a reconcile: the requeue delay in seconds, or an error.\<close>

type_synonym reconcile_result = "api_error + nat option"

definition IgnoreNotFound :: "api_error \<Rightarrow> reconcile_result" where
  "IgnoreNotFound e = (case e of api_NotFound \<Rightarrow> Inr None | api_failure m \<Rightarrow> Inl (api_failure m))"

definition workflowOwnerRef :: "workflow_object \<Rightarrow> OwnerReference" where
  "workflowOwnerRef wo = \<lparr>or_APIVersion = ''runtime.agents.smol-agents.ai/v1'', or_Kind = ''AgentWorkflow'', or_Name = wo_Name wo,
     or_UID = wo_UID wo, or_Controller = True, or_BlockOwnerDeletion = True\<rparr>"

definition ownedByWorkflow :: "AgentRun \<Rightarrow> workflow_object \<Rightarrow> bool" where
  "ownedByWorkflow run wo \<longleftrightarrow> list_ex (\<lambda>r. or_UID r = wo_UID wo \<and> or_Kind r = ''AgentWorkflow'') (run_Owners run)"

definition RollUpTeamUsage :: "Usage list \<Rightarrow> Usage" where
  "RollUpTeamUsage members = fold (\<lambda>u total. total\<lparr>Steps := Steps total + Steps u, Tokens := Tokens total + Tokens u,
     ToolCalls := ToolCalls total + ToolCalls u, CostUSDMilli := CostUSDMilli total + CostUSDMilli u\<rparr>) members zero_Usage"

subsection \<open>Routing\<close>

type_synonym children = "string \<rightharpoonup> AgentRun"

definition gather :: "workflow_object \<Rightarrow> AgentRun list \<Rightarrow> children" where
  "gather wo runs = fold (\<lambda>run ch. if ownedByWorkflow run wo then
       (case run_Labels run WorkflowNodeLabel of Some node \<Rightarrow> if node \<noteq> [] then ch(node \<mapsto> run) else ch | None \<Rightarrow> ch)
     else ch) runs Map.empty"

definition satisfied :: "'f float64_ops \<Rightarrow> json_codec \<Rightarrow> children \<Rightarrow> WorkflowEdge \<Rightarrow> bool" where
  "satisfied fo cd ch e =
     (if we_From e = WorkflowStart then True
      else case ch (we_From e) of
        None \<Rightarrow> False
      | Some c \<Rightarrow>
          if run_State c \<noteq> PhaseCompleted then False
          else if we_When e = [] then True
          else case CompilePredicate fo (we_When e) of
            Inl _ \<Rightarrow> False
          | Inr p \<Rightarrow> (case Predicate_Eval fo cd p (run_Output c) of Inl _ \<Rightarrow> False | Inr ok \<Rightarrow> ok))"

definition activated :: "'f float64_ops \<Rightarrow> json_codec \<Rightarrow> WorkflowEdge list \<Rightarrow> children \<Rightarrow> string \<Rightarrow> bool" where
  "activated fo cd edges ch node \<longleftrightarrow> list_ex (\<lambda>e. we_To e = node \<and> satisfied fo cd ch e) edges"

definition child_run :: "workflow_object \<Rightarrow> WorkflowNode \<Rightarrow> AgentRun" where
  "child_run wo node = \<lparr>run_Name = [], run_GenerateName = wo_Name wo @ ''-'' @ wn_Name node @ ''-'', run_Namespace = wo_Namespace wo,
     run_Labels = [WorkflowNodeLabel \<mapsto> wn_Name node], run_Owners = [workflowOwnerRef wo],
     run_AgentRef = wn_AgentRef node, run_Input = wn_Input node, run_State = [], run_Output = [], run_Usage = zero_Usage\<rparr>"

fun materialize ::
  "'w workflow_client \<Rightarrow> 'f float64_ops \<Rightarrow> json_codec \<Rightarrow> workflow_object \<Rightarrow> WorkflowNode list \<Rightarrow> children \<Rightarrow> 'w
   \<Rightarrow> (api_error + unit) \<times> children \<times> 'w" where
  "materialize cl fo cd wo [] ch w = (Inr (), ch, w)"
| "materialize cl fo cd wo (node # nodes) ch w =
     (if ch (wn_Name node) \<noteq> None \<or> \<not> activated fo cd (ws_Edges (wo_Spec wo)) ch (wn_Name node)
      then materialize cl fo cd wo nodes ch w
      else case cl_Create cl (child_run wo node) w of
        (Inl e, w) \<Rightarrow> (Inl e, ch, w)
      | (Inr child, w) \<Rightarrow> materialize cl fo cd wo nodes (ch(wn_Name node \<mapsto> child)) w)"

subsection \<open>Status\<close>

definition node_state :: "children \<Rightarrow> WorkflowNode \<Rightarrow> NodeState" where
  "node_state ch node = (case ch (wn_Name node) of
     None \<Rightarrow> \<lparr>ns_Name = wn_Name node, ns_Phase = [], ns_RunName = []\<rparr>
   | Some c \<Rightarrow> \<lparr>ns_Name = wn_Name node, ns_Phase = run_State c, ns_RunName = run_Name c\<rparr>)"

definition node_failed :: "children \<Rightarrow> WorkflowNode \<Rightarrow> bool" where
  "node_failed ch node = (case ch (wn_Name node) of
     None \<Rightarrow> False | Some c \<Rightarrow> Phase_Terminal (run_State c) \<and> run_State c \<noteq> PhaseCompleted)"

definition node_usages :: "children \<Rightarrow> WorkflowNode list \<Rightarrow> Usage list" where
  "node_usages ch nodes = List.map_filter (\<lambda>node. map_option run_Usage (ch (wn_Name node))) nodes"

definition end_edge :: "'f float64_ops \<Rightarrow> json_codec \<Rightarrow> WorkflowEdge list \<Rightarrow> children \<Rightarrow> WorkflowEdge option" where
  "end_edge fo cd edges ch = List.find (\<lambda>e. we_To e = WorkflowEnd \<and> satisfied fo cd ch e) edges"

definition final_output :: "children \<Rightarrow> WorkflowEdge option \<Rightarrow> bytes" where
  "final_output ch e = (case e of None \<Rightarrow> [] | Some e \<Rightarrow> (case ch (we_From e) of None \<Rightarrow> [] | Some c \<Rightarrow> run_Output c))"

text \<open>The phase, its reason and the requeue delay.\<close>

definition decide ::
  "'f float64_ops \<Rightarrow> json_codec \<Rightarrow> AgentWorkflowSpec \<Rightarrow> children \<Rightarrow> Phase \<times> string \<times> nat option" where
  "decide fo cd s ch =
     (if list_ex (node_failed ch) (ws_Nodes s) then (PhaseFailed, ''NodeFailed'', None)
      else if end_edge fo cd (ws_Edges s) ch \<noteq> None then (PhaseCompleted, ''ReachedEnd'', None)
      else if dom ch = {} then (PhasePending, ''Forming'', Some 10)
      else (PhaseRunning, ''Running'', Some 10))"

definition workflow_status :: "Phase \<Rightarrow> string \<Rightarrow> string \<Rightarrow> AgentWorkflowStatus" where
  "workflow_status phase reason message = \<lparr>st_Phase = phase, st_Reason = reason, st_Message = message, st_NodeStates = [],
     st_CumulativeUsage = zero_Usage, st_ObservedGeneration = 0\<rparr>"

definition applyWF ::
  "'w workflow_client \<Rightarrow> workflow_object \<Rightarrow> AgentWorkflowStatus \<Rightarrow> nat option \<Rightarrow> 'w \<Rightarrow> reconcile_result \<times> 'w" where
  "applyWF cl wo desired res w =
     (let desired = desired\<lparr>st_ObservedGeneration := wo_Generation wo\<rparr>
      in if wo_Status wo = desired then (Inr res, w)
         else case cl_UpdateStatus cl (wo\<lparr>wo_Status := desired\<rparr>) w of
           (Some e, w) \<Rightarrow> (IgnoreNotFound e, w)
         | (None, w) \<Rightarrow> (Inr res, w))"

definition emitResultEventOnce ::
  "'w workflow_client \<Rightarrow> workflow_object \<Rightarrow> string \<Rightarrow> Event \<Rightarrow> 'w \<Rightarrow> workflow_object \<times> 'w" where
  "emitResultEventOnce cl obj sink ev w =
     (if sink = [] \<or> wo_Annotations obj resultEmittedAnnotation = Some ''true'' then (obj, w)
      else case cl_Emit cl sink ev w of
        (Some _, w) \<Rightarrow> (obj, w)
      | (None, w) \<Rightarrow>
          (let obj = obj\<lparr>wo_Annotations := (wo_Annotations obj)(resultEmittedAnnotation \<mapsto> ''true'')\<rparr>
           in (obj, snd (cl_Patch cl obj w))))"

definition emitWorkflowResultOnce :: "'w workflow_client \<Rightarrow> workflow_object \<Rightarrow> bytes \<Rightarrow> 'w \<Rightarrow> workflow_object \<times> 'w" where
  "emitWorkflowResultOnce cl wo output = emitResultEventOnce cl wo (ws_ResultSink (wo_Spec wo))
     \<lparr>ev_ID = wo_UID wo, ev_Type = ''com.smol-agents.workflow.completed'',
      ev_Source = ''/namespaces/'' @ wo_Namespace wo @ ''/agentworkflows/'' @ wo_Name wo, ev_Subject = [], ev_Data = output\<rparr>"

subsection \<open>One reconcile\<close>

definition finish_reconcile ::
  "'w workflow_client \<Rightarrow> 'f float64_ops \<Rightarrow> json_codec \<Rightarrow> workflow_object \<Rightarrow> children \<Rightarrow> 'w \<Rightarrow> reconcile_result \<times> 'w" where
  "finish_reconcile cl fo cd wo ch w =
     (let s = wo_Spec wo; (phase, reason, res) = decide fo cd s ch;
          (wo, w) = (if phase = PhaseCompleted
            then emitWorkflowResultOnce cl wo (final_output ch (end_edge fo cd (ws_Edges s) ch)) w else (wo, w))
      in applyWF cl wo (workflow_status phase reason []
           \<lparr>st_NodeStates := map (node_state ch) (ws_Nodes s),
            st_CumulativeUsage := RollUpTeamUsage (node_usages ch (ws_Nodes s))\<rparr>) res w)"

definition reconcile_valid ::
  "'w workflow_client \<Rightarrow> 'f float64_ops \<Rightarrow> json_codec \<Rightarrow> workflow_object \<Rightarrow> 'w \<Rightarrow> reconcile_result \<times> 'w" where
  "reconcile_valid cl fo cd wo w =
     (if ws_Paused (wo_Spec wo) then applyWF cl wo (workflow_status PhasePending ''Template''
        ''paused workflow is an event template; per-event instances run instead'') None w
      else case cl_List cl (wo_Namespace wo) w of
        (Inl e, w) \<Rightarrow> (Inl e, w)
      | (Inr runs, w) \<Rightarrow> (case materialize cl fo cd wo (ws_Nodes (wo_Spec wo)) (gather wo runs) w of
          (Inl e, _, w) \<Rightarrow> (Inl e, w)
        | (Inr _, ch, w) \<Rightarrow> finish_reconcile cl fo cd wo ch w))"

text \<open>The message of a joined error has its parts on lines of their own.\<close>

fun join_errors :: "string list \<Rightarrow> string" where
  "join_errors [] = []"
| "join_errors [e] = e"
| "join_errors (e # es) = e @ [CHR 0x0A] @ join_errors es"

definition wf_Reconcile ::
  "'w workflow_client \<Rightarrow> 'f float64_ops \<Rightarrow> json_codec \<Rightarrow> string list \<Rightarrow> string \<Rightarrow> 'w \<Rightarrow> (reconcile_result \<times> 'w) option" where
  "wf_Reconcile cl fo cd keys name w = (case cl_Get cl name w of
     (Inl e, w) \<Rightarrow> Some (IgnoreNotFound e, w)
   | (Inr wo, w) \<Rightarrow> map_option (\<lambda>errs.
       if errs \<noteq> [] then applyWF cl wo (workflow_status PhaseFailed ''InvalidSpec'' (join_errors errs)) None w
       else reconcile_valid cl fo cd wo w)
         (ValidateAgentWorkflow fo keys \<lparr>wf_Name = wo_Name wo, wf_Spec = wo_Spec wo\<rparr>))"

subsection \<open>Histories of a workflow\<close>

text \<open>
  Two things change the child runs of a workflow: a reconcile, complete or cut short by an error of
  the server, and the progress of a run that is not in a terminal phase.
\<close>

inductive workflow_step :: "'w workflow_client \<Rightarrow> 'f float64_ops \<Rightarrow> json_codec \<Rightarrow> workflow_object \<Rightarrow> children \<Rightarrow> children \<Rightarrow> bool"
  for cl fo cd wo where
  step_reconcile: "materialize cl fo cd wo (ws_Nodes (wo_Spec wo)) ch w = (r, ch', w') \<Longrightarrow> workflow_step cl fo cd wo ch ch'"
| step_progress: "ch n = Some run \<Longrightarrow> \<not> Phase_Terminal (run_State run) \<Longrightarrow> workflow_step cl fo cd wo ch (ch(n \<mapsto> run'))"

inductive workflow_history :: "'w workflow_client \<Rightarrow> 'f float64_ops \<Rightarrow> json_codec \<Rightarrow> workflow_object \<Rightarrow> children \<Rightarrow> bool" for cl fo cd wo where
  history_start: "workflow_history cl fo cd wo Map.empty"
| history_step: "workflow_history cl fo cd wo ch \<Longrightarrow> workflow_step cl fo cd wo ch ch' \<Longrightarrow> workflow_history cl fo cd wo ch'"

text \<open>A vertex is routed when a chain of satisfied edges leads to it from START.\<close>

inductive routed :: "'f float64_ops \<Rightarrow> json_codec \<Rightarrow> WorkflowEdge list \<Rightarrow> children \<Rightarrow> string \<Rightarrow> bool"
  for fo cd edges ch where
  routed_entry: "e \<in> set edges \<Longrightarrow> we_From e = WorkflowStart \<Longrightarrow> routed fo cd edges ch (we_To e)"
| routed_edge: "e \<in> set edges \<Longrightarrow> routed fo cd edges ch (we_From e) \<Longrightarrow> satisfied fo cd ch e \<Longrightarrow> routed fo cd edges ch (we_To e)"

text \<open>Completed runs stay what they are.\<close>

definition keeps :: "children \<Rightarrow> children \<Rightarrow> bool" where
  "keeps ch ch' \<longleftrightarrow> (\<forall>n run. ch n = Some run \<longrightarrow> run_State run = PhaseCompleted \<longrightarrow> ch' n = Some run)"

lemma keeps_refl: "keeps ch ch"
  by (simp add: keeps_def)

lemma keeps_trans: "keeps ch ch' \<Longrightarrow> keeps ch' ch'' \<Longrightarrow> keeps ch ch''"
  by (simp add: keeps_def)

lemma keeps_new: "ch n = None \<Longrightarrow> keeps ch (ch(n \<mapsto> run))"
  by (auto simp: keeps_def)

lemma satisfied_keeps: "keeps ch ch' \<Longrightarrow> satisfied fo cd ch e \<Longrightarrow> satisfied fo cd ch' e"
  by (auto simp: satisfied_def keeps_def split: if_splits option.splits)

lemma routed_keeps: "routed fo cd edges ch n \<Longrightarrow> keeps ch ch' \<Longrightarrow> routed fo cd edges ch' n"
  by (induction rule: routed.induct) (auto intro: routed.intros satisfied_keeps)

abbreviation sound :: "'f float64_ops \<Rightarrow> json_codec \<Rightarrow> workflow_object \<Rightarrow> children \<Rightarrow> bool" where
  "sound fo cd wo ch \<equiv> \<forall>n. ch n \<noteq> None \<longrightarrow> n \<in> wn_Name ` set (ws_Nodes (wo_Spec wo)) \<and> routed fo cd (ws_Edges (wo_Spec wo)) ch n"

lemma edge_routed:
  assumes "sound fo cd wo ch" "e \<in> set (ws_Edges (wo_Spec wo))" "satisfied fo cd ch e"
  shows "routed fo cd (ws_Edges (wo_Spec wo)) ch (we_To e)"
proof (cases "we_From e = WorkflowStart")
  case False
  with assms(3) have "ch (we_From e) \<noteq> None" by (auto simp: satisfied_def split: option.splits)
  with assms show ?thesis by (blast intro: routed_edge)
qed (use assms(2) routed_entry in blast)

lemma activated_routed:
  assumes "sound fo cd wo ch" "activated fo cd (ws_Edges (wo_Spec wo)) ch n"
  shows "routed fo cd (ws_Edges (wo_Spec wo)) ch n"
  using assms(2) edge_routed [OF assms(1)] by (auto simp: activated_def list_ex_iff)

lemma materialize_sound:
  assumes "materialize cl fo cd wo nodes ch w = (r, ch', w')" "sound fo cd wo ch" "set nodes \<subseteq> set (ws_Nodes (wo_Spec wo))"
  shows "keeps ch ch' \<and> sound fo cd wo ch'"
  using assms
proof (induction nodes arbitrary: ch w)
  case Nil
  then show ?case by (auto simp: keeps_refl)
next
  case (Cons node nodes)
  let ?n = "wn_Name node"
  show ?case
  proof (cases "ch ?n \<noteq> None \<or> \<not> activated fo cd (ws_Edges (wo_Spec wo)) ch ?n")
    case True
    with Cons show ?thesis by simp
  next
    case False
    obtain c w1 where c: "cl_Create cl (child_run wo node) w = (c, w1)" by fastforce
    show ?thesis
    proof (cases c)
      case (Inl e)
      with Cons.prems False c show ?thesis by (auto simp: keeps_refl)
    next
      case (Inr child)
      let ?ch = "ch(?n \<mapsto> child)"
      have k: "keeps ch ?ch" using False by (intro keeps_new) simp
      have "routed fo cd (ws_Edges (wo_Spec wo)) ch ?n" using False by (intro activated_routed [OF Cons.prems(2)]) simp
      then have s: "sound fo cd wo ?ch"
        using Cons.prems(2,3) routed_keeps [OF _ k, of fo cd "ws_Edges (wo_Spec wo)"] by (auto split: if_splits)
      have "materialize cl fo cd wo nodes ?ch w1 = (r, ch', w')" using Cons.prems(1) False c Inr by simp
      moreover have "set nodes \<subseteq> set (ws_Nodes (wo_Spec wo))" using Cons.prems(3) by simp
      ultimately have "keeps ?ch ch' \<and> sound fo cd wo ch'" using Cons.IH s by blast
      with keeps_trans [OF k] show ?thesis by blast
    qed
  qed
qed

lemma workflow_step_sound:
  assumes "workflow_step cl fo cd wo ch ch'" "sound fo cd wo ch"
  shows "sound fo cd wo ch'"
  using assms
proof cases
  case (step_reconcile w r w')
  from materialize_sound [OF this assms(2)] show ?thesis by simp
next
  case (step_progress n run run')
  then have "keeps ch ch'" by (auto simp: keeps_def Phase_Terminal_def)
  with assms(2) step_progress routed_keeps [of fo cd "ws_Edges (wo_Spec wo)" ch _ ch'] show ?thesis
    by (auto split: if_splits)
qed

lemma workflow_history_sound: "workflow_history cl fo cd wo ch \<Longrightarrow> sound fo cd wo ch"
  by (induction rule: workflow_history.induct) (simp, rule workflow_step_sound)

lemma decide_Completed:
  assumes "fst (decide fo cd s ch) = PhaseCompleted"
  shows "\<not> list_ex (node_failed ch) (ws_Nodes s) \<and> (\<exists>e\<in>set (ws_Edges s). we_To e = WorkflowEnd \<and> satisfied fo cd ch e)"
  using assms by (auto simp: decide_def end_edge_def phase_defs find_None_iff find_Some_iff split: if_splits)

text \<open>
  Claim C35.  Routing is sound in every history of reconciles and run progress: a child run exists
  only for a declared node to which a chain of satisfied edges leads from START, each of its links a
  completed run whose output passed the predicate; and a workflow is declared Completed only when
  such a chain leads to END and no node failed.
\<close>

theorem workflow_routing_sound:
  assumes "workflow_history cl fo cd wo ch"
  shows "(\<forall>n. ch n \<noteq> None \<longrightarrow> n \<in> wn_Name ` set (ws_Nodes (wo_Spec wo)) \<and> routed fo cd (ws_Edges (wo_Spec wo)) ch n)
    \<and> (fst (decide fo cd (wo_Spec wo) ch) = PhaseCompleted \<longrightarrow>
         routed fo cd (ws_Edges (wo_Spec wo)) ch WorkflowEnd \<and> \<not> list_ex (node_failed ch) (ws_Nodes (wo_Spec wo)))"
  using workflow_history_sound [OF assms] decide_Completed [of fo cd "wo_Spec wo" ch] edge_routed [where fo = fo and cd = cd and wo = wo and ch = ch] by metis


text \<open>Two branches: one reaches END while the other runs.\<close>

definition two_branches :: AgentWorkflowSpec where
  "two_branches = (wf_Spec two_steps)\<lparr>ws_Edges := [\<lparr>we_From = WorkflowStart, we_To = ''a'', we_When = []\<rparr>,
     \<lparr>we_From = WorkflowStart, we_To = ''b'', we_When = []\<rparr>, \<lparr>we_From = ''a'', we_To = WorkflowEnd, we_When = []\<rparr>]\<rparr>"

definition branches_object :: workflow_object where
  "branches_object = \<lparr>wo_Name = ''w'', wo_Namespace = ''n'', wo_UID = ''u'', wo_Generation = 1, wo_Annotations = Map.empty,
     wo_Spec = two_branches, wo_Status = workflow_status [] [] []\<rparr>"

text \<open>A server that only stores what it is given.\<close>

definition accepting :: "unit workflow_client" where
  "accepting = \<lparr>cl_Get = (\<lambda>_ w. (Inr branches_object, w)), cl_List = (\<lambda>_ w. (Inr [], w)), cl_Create = (\<lambda>run w. (Inr run, w)),
     cl_UpdateStatus = (\<lambda>_ w. (None, w)), cl_Emit = (\<lambda>_ _ w. (None, w)), cl_Patch = (\<lambda>_ w. (None, w))\<rparr>"

definition branch_run :: "nat \<Rightarrow> Phase \<Rightarrow> AgentRun" where
  "branch_run i p = (child_run branches_object (ws_Nodes two_branches ! i))\<lparr>run_State := p\<rparr>"

definition both_started :: "Phase \<Rightarrow> Phase \<Rightarrow> children" where
  "both_started p q = [''a'' \<mapsto> branch_run 0 p, ''b'' \<mapsto> branch_run 1 q]"

lemma both_started_history: "workflow_history accepting digit_ops score_codec branches_object (both_started PhaseCompleted PhaseRunning)"
proof -
  have m: "materialize accepting digit_ops score_codec branches_object (ws_Nodes (wo_Spec branches_object)) Map.empty () =
      (Inr (), both_started [] [], ())"
    by (simp add: branches_object_def two_branches_def two_steps_def accepting_def activated_def satisfied_def
        both_started_def branch_run_def child_run_def WorkflowStart_def WorkflowEnd_def)
  have "workflow_history accepting digit_ops score_codec branches_object (both_started [] [])"
    by (rule history_step [OF history_start step_reconcile [OF m]])
  moreover have "both_started p q ''a'' = Some (branch_run 0 p)" "both_started p q ''b'' = Some (branch_run 1 q)"
    "(both_started p q)(''a'' \<mapsto> branch_run 0 p') = both_started p' q" "(both_started p q)(''b'' \<mapsto> branch_run 1 q') = both_started p q'"
    for p q p' q' by (auto simp: both_started_def fun_eq_iff)
  moreover have "\<not> Phase_Terminal (run_State (branch_run i []))" for i
    by (simp add: branch_run_def Phase_Terminal_def phase_defs)
  ultimately show ?thesis by (metis history_step step_progress)
qed

lemma both_started_Completed: "fst (decide digit_ops score_codec two_branches (both_started PhaseCompleted PhaseRunning)) = PhaseCompleted"
  by (simp add: decide_def two_branches_def two_steps_def both_started_def branch_run_def node_failed_def end_edge_def
      satisfied_def Phase_Terminal_def phase_defs WorkflowStart_def WorkflowEnd_def)

theorem workflow_routing_sound_witness:
  "routed digit_ops score_codec (ws_Edges two_branches) (both_started PhaseCompleted PhaseRunning) WorkflowEnd"
  using workflow_routing_sound [OF both_started_history] both_started_Completed by (simp add: branches_object_def)


end
