(* ===== verification/EventLog.thy ===== *)
theory EventLog
  imports MemoryTypes GoStrings Json
begin

section \<open>The event log backend\<close>

text \<open>
  The append-only memory backend of \<open>pkg/memory/backend_eventlog.go\<close>, with \<open>matchMetadata\<close> of
  \<open>backend_vector.go\<close>.  What a call reads from the outside is its environment: a fresh UUID, the
  time and the time in the RFC 3339 format.  \<open>strings.ToLower\<close> and the order in which
  \<open>sort.Slice\<close>, which is not stable, leaves equal scores are arguments.
\<close>

record eventEntry =
  ee_doc :: Document
  ee_tombstone :: bool

record EventLogBackend =
  el_log :: "eventEntry list"
  el_idx :: "string \<rightharpoonup> nat"

definition NewEventLogBackend :: EventLogBackend where
  "NewEventLogBackend = \<lparr>el_log = [], el_idx = Map.empty\<rparr>"

record write_env =
  env_uuid :: string
  env_now :: time
  env_stamp :: string

definition fill_doc :: "write_env \<Rightarrow> Document \<Rightarrow> Document" where
  "fill_doc e doc =
     (let doc = (if doc_ID doc = [] then doc\<lparr>doc_ID := env_uuid e\<rparr> else doc);
          doc = (if doc_CreatedAt doc = zero_time then doc\<lparr>doc_CreatedAt := env_now e\<rparr> else doc);
          doc = doc\<lparr>doc_UpdatedAt := env_now e\<rparr>
      in if doc_Version doc = [] then doc\<lparr>doc_Version := env_stamp e\<rparr> else doc)"

definition append_entry :: "eventEntry \<Rightarrow> string \<Rightarrow> EventLogBackend \<Rightarrow> EventLogBackend" where
  "append_entry en i b = b\<lparr>el_log := el_log b @ [en], el_idx := (el_idx b)(i \<mapsto> length (el_log b @ [en]) - 1)\<rparr>"

definition el_Write :: "write_env \<Rightarrow> Document \<Rightarrow> EventLogBackend \<Rightarrow> (mem_error + WriteResult) \<times> EventLogBackend" where
  "el_Write e doc b =
     (if doc_Tenant doc = [] \<or> doc_Namespace doc = []
      then (Inl (Invalid ''eventlog write: tenant and namespace are required''), b)
      else let doc = fill_doc e doc
           in (Inr \<lparr>wr_ID = doc_ID doc, wr_Version = doc_Version doc\<rparr>,
               append_entry \<lparr>ee_doc = doc, ee_tombstone = False\<rparr> (doc_ID doc) b))"

definition el_missing :: "string \<Rightarrow> mem_error" where
  "el_missing i = NotFound (''eventlog: document not found: '' @ i)"

text \<open>The entry an id stands for, under the checks \<open>Get\<close> and \<open>Delete\<close> share.\<close>

definition el_lookup :: "string \<Rightarrow> Filter \<Rightarrow> EventLogBackend \<Rightarrow> mem_error + Document" where
  "el_lookup i f b = (case el_idx b i of
     None \<Rightarrow> Inl (el_missing i)
   | Some n \<Rightarrow>
       let entry = el_log b ! n
       in if ee_tombstone entry then Inl (el_missing i)
          else if doc_Tenant (ee_doc entry) \<noteq> f_Tenant f then Inl (el_missing i)
          else if f_Namespace f \<noteq> [] \<and> doc_Namespace (ee_doc entry) \<noteq> f_Namespace f then Inl (el_missing i)
          else Inr (ee_doc entry))"

definition el_Get :: "string \<Rightarrow> Filter \<Rightarrow> EventLogBackend \<Rightarrow> mem_error + Document" where
  "el_Get i f b = (if f_Tenant f = [] then Inl (Invalid ''eventlog get: tenant is required'') else el_lookup i f b)"

definition el_Delete :: "write_env \<Rightarrow> string \<Rightarrow> Filter \<Rightarrow> EventLogBackend \<Rightarrow> mem_error option \<times> EventLogBackend" where
  "el_Delete e i f b =
     (if f_Tenant f = [] then (Some (Invalid ''eventlog delete: tenant is required''), b)
      else case el_lookup i f b of
        Inl er \<Rightarrow> (Some er, b)
      | Inr doc \<Rightarrow> (None, append_entry \<lparr>ee_doc = doc\<lparr>doc_UpdatedAt := env_now e\<rparr>, ee_tombstone = True\<rparr> i b))"

subsection \<open>Retrieval\<close>

definition matchMetadata :: "(string \<rightharpoonup> string) \<Rightarrow> (string \<times> string) list \<Rightarrow> bool" where
  "matchMetadata got want \<longleftrightarrow> list_all (\<lambda>(k, v). (case got k of Some x \<Rightarrow> x | None \<Rightarrow> []) = v) want"

text \<open>\<open>strings.Fields\<close>: the pieces between runs of white space; \<open>cur\<close> is the piece being read.\<close>

function fields_loop :: "bytes \<Rightarrow> bytes \<Rightarrow> bytes list" where
  "fields_loop cur [] = (if cur = [] then [] else [cur])"
| "fields_loop cur (c # s) =
     (if space_prefix space_runes (c # s) = 0 then fields_loop (cur @ [c]) s
      else (if cur = [] then [] else [cur]) @ fields_loop [] (drop (space_prefix space_runes (c # s)) (c # s)))"
  by pat_completeness auto
termination
  by (relation "measure (\<lambda>(_, s). length s)") auto

definition strings_Fields :: "bytes \<Rightarrow> bytes list" where
  "strings_Fields s = fields_loop [] s"

definition el_score :: "(bytes \<Rightarrow> bytes) \<Rightarrow> string \<Rightarrow> bytes \<Rightarrow> rat option" where
  "el_score lower query content =
     (if query \<noteq> [] then
        (let terms = strings_Fields (lower query); hits = length (filter (str_Contains (lower content)) terms)
         in if hits = 0 then None else Some (of_nat hits / of_nat (length terms)))
      else Some (1 / 2))"

definition el_chunk :: "Document \<Rightarrow> rat \<Rightarrow> ScoredChunk" where
  "el_chunk doc score = \<lparr>sc_Chunk = \<lparr>ch_Index = 0, ch_Text = doc_Content doc, ch_Embedding = [],
     ch_DocumentID = doc_ID doc, ch_StartByte = 0, ch_EndByte = int (length (doc_Content doc))\<rparr>, sc_Score = score\<rparr>"

text \<open>The scan from the end of the log; \<open>entries\<close> is the log reversed.\<close>

fun el_scan ::
  "(bytes \<Rightarrow> bytes) \<Rightarrow> string \<Rightarrow> Filter \<Rightarrow> (string \<times> string) list \<Rightarrow> eventEntry list \<Rightarrow> string set \<Rightarrow> ScoredChunk list" where
  "el_scan lower query f want [] seen = []"
| "el_scan lower query f want (e # entries) seen =
     (let doc = ee_doc e; rest = el_scan lower query f want entries (insert (doc_ID doc) seen)
      in if doc_ID doc \<in> seen then el_scan lower query f want entries seen
         else if ee_tombstone e then rest
         else if doc_Tenant doc \<noteq> f_Tenant f then rest
         else if f_Namespace f \<noteq> [] \<and> doc_Namespace doc \<noteq> f_Namespace f then rest
         else if \<not> matchMetadata (doc_Metadata doc) want then rest
         else case el_score lower query (doc_Content doc) of None \<Rightarrow> rest | Some score \<Rightarrow> el_chunk doc score # rest)"

definition el_Retrieve ::
  "(bytes \<Rightarrow> bytes) \<Rightarrow> (ScoredChunk list \<Rightarrow> ScoredChunk list) \<Rightarrow> string \<Rightarrow> int \<Rightarrow> Filter \<Rightarrow> (string \<times> string) list
   \<Rightarrow> EventLogBackend \<Rightarrow> mem_error + (ScoredChunk list \<times> int)" where
  "el_Retrieve lower sort_scores query topK f want b =
     (if f_Tenant f = [] then Inl (PermissionDenied ''eventlog retrieve: tenant is required'')
      else let topK = (if topK \<le> 0 then 10 else topK);
               candidates = sort_scores (el_scan lower query f want (rev (el_log b)) {})
           in Inr (if int (length candidates) > topK then take (nat topK) candidates else candidates, int (length candidates)))"

definition el_namespaces :: "Filter \<Rightarrow> EventLogBackend \<Rightarrow> string set" where
  "el_namespaces f b = set (List.map_filter (\<lambda>e. if ee_tombstone e \<or> doc_Tenant (ee_doc e) \<noteq> f_Tenant f then None
     else Some (doc_Namespace (ee_doc e))) (rev (el_log b)))"

text \<open>The names, sorted by \<open>sort.Strings\<close>.\<close>

definition el_ListNamespaces :: "(string set \<Rightarrow> string list) \<Rightarrow> Filter \<Rightarrow> EventLogBackend \<Rightarrow> mem_error + string list" where
  "el_ListNamespaces sorted_list f b =
     (if f_Tenant f = [] then Inl (PermissionDenied ''eventlog list-namespaces: tenant is required'')
      else Inr (sorted_list (el_namespaces f b)))"

definition el_Summarize :: "mem_error + string" where
  "el_Summarize = Inl (ErrNotSupported ''Summarize'' ''eventlog'')"
definition el_Branch :: "mem_error + BranchInfo" where
  "el_Branch = Inl (ErrNotSupported ''Branch'' ''eventlog'')"
definition el_ListBranches :: "mem_error + BranchInfo list" where
  "el_ListBranches = Inl (ErrNotSupported ''ListBranches'' ''eventlog'')"

subsection \<open>The index and the log agree\<close>

definition el_ok :: "EventLogBackend \<Rightarrow> bool" where
  "el_ok b \<longleftrightarrow>
     (\<forall>e\<in>set (el_log b). el_idx b (doc_ID (ee_doc e)) \<noteq> None)
   \<and> (\<forall>i n. el_idx b i = Some n \<longrightarrow> n < length (el_log b) \<and> doc_ID (ee_doc (el_log b ! n)) = i
       \<and> (\<forall>e\<in>set (drop (Suc n) (el_log b)). doc_ID (ee_doc e) \<noteq> i))"

lemma el_ok_New: "el_ok NewEventLogBackend"
  by (simp add: el_ok_def NewEventLogBackend_def)

lemma append_entry_ok:
  assumes "el_ok b" "doc_ID (ee_doc en) = i"
  shows "el_ok (append_entry en i b)"
proof -
  have "n < length (el_log b @ [en]) \<and> doc_ID (ee_doc ((el_log b @ [en]) ! n)) = j
      \<and> (\<forall>e\<in>set (drop (Suc n) (el_log b @ [en])). doc_ID (ee_doc e) \<noteq> j)" if "el_idx (append_entry en i b) j = Some n" for j n
  proof (cases "j = i")
    case True
    with that assms(2) show ?thesis by (auto simp: append_entry_def nth_append)
  next
    case False
    with that have "el_idx b j = Some n" by (simp add: append_entry_def)
    with assms(1) have old: "n < length (el_log b)" "doc_ID (ee_doc (el_log b ! n)) = j"
      "\<forall>e\<in>set (drop (Suc n) (el_log b)). doc_ID (ee_doc e) \<noteq> j" by (auto simp: el_ok_def)
    then have "drop (Suc n) (el_log b @ [en]) = drop (Suc n) (el_log b) @ [en]" by simp
    with old False assms(2) show ?thesis by (simp add: nth_append)
  qed
  moreover have "\<forall>e\<in>set (el_log b @ [en]). el_idx (append_entry en i b) (doc_ID (ee_doc e)) \<noteq> None"
    using assms by (auto simp: el_ok_def append_entry_def)
  ultimately show ?thesis by (simp add: el_ok_def append_entry_def)
qed

lemma el_ok_idx: "el_ok b \<Longrightarrow> el_idx b i = Some n \<Longrightarrow> n < length (el_log b) \<and> doc_ID (ee_doc (el_log b ! n)) = i"
  by (simp add: el_ok_def)

lemma el_lookup_Inr:
  "el_lookup i f b = Inr d \<longleftrightarrow> (\<exists>n. el_idx b i = Some n \<and> ee_doc (el_log b ! n) = d \<and> \<not> ee_tombstone (el_log b ! n) \<and> in_scope f d)"
  by (auto simp: el_lookup_def in_scope_def Let_def split: option.splits if_splits)

lemma lookup_append_other:
  assumes "el_ok b" "i \<noteq> j"
  shows "el_lookup j f (append_entry en i b) = el_lookup j f b"
proof -
  have "el_idx b j = Some n \<Longrightarrow> n < length (el_log b)" for n using el_ok_idx [OF assms(1)] by blast
  then show ?thesis using assms(2)
    by (auto simp: el_lookup_def append_entry_def nth_append Let_def split: option.split)
qed

lemma lookup_append_same:
  "el_lookup i f (append_entry en i b) = (if ee_tombstone en \<or> \<not> in_scope f (ee_doc en) then Inl (el_missing i) else Inr (ee_doc en))"
  by (simp add: el_lookup_def append_entry_def in_scope_def Let_def)

lemma fill_doc_fields [simp]:
  "doc_Tenant (fill_doc e d) = doc_Tenant d" "doc_Namespace (fill_doc e d) = doc_Namespace d" "doc_Content (fill_doc e d) = doc_Content d"
  by (simp_all add: fill_doc_def Let_def)

lemma el_Write_Inr:
  "el_Write e d b = (Inr r, b') \<longleftrightarrow> doc_Tenant d \<noteq> [] \<and> doc_Namespace d \<noteq> []
     \<and> r = \<lparr>wr_ID = doc_ID (fill_doc e d), wr_Version = doc_Version (fill_doc e d)\<rparr>
     \<and> b' = append_entry \<lparr>ee_doc = fill_doc e d, ee_tombstone = False\<rparr> (doc_ID (fill_doc e d)) b"
  by (auto simp: el_Write_def Let_def split: if_splits)

lemma el_Delete_None:
  "el_Delete e i f b = (None, b') \<longleftrightarrow> f_Tenant f \<noteq> [] \<and> (\<exists>d. el_lookup i f b = Inr d
     \<and> b' = append_entry \<lparr>ee_doc = d\<lparr>doc_UpdatedAt := env_now e\<rparr>, ee_tombstone = True\<rparr> i b)"
  by (auto simp: el_Delete_def split: if_splits sum.splits)

lemma el_Write_ok: "el_Write e d b = (r, b') \<Longrightarrow> el_ok b \<Longrightarrow> el_ok b'"
  by (auto simp: el_Write_def Let_def append_entry_ok split: if_splits)

lemma lookup_ID: "el_ok b \<Longrightarrow> el_lookup i f b = Inr d \<Longrightarrow> doc_ID d = i"
  by (auto simp: el_lookup_Inr dest: el_ok_idx)

lemma el_Delete_ok: "el_Delete e i f b = (r, b') \<Longrightarrow> el_ok b \<Longrightarrow> el_ok b'"
  by (auto simp: el_Delete_def split: if_splits sum.splits intro!: append_entry_ok dest: lookup_ID)

interpretation evl: memory_backend el_ok el_Write el_Get el_Delete
proof (unfold_locales, goal_cases)
  case (1 i f s d)
  then show ?case by (auto simp: el_Get_def el_lookup_Inr split: if_splits)
next
  case (2 e d s r s')
  then show ?case by (auto simp: el_Write_Inr el_Get_def lookup_append_same scope_of_def in_scope_def)
next
  case (3 e d s r s' i f)
  then show ?case by (auto simp: el_Write_Inr el_Get_def lookup_append_other)
next
  case (4 e d s er s')
  then show ?case by (auto simp: el_Write_def Let_def split: if_splits)
next
  case (5 e i f s s' f')
  then show ?case by (auto simp: el_Delete_None el_Get_def lookup_append_same)
next
  case (6 e i f s s')
  then show ?case by (auto simp: el_Delete_None el_Get_def)
next
  case (7 e i f s s' j f')
  then show ?case by (auto simp: el_Delete_None el_Get_def lookup_append_other)
next
  case (8 e i f s er s')
  then show ?case by (auto simp: el_Delete_def split: if_splits sum.splits)
next
  case (9 e d s res s')
  then show ?case by (rule el_Write_ok)
next
  case (10 e i f s y s')
  then show ?case by (rule el_Delete_ok)
qed

subsection \<open>Properties of the event log\<close>

text \<open>The states a sequence of writes and deletes leads to.\<close>

inductive el_reachable :: "EventLogBackend \<Rightarrow> bool" where
  reach_New: "el_reachable NewEventLogBackend"
| reach_Write: "el_reachable b \<Longrightarrow> el_Write e d b = (r, b') \<Longrightarrow> el_reachable b'"
| reach_Delete: "el_reachable b \<Longrightarrow> el_Delete e i f b = (x, b') \<Longrightarrow> el_reachable b'"

lemma el_reachable_ok: "el_reachable b \<Longrightarrow> el_ok b"
  by (induction rule: el_reachable.induct) (auto intro: el_ok_New el_Write_ok el_Delete_ok)

text \<open>The latest entry of an id, looked for from the end of the log.\<close>

definition latest :: "eventEntry list \<Rightarrow> string \<Rightarrow> eventEntry option" where
  "latest es i = List.find (\<lambda>e. doc_ID (ee_doc e) = i) (rev es)"

lemma idx_latest:
  assumes "el_ok b"
  shows "map_option (\<lambda>n. el_log b ! n) (el_idx b i) = latest (el_log b) i"
proof (cases "el_idx b i")
  case None
  then have "\<forall>e\<in>set (el_log b). doc_ID (ee_doc e) \<noteq> i" using assms by (auto simp: el_ok_def)
  then have "latest (el_log b) i = None" by (simp add: latest_def find_None_iff)
  with None show ?thesis by simp
next
  case (Some n)
  with assms have n: "n < length (el_log b)" "doc_ID (ee_doc (el_log b ! n)) = i"
    "\<forall>e\<in>set (drop (Suc n) (el_log b)). doc_ID (ee_doc e) \<noteq> i" by (auto simp: el_ok_def)
  have "el_log b = take n (el_log b) @ el_log b ! n # drop (Suc n) (el_log b)" by (rule id_take_nth_drop [OF n(1)])
  then have rv: "rev (el_log b) = rev (drop (Suc n) (el_log b)) @ el_log b ! n # rev (take n (el_log b))"
    by (metis rev_append rev.simps(2) append_assoc append_Cons append_Nil)
  have "List.find P (xs @ y # ys) = Some y" if "\<forall>x\<in>set xs. \<not> P x" "P y" for P xs and y :: eventEntry and ys
    using that by (induction xs) auto
  then have "latest (el_log b) i = Some (el_log b ! n)" unfolding latest_def rv using n(2,3) by simp
  with Some show ?thesis by simp
qed

definition served :: "Filter \<Rightarrow> (string \<times> string) list \<Rightarrow> eventEntry \<Rightarrow> bool" where
  "served f want e \<longleftrightarrow> \<not> ee_tombstone e \<and> in_scope f (ee_doc e) \<and> matchMetadata (doc_Metadata (ee_doc e)) want"

definition offered ::
  "(bytes \<Rightarrow> bytes) \<Rightarrow> string \<Rightarrow> Filter \<Rightarrow> (string \<times> string) list \<Rightarrow> eventEntry \<Rightarrow> ScoredChunk \<Rightarrow> bool" where
  "offered lower query f want e c \<longleftrightarrow> served f want e
     \<and> (\<exists>sc. el_score lower query (doc_Content (ee_doc e)) = Some sc \<and> c = el_chunk (ee_doc e) sc)"

lemma el_scan_Cons:
  "c \<in> set (el_scan lower query f want (e # entries) seen) \<longleftrightarrow>
     (if doc_ID (ee_doc e) \<in> seen then c \<in> set (el_scan lower query f want entries seen)
      else offered lower query f want e c \<or> c \<in> set (el_scan lower query f want entries (insert (doc_ID (ee_doc e)) seen)))"
  by (auto simp: Let_def offered_def served_def in_scope_def split: option.split)

lemma el_scan_set:
  "c \<in> set (el_scan lower query f want entries seen) \<longleftrightarrow>
     (\<exists>i e. i \<notin> seen \<and> List.find (\<lambda>e. doc_ID (ee_doc e) = i) entries = Some e \<and> offered lower query f want e c)"
proof (induction entries arbitrary: seen)
  case (Cons e entries)
  show ?case unfolding el_scan_Cons Cons.IH by (simp split: if_split) (metis option.inject)
qed simp

text \<open>
  Claim C37.  Retrieval and lookup agree in every reachable state: whatever the history of writes
  and deletes, the scan over the log offers a chunk exactly for the documents that a lookup by id
  serves to the same caller, that pass the metadata filter and that score; superseded and deleted
  versions never appear.
\<close>

theorem el_Retrieve_agrees_with_Get:
  assumes "el_reachable b" "f_Tenant f \<noteq> []"
  shows "set (el_scan lower query f want (rev (el_log b)) {}) =
    {el_chunk d sc |d sc i. el_Get i f b = Inr d \<and> matchMetadata (doc_Metadata d) want \<and> el_score lower query (doc_Content d) = Some sc}"
proof -
  have "el_Get i f b = Inr d \<longleftrightarrow> (\<exists>e. latest (el_log b) i = Some e \<and> ee_doc e = d \<and> \<not> ee_tombstone e \<and> in_scope f d)" for i d
    using assms(2) idx_latest [OF el_reachable_ok [OF assms(1)], of i, symmetric]
    by (auto simp: el_Get_def el_lookup_Inr)
  then show ?thesis by (auto simp: el_scan_set offered_def latest_def served_def) blast+
qed

text \<open>
  Claim C38.  The index knows ids, not tenants: a write by another tenant under the same id takes
  the document away from its owner, who can no longer read or delete it.
\<close>

theorem el_foreign_write_hides:
  assumes "el_Get i f b = Inr d" "el_Write e d' b = (Inr r, b')" "wr_ID r = i" "doc_Tenant d' \<noteq> f_Tenant f"
  shows "el_Get i f b' = Inl (el_missing i) \<and> el_Delete e' i f b' = (Some (el_missing i), b')"
proof -
  have "f_Tenant f \<noteq> []" using assms(1) by (auto simp: el_Get_def)
  moreover have "el_lookup i f b' = Inl (el_missing i)"
    using assms(2-4) by (auto simp: el_Write_Inr lookup_append_same in_scope_def)
  ultimately show ?thesis by (simp add: el_Get_def el_Delete_def)
qed

definition log_doc :: "string \<Rightarrow> Document" where
  "log_doc t = \<lparr>doc_ID = ''k'', doc_Namespace = ''n'', doc_Tenant = t, doc_Content = ''x'', doc_Path = [], doc_Metadata = Map.empty,
     doc_Embedding = [], doc_Version = [], doc_CreatedAt = zero_time, doc_UpdatedAt = zero_time\<rparr>"

definition log_env :: write_env where
  "log_env = \<lparr>env_uuid = ''u'', env_now = 1, env_stamp = ''1''\<rparr>"

definition one_write :: EventLogBackend where
  "one_write = snd (el_Write log_env (log_doc ''t'') NewEventLogBackend)"

lemma one_write_Get: "el_Get ''k'' (scope_of (log_doc ''t'')) one_write = Inr (fill_doc log_env (log_doc ''t''))"
  by (simp add: one_write_def el_Write_def el_Get_def append_entry_def el_lookup_def NewEventLogBackend_def fill_doc_def log_doc_def
      log_env_def scope_of_def Let_def)

theorem el_Retrieve_agrees_with_Get_witness:
  "el_chunk (fill_doc log_env (log_doc ''t'')) (1 / 2) \<in>
     set (el_scan id [] (scope_of (log_doc ''t'')) [] (rev (el_log one_write)) {})"
proof -
  have "el_reachable one_write" unfolding one_write_def by (rule reach_Write [OF reach_New, of log_env "log_doc ''t''"]) (simp add: prod_eq_iff)
  moreover have "f_Tenant (scope_of (log_doc ''t'')) \<noteq> []" by (simp add: scope_of_def log_doc_def)
  ultimately have eq: "set (el_scan id [] (scope_of (log_doc ''t'')) [] (rev (el_log one_write)) {}) =
      {el_chunk d sc |d sc i. el_Get i (scope_of (log_doc ''t'')) one_write = Inr d \<and> matchMetadata (doc_Metadata d) []
         \<and> el_score id [] (doc_Content d) = Some sc}"
    by (rule el_Retrieve_agrees_with_Get)
  have "matchMetadata m []" "el_score id [] c = Some (1 / 2)" for m c by (simp_all add: matchMetadata_def el_score_def)
  with one_write_Get show ?thesis unfolding eq by blast
qed

theorem el_foreign_write_hides_witness:
  "\<exists>b'. el_Write log_env (log_doc ''v'') one_write = (Inr \<lparr>wr_ID = ''k'', wr_Version = ''1''\<rparr>, b')
     \<and> el_Get ''k'' (scope_of (log_doc ''t'')) b' = Inl (el_missing ''k'')"
proof -
  obtain b' where w: "el_Write log_env (log_doc ''v'') one_write = (Inr \<lparr>wr_ID = ''k'', wr_Version = ''1''\<rparr>, b')"
    by (simp add: el_Write_def log_doc_def log_env_def fill_doc_def Let_def)
  from el_foreign_write_hides [OF one_write_Get w, of log_env] w show ?thesis by (simp add: log_doc_def scope_of_def)
qed

end
