(* ===== verification/Session.thy ===== *)
theory Session
  imports Executor GoStrings "HOL-Library.Char_ord" "HOL-Library.List_Lexorder"
begin

section \<open>Durable sessions\<close>

text \<open>
  The session worker of package \<open>turnmodel\<close>: the state and its checkpoint (\<open>session.go\<close>), the
  memory a turn carries (\<open>memory.go\<close>), the worker and its inbox and outbox on disk
  (\<open>session_worker.go\<close>), and the queue-backed source and sink (\<open>session_queue_source.go\<close>).

  The world \<open>'w\<close> holds everything outside the worker: the disk, the clock, the queue, and what the
  executor of a turn does.  The operations of package \<open>os\<close> and the codec of \<open>encoding/json\<close> are
  records of functions.  A context is what \<open>ctx.Err()\<close> answers in a world; the time a turn may take
  is an argument of the executor and of the review gate.  Log lines are left out.
\<close>

subsection \<open>Paths and files\<close>

text \<open>\<open>filepath.Join\<close>, \<open>filepath.Dir\<close> and \<open>filepath.Ext\<close>.\<close>

definition filepath_Join :: "string list \<Rightarrow> string" where
  "filepath_Join elems = (case filter (\<lambda>e. e \<noteq> []) elems of [] \<Rightarrow> [] | es \<Rightarrow> path_Clean (join_slash es))"

definition filepath_Dir :: "string \<Rightarrow> string" where
  "filepath_Dir p = path_Clean (rev (dropWhile (\<lambda>c. c \<noteq> slash) (rev p)))"

definition filepath_Ext :: "string \<Rightarrow> string" where
  "filepath_Ext p = (let r = rev p; e = takeWhile (\<lambda>c. c \<noteq> slash \<and> c \<noteq> CHR ''.'') r
     in if drop (length e) r \<noteq> [] \<and> hd (drop (length e) r) = CHR ''.'' then CHR ''.'' # rev e else [])"

datatype os_error = os_NotExist | os_failure string

fun os_message :: "os_error \<Rightarrow> string" where
  "os_message os_NotExist = ''file does not exist''"
| "os_message (os_failure m) = m"

record 'w os_env =
  os_ReadFile :: "string \<Rightarrow> 'w \<Rightarrow> (os_error + bytes) \<times> 'w"
  os_ReadDir :: "string \<Rightarrow> 'w \<Rightarrow> (os_error + (string \<times> bool) list) \<times> 'w"
  os_MkdirAll :: "string \<Rightarrow> 'w \<Rightarrow> os_error option \<times> 'w"
  os_WriteFile :: "string \<Rightarrow> bytes \<Rightarrow> 'w \<Rightarrow> os_error option \<times> 'w"
  os_Rename :: "string \<Rightarrow> string \<Rightarrow> 'w \<Rightarrow> os_error option \<times> 'w"
  os_Remove :: "string \<Rightarrow> 'w \<Rightarrow> os_error option \<times> 'w"

subsection \<open>Turns and the session state\<close>

record Decision =
  dcs_Token :: string
  dcs_Approve :: bool
  dcs_Reason :: string
  dcs_DecidedBy :: string

record RunInputFile =
  in_Path :: string
  in_Inline :: string
  in_InlineBase64 :: string
  in_SecretRef :: "AuthRef option"

record AgentRunSpec =
  rsp_AgentRef :: string
  rsp_SessionRef :: string
  rsp_ResumeSessionID :: string
  rsp_Input :: bytes
  rsp_Seed :: int64
  rsp_BudgetOverride :: "Budget option"
  rsp_Cancel :: bool
  rsp_PlacementFallback :: string
  rsp_Decision :: "Decision option"
  rsp_RequireApprovalBeforeRun :: "bool option"
  rsp_Priority :: int32
  rsp_MemoryRetrieverRef :: string
  rsp_Inputs :: "RunInputFile list"

record SessionTurn =
  tn_Index :: int64
  tn_Input :: bytes
  tn_Output :: bytes
  tn_Phase :: Phase
  tn_Usage :: Usage
  tn_TerminationReason :: string
  tn_Error :: string
  tn_StartedAt :: time
  tn_EndedAt :: time

record SessionState =
  ss_AgentRef :: string
  ss_Phase :: Phase
  ss_Turns :: "SessionTurn list"
  ss_CumulativeUsage :: Usage
  ss_CreatedAt :: time
  ss_UpdatedAt :: time
  ss_TotalTurns :: int64
  ss_FailedTurns :: int64

definition ss_Append :: "SessionTurn \<Rightarrow> time \<Rightarrow> SessionState \<Rightarrow> SessionState" where
  "ss_Append t now s =
     (let t = t\<lparr>tn_Index := ss_TotalTurns s\<rparr>; s = s\<lparr>ss_TotalTurns := ss_TotalTurns s + 1\<rparr>;
          s = (if tn_Phase t = PhaseFailed \<or> tn_Error t \<noteq> [] then s\<lparr>ss_FailedTurns := ss_FailedTurns s + 1\<rparr> else s);
          u = ss_CumulativeUsage s
      in s\<lparr>ss_Turns := ss_Turns s @ [t],
           ss_CumulativeUsage := u\<lparr>Steps := Steps u + Steps (tn_Usage t), Tokens := Tokens u + Tokens (tn_Usage t),
             ToolCalls := ToolCalls u + ToolCalls (tn_Usage t), WallClockUsed := WallClockUsed u + WallClockUsed (tn_Usage t)\<rparr>,
           ss_UpdatedAt := now\<rparr>)"

record SessionSummary =
  sm_Phase :: Phase
  sm_Usage :: Usage
  sm_Turns :: int64
  sm_FailedTurns :: int64
  sm_LastTurnTime :: "time option"
  sm_UpdatedAt :: time

definition Summary :: "SessionState \<Rightarrow> SessionSummary" where
  "Summary s = \<lparr>sm_Phase = ss_Phase s, sm_Usage = ss_CumulativeUsage s, sm_Turns = ss_TotalTurns s,
     sm_FailedTurns = ss_FailedTurns s,
     sm_LastTurnTime = (if ss_Turns s \<noteq> [] then Some (tn_EndedAt (last (ss_Turns s))) else None),
     sm_UpdatedAt = ss_UpdatedAt s\<rparr>"

definition DefaultSessionSummaryPath :: "string \<Rightarrow> string" where
  "DefaultSessionSummaryPath workspace = filepath_Join [workspace, ''.smol-session'', ''status-summary.json'']"

definition DefaultSessionStatePath :: "string \<Rightarrow> string" where
  "DefaultSessionStatePath workspace = filepath_Join [workspace, ''.smol-session'', ''state.json'']"

subsection \<open>The checkpoint\<close>

record session_codec =
  enc_state :: "SessionState \<Rightarrow> string + bytes"
  dec_state :: "bytes \<Rightarrow> string + SessionState"
  enc_summary :: "SessionSummary \<Rightarrow> string + bytes"
  enc_turn :: "SessionTurn \<Rightarrow> string + bytes"
  dec_spec :: "bytes \<Rightarrow> string + AgentRunSpec"

definition fresh_state :: SessionState where
  "fresh_state = \<lparr>ss_AgentRef = [], ss_Phase = PhasePending, ss_Turns = [], ss_CumulativeUsage = zero_Usage,
     ss_CreatedAt = zero_time, ss_UpdatedAt = zero_time, ss_TotalTurns = 0, ss_FailedTurns = 0\<rparr>"

definition store_Load :: "'w os_env \<Rightarrow> session_codec \<Rightarrow> string \<Rightarrow> 'w \<Rightarrow> (string + SessionState) \<times> 'w" where
  "store_Load os cd path wd = (case os_ReadFile os path wd of
     (Inl os_NotExist, wd) \<Rightarrow> (Inr fresh_state, wd)
   | (Inl (os_failure m), wd) \<Rightarrow> (Inl (''turnmodel: load session state: '' @ m), wd)
   | (Inr b, wd) \<Rightarrow> (case dec_state cd b of
       Inl m \<Rightarrow> (Inl (''turnmodel: decode session state: '' @ m), wd)
     | Inr s \<Rightarrow> (Inr s, wd)))"

definition store_Save :: "'w os_env \<Rightarrow> session_codec \<Rightarrow> string \<Rightarrow> SessionState \<Rightarrow> 'w \<Rightarrow> string option \<times> 'w" where
  "store_Save os cd path s wd = (case os_MkdirAll os (filepath_Dir path) wd of
     (Some e, wd) \<Rightarrow> (Some (''turnmodel: session dir: '' @ os_message e), wd)
   | (None, wd) \<Rightarrow> (case enc_state cd s of
       Inl m \<Rightarrow> (Some (''turnmodel: encode session state: '' @ m), wd)
     | Inr b \<Rightarrow> (let tmp = path @ ''.tmp'' in case os_WriteFile os tmp b wd of
         (Some e, wd) \<Rightarrow> (Some (''turnmodel: write session state: '' @ os_message e), wd)
       | (None, wd) \<Rightarrow> (case os_Rename os tmp path wd of (e, wd) \<Rightarrow> (map_option os_message e, wd)))))"

subsection \<open>The memory of a turn\<close>

type_synonym MemoryStrategy = string

definition MemoryProviderSession :: MemoryStrategy where "MemoryProviderSession = ''provider-session''"
definition MemoryWorkspaceOnly :: MemoryStrategy where "MemoryWorkspaceOnly = ''workspace-only''"
definition MemoryHistoryReplay :: MemoryStrategy where "MemoryHistoryReplay = ''history-replay''"

definition HarnessHermes :: HarnessKind where "HarnessHermes = ''hermes''"

record TurnMemory =
  tm_ProviderSessionID :: string
  tm_PriorOutput :: bytes
  tm_History :: "SessionTurn list"

definition SelectMemoryStrategy :: "AgentSpec \<Rightarrow> MemoryStrategy" where
  "SelectMemoryStrategy a =
     (let mode = (if as_Mode a = [] then ModeLoop else as_Mode a)
      in case as_Harness a of
           Some h \<Rightarrow> if mode = ModeHarness then (if hs_Kind h = HarnessHermes then MemoryProviderSession else MemoryWorkspaceOnly)
                     else MemoryHistoryReplay
         | None \<Rightarrow> MemoryHistoryReplay)"

record Turn =
  t_Agent :: AgentSpec
  t_Spec :: AgentRunSpec
  t_Memory :: TurnMemory

record ReviewDecision =
  rd_Proceed :: bool
  rd_EditedInput :: bytes
  rd_Reason :: string

record 'w InboundTurn =
  it_ID :: string
  it_Spec :: AgentRunSpec
  it_Ack :: "('w \<Rightarrow> string option \<times> 'w) option"

subsection \<open>The worker\<close>

text \<open>
  The source, the sink and the executor are the ones the worker uses, given or default.  The
  select at the end of an idle round answers with the error of a cancelled context, or with none
  when the poll interval is over.
\<close>

record 'w SessionWorker =
  sw_Agent :: AgentSpec
  sw_AgentRef :: string
  sw_Workspace :: string
  sw_IdleTimeout :: duration
  sw_Now :: "'w \<Rightarrow> time \<times> 'w"
  sw_Poll :: "'w \<Rightarrow> (string + 'w InboundTurn list) \<times> 'w"
  sw_Publish :: "string \<Rightarrow> SessionTurn \<Rightarrow> 'w \<Rightarrow> string option \<times> 'w"
  sw_TurnTimeout :: duration
  sw_HistoryLimit :: int
  sw_ReplayHistory :: bool
  sw_Execute :: "duration \<Rightarrow> Turn \<Rightarrow> 'w \<Rightarrow> (Result \<times> string option) \<times> 'w"
  sw_ReviewTurn :: "(duration \<Rightarrow> AgentRunSpec \<Rightarrow> TurnMemory \<Rightarrow> 'w \<Rightarrow> (string + ReviewDecision) \<times> 'w) option"
  sw_os :: "'w os_env"
  sw_codec :: session_codec
  sw_ctxErr :: "'w \<Rightarrow> string option"
  sw_select :: "'w \<Rightarrow> string option \<times> 'w"

definition buildMemory :: "'w SessionWorker \<Rightarrow> SessionState \<Rightarrow> string \<Rightarrow> TurnMemory" where
  "buildMemory w state sessionID =
     (let none = \<lparr>tm_ProviderSessionID = [], tm_PriorOutput = [], tm_History = []\<rparr>; strategy = SelectMemoryStrategy (sw_Agent w)
      in if strategy = MemoryProviderSession then none\<lparr>tm_ProviderSessionID := sessionID\<rparr>
         else if strategy = MemoryHistoryReplay then
           (if \<not> sw_ReplayHistory w then none
            else none\<lparr>tm_History := ss_Turns state,
                      tm_PriorOutput := (if ss_Turns state \<noteq> [] then tn_Output (last (ss_Turns state)) else [])\<rparr>)
         else none)"

definition writeSummary :: "'w SessionWorker \<Rightarrow> SessionState \<Rightarrow> 'w \<Rightarrow> 'w" where
  "writeSummary w state wd =
     (let path = DefaultSessionSummaryPath (sw_Workspace w)
      in case enc_summary (sw_codec w) (Summary state) of
           Inl _ \<Rightarrow> wd
         | Inr b \<Rightarrow> (case os_WriteFile (sw_os w) (path @ ''.tmp'') b wd of
             (Some _, wd) \<Rightarrow> wd
           | (None, wd) \<Rightarrow> snd (os_Rename (sw_os w) (path @ ''.tmp'') path wd)))"

definition sw_save :: "'w SessionWorker \<Rightarrow> SessionState \<Rightarrow> 'w \<Rightarrow> string option \<times> 'w" where
  "sw_save w = store_Save (sw_os w) (sw_codec w) (DefaultSessionStatePath (sw_Workspace w))"

definition ss_compact :: "'w SessionWorker \<Rightarrow> SessionState \<Rightarrow> SessionState" where
  "ss_compact w state =
     (if sw_HistoryLimit w \<le> 0 \<or> int (length (ss_Turns state)) \<le> sw_HistoryLimit w then state
      else state\<lparr>ss_Turns := drop (length (ss_Turns state) - nat (sw_HistoryLimit w)) (ss_Turns state)\<rparr>)"

text \<open>
  The two ends of a turn.  \<open>record_turn\<close> is what a worker does to the shared state under its
  lock when a turn is over: it stamps the index, appends and compacts.  \<open>deliver\<close> publishes the
  result and acknowledges the turn.
\<close>

definition record_turn :: "'w SessionWorker \<Rightarrow> SessionTurn \<Rightarrow> SessionState \<Rightarrow> 'w \<Rightarrow> SessionTurn \<times> SessionState \<times> 'w" where
  "record_turn w st state wd =
     (let state = state\<lparr>ss_Phase := PhaseRunning\<rparr>; st = st\<lparr>tn_Index := ss_TotalTurns state\<rparr>; (now, wd) = sw_Now w wd
      in (st, ss_compact w (ss_Append st now state), wd))"

definition deliver :: "'w SessionWorker \<Rightarrow> 'w InboundTurn \<Rightarrow> SessionTurn \<Rightarrow> 'w \<Rightarrow> 'w" where
  "deliver w t st wd =
     (let wd = snd (sw_Publish w (it_ID t) st wd)
      in case it_Ack t of None \<Rightarrow> wd | Some ack \<Rightarrow> snd (ack wd))"

definition review_reason :: "string + ReviewDecision \<Rightarrow> string" where
  "review_reason r = (case r of
     Inl e \<Rightarrow> ''review:error:'' @ e
   | Inr d \<Rightarrow> if rd_Reason d \<noteq> [] then ''review:denied:'' @ rd_Reason d else ''review:denied'')"

definition cancel_turn ::
  "'w SessionWorker \<Rightarrow> 'w InboundTurn \<Rightarrow> time \<Rightarrow> string \<Rightarrow> SessionState \<Rightarrow> 'w \<Rightarrow> SessionState \<times> 'w" where
  "cancel_turn w t started reason state wd =
     (let (ended, wd) = sw_Now w wd;
          cancelled = \<lparr>tn_Index = 0, tn_Input = rsp_Input (it_Spec t), tn_Output = [], tn_Phase = PhaseCancelled, tn_Usage = zero_Usage,
            tn_TerminationReason = reason, tn_Error = [], tn_StartedAt = started, tn_EndedAt = ended\<rparr>;
          (st, state, wd) = record_turn w cancelled state wd
      in (state, deliver w t st wd))"

definition run_turn ::
  "'w SessionWorker \<Rightarrow> 'w InboundTurn \<Rightarrow> time \<Rightarrow> AgentRunSpec \<Rightarrow> TurnMemory \<Rightarrow> SessionState \<Rightarrow> 'w \<Rightarrow> SessionState \<times> 'w" where
  "run_turn w t started spec mem state wd =
     (let ((res, runErr), wd) = sw_Execute w (sw_TurnTimeout w) \<lparr>t_Agent = sw_Agent w, t_Spec = spec, t_Memory = mem\<rparr> wd;
          (ended, wd) = sw_Now w wd;
          st = \<lparr>tn_Index = 0, tn_Input = rsp_Input spec, tn_Output = res_Output res, tn_Phase = res_Phase res, tn_Usage = res_Usage res,
            tn_TerminationReason = res_TerminationReason res, tn_Error = [], tn_StartedAt = started, tn_EndedAt = ended\<rparr>;
          st = (case runErr of None \<Rightarrow> st
                | Some e \<Rightarrow> (let st = st\<lparr>tn_Error := e\<rparr> in if tn_Phase st = [] then st\<lparr>tn_Phase := PhaseFailed\<rparr> else st));
          (st, state, wd) = record_turn w st state wd
      in (state, deliver w t st wd))"

definition handleTurn :: "'w SessionWorker \<Rightarrow> 'w InboundTurn \<Rightarrow> SessionState \<Rightarrow> 'w \<Rightarrow> SessionState \<times> 'w" where
  "handleTurn w t state wd =
     (let (started, wd) = sw_Now w wd; mem = buildMemory w state (sw_AgentRef w); spec = it_Spec t
      in case sw_ReviewTurn w of
           None \<Rightarrow> run_turn w t started spec mem state wd
         | Some gate \<Rightarrow>
             (let state = state\<lparr>ss_Phase := PhaseRequiresAction\<rparr>; (r, wd) = gate (sw_TurnTimeout w) spec mem wd
              in case r of
                   Inl _ \<Rightarrow> cancel_turn w t started (review_reason r) state wd
                 | Inr dec \<Rightarrow>
                     if \<not> rd_Proceed dec then cancel_turn w t started (review_reason r) state wd
                     else run_turn w t started (if rd_EditedInput dec \<noteq> [] then spec\<lparr>rsp_Input := rd_EditedInput dec\<rparr> else spec) mem
                            (state\<lparr>ss_Phase := PhaseRunning\<rparr>) wd))"

text \<open>The serial path, one turn after the other in the order of the source.\<close>

fun handle_turns :: "'w SessionWorker \<Rightarrow> 'w InboundTurn list \<Rightarrow> SessionState \<Rightarrow> 'w \<Rightarrow> (nat \<times> string option) \<times> SessionState \<times> 'w" where
  "handle_turns w [] state wd = ((0, None), state, wd)"
| "handle_turns w (t # ts) state wd = (case sw_ctxErr w wd of
     Some e \<Rightarrow> ((0, Some e), state, wd)
   | None \<Rightarrow> (let (state, wd) = handleTurn w t state wd; ((n, e), state, wd) = handle_turns w ts state wd
              in ((n + 1, e), state, wd)))"

definition processTurns :: "'w SessionWorker \<Rightarrow> SessionState \<Rightarrow> 'w \<Rightarrow> (nat \<times> string option) \<times> SessionState \<times> 'w" where
  "processTurns w state wd = (case sw_Poll w wd of
     (Inl e, wd) \<Rightarrow> ((0, Some e), state, wd)
   | (Inr turns, wd) \<Rightarrow> handle_turns w turns state wd)"

datatype 'w session_flow = Again SessionState time 'w | Stop "string option" SessionState 'w

text \<open>An idle round: the session is parked, and the worker may have been idle for too long.\<close>

definition park :: "'w SessionWorker \<Rightarrow> SessionState \<Rightarrow> 'w \<Rightarrow> SessionState \<times> 'w" where
  "park w state wd = (if ss_Phase state \<noteq> PhaseRequiresAction
     then let state = state\<lparr>ss_Phase := PhaseRequiresAction\<rparr> in (state, snd (sw_save w state wd)) else (state, wd))"

definition idle_over :: "'w SessionWorker \<Rightarrow> time \<Rightarrow> 'w \<Rightarrow> bool \<times> 'w" where
  "idle_over w idleSince wd = (if 0 < sint (sw_IdleTimeout w)
     then let (now, wd) = sw_Now w wd in (sint (sw_IdleTimeout w) \<le> sint (time_Sub now idleSince), wd) else (False, wd))"

definition session_round :: "'w SessionWorker \<Rightarrow> SessionState \<Rightarrow> time \<Rightarrow> 'w \<Rightarrow> 'w session_flow" where
  "session_round w state idleSince wd = (case sw_ctxErr w wd of
     Some e \<Rightarrow> Stop (Some e) state wd
   | None \<Rightarrow>
       (let ((n, perr), state, wd) = processTurns w state wd; (_, wd) = sw_save w state wd; wd = writeSummary w state wd
        in if n > 0 then (let (now, wd) = sw_Now w wd in Again state now wd)
           else let (state, wd) = park w state wd; (idle, wd) = idle_over w idleSince wd
                in if idle then Stop None state wd
                   else case sw_select w wd of (Some e, wd) \<Rightarrow> Stop (Some e) state wd | (None, wd) \<Rightarrow> Again state idleSince wd))"

partial_function (option) session_loop ::
  "'w SessionWorker \<Rightarrow> SessionState \<Rightarrow> time \<Rightarrow> 'w \<Rightarrow> (string option \<times> SessionState \<times> 'w) option" where
  "session_loop w state idleSince wd = (case session_round w state idleSince wd of
     Again state idleSince wd \<Rightarrow> session_loop w state idleSince wd
   | Stop e state wd \<Rightarrow> Some (e, state, wd))"

definition session_start :: "'w SessionWorker \<Rightarrow> SessionState \<Rightarrow> 'w \<Rightarrow> SessionState \<times> 'w" where
  "session_start w state wd =
     (let (state, wd) = (if ss_CreatedAt state = zero_time then let (now, wd) = sw_Now w wd in (state\<lparr>ss_CreatedAt := now\<rparr>, wd) else (state, wd));
          state = (if sw_AgentRef w \<noteq> [] then state\<lparr>ss_AgentRef := sw_AgentRef w\<rparr> else state);
          state = state\<lparr>ss_Phase := PhaseRunning\<rparr>; (_, wd) = sw_save w state wd
      in (state, writeSummary w state wd))"

definition session_Run :: "'w SessionWorker \<Rightarrow> 'w \<Rightarrow> (string option \<times> 'w) option" where
  "session_Run w wd = (case store_Load (sw_os w) (sw_codec w) (DefaultSessionStatePath (sw_Workspace w)) wd of
     (Inl e, wd) \<Rightarrow> Some (Some e, wd)
   | (Inr state, wd) \<Rightarrow>
       (let (state, wd) = session_start w state wd; (idleSince, wd) = sw_Now w wd
        in case session_loop w state idleSince wd of
             None \<Rightarrow> None
           | Some (e, state, wd) \<Rightarrow> Some (e, writeSummary w state (snd (sw_save w state wd)))))"

subsection \<open>Sources and sinks\<close>

definition inboxDir :: "'w SessionWorker \<Rightarrow> string" where
  "inboxDir w = filepath_Join [sw_Workspace w, ''.smol-session'', ''inbox'']"

definition outboxDir :: "'w SessionWorker \<Rightarrow> string" where
  "outboxDir w = filepath_Join [sw_Workspace w, ''.smol-session'', ''outbox'']"

fun inbox_turns :: "'w os_env \<Rightarrow> session_codec \<Rightarrow> string \<Rightarrow> string list \<Rightarrow> 'w \<Rightarrow> 'w InboundTurn list \<times> 'w" where
  "inbox_turns os cd dir [] wd = ([], wd)"
| "inbox_turns os cd dir (name # names) wd =
     (let path = filepath_Join [dir, name]
      in case os_ReadFile os path wd of
           (Inl _, wd) \<Rightarrow> inbox_turns os cd dir names wd
         | (Inr b, wd) \<Rightarrow> (case dec_spec cd b of
             Inl _ \<Rightarrow> inbox_turns os cd dir names (snd (os_Remove os path wd))
           | Inr spec \<Rightarrow>
               (let t = \<lparr>it_ID = name, it_Spec = spec,
                         it_Ack = Some (\<lambda>wd. let (e, wd) = os_Remove os path wd in (map_option os_message e, wd))\<rparr>;
                    (ts, wd) = inbox_turns os cd dir names wd
                in (t # ts, wd))))"

definition inbox_Poll :: "'w os_env \<Rightarrow> session_codec \<Rightarrow> string \<Rightarrow> 'w \<Rightarrow> (string + 'w InboundTurn list) \<times> 'w" where
  "inbox_Poll os cd dir wd = (case os_ReadDir os dir wd of
     (Inl os_NotExist, wd) \<Rightarrow> (Inr [], wd)
   | (Inl (os_failure m), wd) \<Rightarrow> (Inl m, wd)
   | (Inr entries, wd) \<Rightarrow>
       (let names = sort (map fst (filter (\<lambda>(name, isDir). \<not> isDir \<and> filepath_Ext name = ''.json'') entries));
            (ts, wd) = inbox_turns os cd dir names wd
        in (Inr ts, wd)))"

definition outbox_Publish :: "'w os_env \<Rightarrow> session_codec \<Rightarrow> string \<Rightarrow> string \<Rightarrow> SessionTurn \<Rightarrow> 'w \<Rightarrow> string option \<times> 'w" where
  "outbox_Publish os cd dir turnID st wd = (case os_MkdirAll os dir wd of
     (Some e, wd) \<Rightarrow> (Some (os_message e), wd)
   | (None, wd) \<Rightarrow> (case enc_turn cd st of
       Inl m \<Rightarrow> (Some m, wd)
     | Inr b \<Rightarrow> (let (e, wd) = os_WriteFile os (filepath_Join [dir, turnID]) b wd in (map_option os_message e, wd))))"

text \<open>The queue of package \<open>sessionqueue\<close>, as its clients see it.\<close>

record 'w queue_turn =
  qt_ID :: string
  qt_Body :: bytes
  qt_Ack :: "('w \<Rightarrow> string option \<times> 'w) option"

record 'w turn_queue =
  q_Consume :: "string \<Rightarrow> int \<Rightarrow> 'w \<Rightarrow> (string + 'w queue_turn list) \<times> 'w"
  q_PublishResult :: "string \<Rightarrow> string \<Rightarrow> bytes \<Rightarrow> 'w \<Rightarrow> string option \<times> 'w"

fun queue_turns :: "session_codec \<Rightarrow> 'w queue_turn list \<Rightarrow> 'w \<Rightarrow> 'w InboundTurn list \<times> 'w" where
  "queue_turns cd [] wd = ([], wd)"
| "queue_turns cd (m # ms) wd = (case dec_spec cd (qt_Body m) of
     Inl _ \<Rightarrow> queue_turns cd ms (case qt_Ack m of None \<Rightarrow> wd | Some ack \<Rightarrow> snd (ack wd))
   | Inr spec \<Rightarrow> (let (ts, wd) = queue_turns cd ms wd in (\<lparr>it_ID = qt_ID m, it_Spec = spec, it_Ack = qt_Ack m\<rparr> # ts, wd)))"

definition QueueSource_Poll :: "'w turn_queue \<Rightarrow> session_codec \<Rightarrow> string \<Rightarrow> int \<Rightarrow> 'w \<Rightarrow> (string + 'w InboundTurn list) \<times> 'w" where
  "QueueSource_Poll q cd key most wd = (case q_Consume q key most wd of
     (Inl e, wd) \<Rightarrow> (Inl e, wd)
   | (Inr msgs, wd) \<Rightarrow> (let (ts, wd) = queue_turns cd msgs wd in (Inr ts, wd)))"

definition QueueSink_Publish :: "'w turn_queue \<Rightarrow> session_codec \<Rightarrow> string \<Rightarrow> string \<Rightarrow> SessionTurn \<Rightarrow> 'w \<Rightarrow> string option \<times> 'w" where
  "QueueSink_Publish q cd key turnID st wd = (case enc_turn cd st of
     Inl e \<Rightarrow> (Some e, wd)
   | Inr b \<Rightarrow> q_PublishResult q key turnID b wd)"

text \<open>The queue in memory: its turns are taken when consumed, so that there is nothing to acknowledge.\<close>

record MemQueue =
  mq_pending :: "string \<Rightarrow> (string \<times> bytes) list"
  mq_results :: "string \<rightharpoonup> bytes"
  mq_seq :: nat

definition NewMemQueue :: MemQueue where
  "NewMemQueue = \<lparr>mq_pending = (\<lambda>_. []), mq_results = Map.empty, mq_seq = 0\<rparr>"

definition mq_Publish :: "string \<Rightarrow> bytes \<Rightarrow> MemQueue \<Rightarrow> string \<times> MemQueue" where
  "mq_Publish key body q =
     (let q = q\<lparr>mq_seq := mq_seq q + 1\<rparr>; i = ''t-'' @ show_nat (mq_seq q)
      in (i, q\<lparr>mq_pending := (mq_pending q)(key := mq_pending q key @ [(i, body)])\<rparr>))"

definition mq_Consume :: "string \<Rightarrow> int \<Rightarrow> MemQueue \<Rightarrow> (string + MemQueue queue_turn list) \<times> MemQueue" where
  "mq_Consume key most q =
     (let p = mq_pending q key; n = (if most \<le> 0 \<or> int (length p) < most then length p else nat most)
      in (Inr (map (\<lambda>(i, body). \<lparr>qt_ID = i, qt_Body = body, qt_Ack = Some (Pair None)\<rparr>) (take n p)),
          q\<lparr>mq_pending := (mq_pending q)(key := drop n p)\<rparr>))"

definition mq_PublishResult :: "string \<Rightarrow> string \<Rightarrow> bytes \<Rightarrow> MemQueue \<Rightarrow> string option \<times> MemQueue" where
  "mq_PublishResult key turnID body q = (None, q\<lparr>mq_results := (mq_results q)(key @ ''/'' @ turnID \<mapsto> body)\<rparr>)"

definition mem_queue :: "MemQueue turn_queue" where
  "mem_queue = \<lparr>q_Consume = mq_Consume, q_PublishResult = mq_PublishResult\<rparr>"

end
