(* ===== verification/SessionSafety.thy ===== *)
theory SessionSafety
  imports Session
begin

section \<open>What a session keeps\<close>

text \<open>
  The log of turns through every operation of the worker, the atomicity of a checkpoint, and what a
  crash can lose.
\<close>

subsection \<open>The turn log\<close>

text \<open>
  What the state promises of the turns ever recorded, of which it retains the last ones: they are
  numbered from zero, counted, and their usage is summed on four axes.  The cost is not summed.
\<close>

definition turn_failed :: "SessionTurn \<Rightarrow> bool" where
  "turn_failed t \<longleftrightarrow> tn_Phase t = PhaseFailed \<or> tn_Error t \<noteq> []"

definition session_log :: "int \<Rightarrow> SessionTurn list \<Rightarrow> SessionState \<Rightarrow> bool" where
  "session_log limit hist s \<longleftrightarrow>
     map tn_Index hist = map of_nat [0..<length hist]
   \<and> ss_TotalTurns s = of_nat (length hist)
   \<and> ss_FailedTurns s = of_nat (length (filter turn_failed hist))
   \<and> ss_CumulativeUsage s = \<lparr>Steps = sum_list (map (Steps \<circ> tn_Usage) hist), Tokens = sum_list (map (Tokens \<circ> tn_Usage) hist),
       ToolCalls = sum_list (map (ToolCalls \<circ> tn_Usage) hist), WallClockUsed = sum_list (map (WallClockUsed \<circ> tn_Usage) hist),
       CostUSDMilli = 0\<rparr>
   \<and> ss_Turns s = (if limit \<le> 0 then hist else drop (length hist - nat limit) hist)"

lemma session_log_fresh: "session_log limit [] fresh_state"
  by (simp add: session_log_def fresh_state_def zero_Usage_def)

lemma session_log_phase [simp]: "session_log limit hist (s\<lparr>ss_Phase := p\<rparr>) = session_log limit hist s"
  "session_log limit hist (s\<lparr>ss_CreatedAt := c\<rparr>) = session_log limit hist s"
  "session_log limit hist (s\<lparr>ss_AgentRef := a\<rparr>) = session_log limit hist s"
  by (simp_all add: session_log_def)

text \<open>A worker records a turn: whatever the others did to the phase meanwhile, the log grows by it.\<close>

lemma session_log_record:
  assumes "session_log (sw_HistoryLimit w) hist s" "record_turn w st s wd = (h, s', wd')"
  shows "session_log (sw_HistoryLimit w) (hist @ [h]) s' \<and> h = st\<lparr>tn_Index := of_nat (length hist)\<rparr>"
proof -
  obtain now wd1 where n: "sw_Now w wd = (now, wd1)" by fastforce
  note log = assms(1)[unfolded session_log_def]
  have h: "h = st\<lparr>tn_Index := of_nat (length hist)\<rparr>"
    and s': "s' = ss_compact w (ss_Append h now (s\<lparr>ss_Phase := PhaseRunning\<rparr>))"
    using assms(2) n log by (auto simp: record_turn_def Let_def)
  let ?a = "ss_Append h now (s\<lparr>ss_Phase := PhaseRunning\<rparr>)" and ?L = "sw_HistoryLimit w"
  have a: "ss_Turns ?a = ss_Turns s @ [h]" "ss_TotalTurns ?a = of_nat (length (hist @ [h]))"
    "ss_FailedTurns ?a = of_nat (length (filter turn_failed (hist @ [h])))"
    using log by (simp_all add: ss_Append_def Let_def h turn_failed_def)
  have u: "ss_CumulativeUsage ?a = \<lparr>Steps = sum_list (map (Steps \<circ> tn_Usage) (hist @ [h])), Tokens = sum_list (map (Tokens \<circ> tn_Usage) (hist @ [h])),
       ToolCalls = sum_list (map (ToolCalls \<circ> tn_Usage) (hist @ [h])), WallClockUsed = sum_list (map (WallClockUsed \<circ> tn_Usage) (hist @ [h])),
       CostUSDMilli = 0\<rparr>"
    using log by (simp add: ss_Append_def Let_def)
  have t: "ss_Turns s' = (if ?L \<le> 0 then hist @ [h] else drop (length (hist @ [h]) - nat ?L) (hist @ [h]))"
    using log a(1) by (auto simp: s' ss_compact_def Suc_diff_le)
  have k: "ss_TotalTurns s' = ss_TotalTurns ?a" "ss_FailedTurns s' = ss_FailedTurns ?a" "ss_CumulativeUsage s' = ss_CumulativeUsage ?a"
    by (simp_all add: s' ss_compact_def)
  have "map tn_Index (hist @ [h]) = map of_nat [0..<length (hist @ [h])]" using log by (simp add: h)
  with t a u k show ?thesis unfolding session_log_def by (simp only: h)
qed

text \<open>How a turn ends: one turn is recorded and then delivered, the very turn that was recorded.\<close>

definition turn_done ::
  "'w SessionWorker \<Rightarrow> SessionTurn list \<Rightarrow> 'w InboundTurn \<Rightarrow> SessionTurn \<Rightarrow> SessionState \<Rightarrow> 'w \<Rightarrow> bool" where
  "turn_done w hist t h s' wd' \<longleftrightarrow> session_log (sw_HistoryLimit w) (hist @ [h]) s' \<and> ss_Phase s' = PhaseRunning
     \<and> (\<exists>wd. wd' = deliver w t h wd) \<and> (sw_ReviewTurn w = None \<longrightarrow> tn_Input h = rsp_Input (it_Spec t))"

lemma record_turn_phase: "record_turn w st s wd = (h, s', wd') \<Longrightarrow> ss_Phase s' = PhaseRunning"
  by (auto simp: record_turn_def ss_compact_def ss_Append_def Let_def split: prod.splits)

lemma record_deliver_done:
  assumes "session_log (sw_HistoryLimit w) hist s" "record_turn w st s wd = (h, s', wd1)"
    and "sw_ReviewTurn w = None \<longrightarrow> tn_Input st = rsp_Input (it_Spec t)"
  shows "turn_done w hist t h s' (deliver w t h wd1)"
  using session_log_record [OF assms(1,2)] record_turn_phase [OF assms(2)] assms(3) by (auto simp: turn_done_def)

lemma cancel_turn_done:
  assumes "session_log (sw_HistoryLimit w) hist s" "cancel_turn w t started reason s wd = (s', wd')"
  shows "\<exists>h. turn_done w hist t h s' wd' \<and> tn_Phase h = PhaseCancelled \<and> tn_Usage h = zero_Usage"
proof -
  obtain ended wd1 where e: "sw_Now w wd = (ended, wd1)" by fastforce
  define st where "st = \<lparr>tn_Index = 0, tn_Input = rsp_Input (it_Spec t), tn_Output = [], tn_Phase = PhaseCancelled, tn_Usage = zero_Usage,
    tn_TerminationReason = reason, tn_Error = [], tn_StartedAt = started, tn_EndedAt = ended\<rparr>"
  obtain h s1 wd2 where r: "record_turn w st s wd1 = (h, s1, wd2)" by (metis prod_cases3)
  have "s' = s1" "wd' = deliver w t h wd2" using assms(2) by (simp_all add: cancel_turn_def e st_def [symmetric] r)
  moreover have "turn_done w hist t h s1 (deliver w t h wd2)" by (rule record_deliver_done [OF assms(1) r]) (simp add: st_def)
  moreover have "h = st\<lparr>tn_Index := of_nat (length hist)\<rparr>" using session_log_record [OF assms(1) r] by simp
  ultimately show ?thesis by (auto simp: st_def)
qed

lemma run_turn_done:
  assumes "session_log (sw_HistoryLimit w) hist s" "run_turn w t started spec mem s wd = (s', wd')"
    and "sw_ReviewTurn w = None \<longrightarrow> rsp_Input spec = rsp_Input (it_Spec t)"
  shows "\<exists>h. turn_done w hist t h s' wd'"
proof -
  obtain res runErr wd1 where x: "sw_Execute w (sw_TurnTimeout w) \<lparr>t_Agent = sw_Agent w, t_Spec = spec, t_Memory = mem\<rparr> wd = ((res, runErr), wd1)"
    by (metis prod_cases3 prod.collapse)
  obtain ended wd2 where e: "sw_Now w wd1 = (ended, wd2)" by fastforce
  obtain st where r: "tn_Input st = rsp_Input spec"
    "run_turn w t started spec mem s wd = (let (h, s1, wd3) = record_turn w st s wd2 in (s1, deliver w t h wd3))"
    by (rule that [of "let st = \<lparr>tn_Index = 0, tn_Input = rsp_Input spec, tn_Output = res_Output res, tn_Phase = res_Phase res, tn_Usage = res_Usage res,
            tn_TerminationReason = res_TerminationReason res, tn_Error = [], tn_StartedAt = started, tn_EndedAt = ended\<rparr> in
          case runErr of None \<Rightarrow> st | Some e \<Rightarrow> (let st = st\<lparr>tn_Error := e\<rparr> in if tn_Phase st = [] then st\<lparr>tn_Phase := PhaseFailed\<rparr> else st)"])
      (simp_all add: run_turn_def x e Let_def split: option.splits)
  obtain h s1 wd3 where rec: "record_turn w st s wd2 = (h, s1, wd3)" by (metis prod_cases3)
  with r assms(2) have "s' = s1" "wd' = deliver w t h wd3" by simp_all
  with record_deliver_done [OF assms(1) rec, of t] r(1) assms(3) show ?thesis by auto
qed

lemma handleTurn_done:
  assumes "session_log (sw_HistoryLimit w) hist s" "handleTurn w t s wd = (s', wd')"
  shows "\<exists>h. turn_done w hist t h s' wd'"
proof -
  obtain started wd1 where n: "sw_Now w wd = (started, wd1)" by fastforce
  let ?mem = "buildMemory w s (sw_AgentRef w)"
  show ?thesis
  proof (cases "sw_ReviewTurn w")
    case None
    with assms(2) have "run_turn w t started (it_Spec t) ?mem s wd1 = (s', wd')" by (simp add: handleTurn_def n)
    from run_turn_done [OF assms(1) this] show ?thesis by simp
  next
    case (Some gate)
    let ?s = "s\<lparr>ss_Phase := PhaseRequiresAction\<rparr>"
    obtain r wd2 where g: "gate (sw_TurnTimeout w) (it_Spec t) ?mem wd1 = (r, wd2)" by fastforce
    have log: "session_log (sw_HistoryLimit w) hist ?s" "session_log (sw_HistoryLimit w) hist (?s\<lparr>ss_Phase := PhaseRunning\<rparr>)"
      using assms(1) by simp_all
    consider "cancel_turn w t started (review_reason r) ?s wd2 = (s', wd')"
      | spec where "run_turn w t started spec ?mem (?s\<lparr>ss_Phase := PhaseRunning\<rparr>) wd2 = (s', wd')"
      using assms(2) by (cases r) (auto simp: handleTurn_def n Some g Let_def split: if_splits)
    then show ?thesis
    proof cases
      case 1
      from cancel_turn_done [OF log(1) this] show ?thesis by blast
    next
      case 2
      from run_turn_done [OF log(2) this] Some show ?thesis by simp
    qed
  qed
qed

text \<open>A turn that the review denies, or whose review fails, never reaches the executor.\<close>

lemma denied_turn_not_run:
  assumes "sw_ReviewTurn w = Some gate" "sw_Now w wd = (started, wd1)"
    and "gate (sw_TurnTimeout w) (it_Spec t) (buildMemory w s (sw_AgentRef w)) wd1 = (r, wd2)" "case r of Inl _ \<Rightarrow> True | Inr d \<Rightarrow> \<not> rd_Proceed d"
  shows "handleTurn w t s wd = cancel_turn w t started (review_reason r) (s\<lparr>ss_Phase := PhaseRequiresAction\<rparr>) wd2"
  using assms by (cases r) (simp_all add: handleTurn_def Let_def)

fun turns_done :: "'w SessionWorker \<Rightarrow> SessionTurn list \<Rightarrow> 'w InboundTurn list \<Rightarrow> SessionTurn list \<Rightarrow> SessionState \<Rightarrow> 'w \<Rightarrow> SessionState \<Rightarrow> 'w \<Rightarrow> bool" where
  "turns_done w hist [] new s wd s' wd' = (new = [] \<and> s' = s \<and> wd' = wd)"
| "turns_done w hist (t # ts) new s wd s' wd' = (\<exists>h rest s1 wd1. new = h # rest \<and> handleTurn w t s wd = (s1, wd1)
     \<and> turn_done w hist t h s1 wd1 \<and> turns_done w (hist @ [h]) ts rest s1 wd1 s' wd')"

lemma turns_done_log:
  "turns_done w hist ts new s wd s' wd' \<Longrightarrow> session_log (sw_HistoryLimit w) hist s \<Longrightarrow>
   session_log (sw_HistoryLimit w) (hist @ new) s' \<and> length new = length ts"
proof (induction ts arbitrary: hist new s wd)
  case (Cons t ts)
  then obtain h rest s1 wd1 where "new = h # rest" "turn_done w hist t h s1 wd1" "turns_done w (hist @ [h]) ts rest s1 wd1 s' wd'" by auto
  with Cons.IH [of "hist @ [h]" rest s1 wd1] show ?case by (simp add: turn_done_def)
qed simp

lemma handle_turns_done:
  assumes "session_log (sw_HistoryLimit w) hist s" "handle_turns w ts s wd = ((n, e), s', wd')"
  shows "n \<le> length ts \<and> (e = None \<longrightarrow> n = length ts) \<and> (\<exists>new. turns_done w hist (take n ts) new s wd s' wd')"
  using assms
proof (induction ts arbitrary: hist s wd n)
  case (Cons t ts)
  show ?case
  proof (cases "sw_ctxErr w wd")
    case (Some e')
    have "n = 0" "e = Some e'" "s' = s" "wd' = wd" using Cons.prems(2) by (simp_all add: Some)
    then show ?thesis by simp
  next
    case None
    obtain s1 wd1 where h: "handleTurn w t s wd = (s1, wd1)" by fastforce
    obtain m e' s2 wd2 where r: "handle_turns w ts s1 wd1 = ((m, e'), s2, wd2)" by (metis prod_cases3 prod.collapse)
    have eq: "n = m + 1" "e = e'" "s' = s2" "wd' = wd2" using Cons.prems(2) None h r by auto
    obtain th where th: "turn_done w hist t th s1 wd1" using handleTurn_done [OF Cons.prems(1) h] by blast
    have log: "session_log (sw_HistoryLimit w) (hist @ [th]) s1" using th by (simp add: turn_done_def)
    from Cons.IH [OF log r [folded eq(2,3,4)]] eq obtain new where
      "m \<le> length ts" "e = None \<longrightarrow> m = length ts" "turns_done w (hist @ [th]) (take m ts) new s1 wd1 s' wd'" by auto
    with th h eq(1) show ?thesis by (intro conjI exI [of _ "th # new"]) auto
  qed
qed auto

lemma processTurns_done:
  assumes "session_log (sw_HistoryLimit w) hist s" "processTurns w s wd = ((n, e), s', wd')"
  shows "\<exists>new. session_log (sw_HistoryLimit w) (hist @ new) s' \<and> length new = n
    \<and> (\<forall>ts wd1. sw_Poll w wd = (Inr ts, wd1) \<longrightarrow> n \<le> length ts \<and> (e = None \<longrightarrow> n = length ts) \<and> turns_done w hist (take n ts) new s wd1 s' wd')"
proof -
  obtain p wd1 where p: "sw_Poll w wd = (p, wd1)" by fastforce
  show ?thesis
  proof (cases p)
    case (Inl m)
    with assms p show ?thesis by (intro exI [of _ "[]"]) (simp add: processTurns_def)
  next
    case (Inr ts)
    with assms(2) p have "handle_turns w ts s wd1 = ((n, e), s', wd')" by (simp add: processTurns_def)
    from handle_turns_done [OF assms(1) this] obtain new where
      t: "n \<le> length ts" "e = None \<longrightarrow> n = length ts" "turns_done w hist (take n ts) new s wd1 s' wd'" by blast
    from turns_done_log [OF t(3) assms(1)] t p Inr show ?thesis by (intro exI [of _ new]) simp
  qed
qed

lemma park_log: "park w s wd = (s', wd') \<Longrightarrow> session_log limit hist s \<Longrightarrow> session_log limit hist s'"
  by (auto simp: park_def Let_def split: if_splits)

lemma session_round_log:
  assumes "session_log (sw_HistoryLimit w) hist s"
  shows "\<exists>new. case session_round w s idle wd of
      Again s' _ _ \<Rightarrow> session_log (sw_HistoryLimit w) (hist @ new) s'
    | Stop _ s' _ \<Rightarrow> session_log (sw_HistoryLimit w) (hist @ new) s'"
proof (cases "sw_ctxErr w wd")
  case (Some e)
  with assms show ?thesis by (intro exI [of _ "[]"]) (simp add: session_round_def)
next
  case None
  obtain n e s1 wd1 where p: "processTurns w s wd = ((n, e), s1, wd1)" by (metis prod_cases3 prod.collapse)
  from processTurns_done [OF assms p] obtain new where "session_log (sw_HistoryLimit w) (hist @ new) s1"
    by (elim exE conjE) (rule that)
  then show ?thesis
    by (intro exI [of _ new]) (auto simp: session_round_def None p Let_def split: prod.splits option.splits if_splits dest: park_log)
qed

lemma session_loop_rule:
  assumes run: "session_loop w s idle wd = Some (e, s', wd')" and I: "I s wd"
    and round: "\<And>s idle wd. I s wd \<Longrightarrow> case session_round w s idle wd of Again s1 _ wd1 \<Rightarrow> I s1 wd1 | Stop _ s1 wd1 \<Rightarrow> I s1 wd1"
  shows "I s' wd'"
proof -
  define P where "P = (\<lambda>w' s (idle :: time) (wd :: 'a) (res :: string option \<times> SessionState \<times> 'a).
    w' = w \<longrightarrow> I s wd \<longrightarrow> I (fst (snd res)) (snd (snd res)))"
  have "P w s idle wd (e, s', wd')"
  proof (rule session_loop.raw_induct [where P = P, OF _ run], goal_cases)
    case (1 f w' s1 idle1 wd1 x)
    then show ?case using round [of s1 wd1 idle1] by (cases x) (fastforce simp: P_def split: session_flow.splits)
  qed
  with I show ?thesis by (simp add: P_def)
qed

lemma session_loop_log:
  assumes "session_loop w s idle wd = Some (e, s', wd')" "session_log (sw_HistoryLimit w) hist s"
  shows "\<exists>new. session_log (sw_HistoryLimit w) (hist @ new) s'"
proof (rule session_loop_rule [OF assms(1), where I = "\<lambda>s _. \<exists>new. session_log (sw_HistoryLimit w) (hist @ new) s"])
  show "\<exists>new. session_log (sw_HistoryLimit w) (hist @ new) s" using assms(2) by (intro exI [of _ "[]"]) simp
  fix s idle wd
  assume "\<exists>new. session_log (sw_HistoryLimit w) (hist @ new) s"
  then obtain new where "session_log (sw_HistoryLimit w) (hist @ new) s" ..
  from session_round_log [OF this, of idle wd] obtain new' where "case session_round w s idle wd of
      Again s' _ _ \<Rightarrow> session_log (sw_HistoryLimit w) ((hist @ new) @ new') s'
    | Stop _ s' _ \<Rightarrow> session_log (sw_HistoryLimit w) ((hist @ new) @ new') s'" ..
  then show "case session_round w s idle wd of
      Again s1 _ _ \<Rightarrow> \<exists>new. session_log (sw_HistoryLimit w) (hist @ new) s1
    | Stop _ s1 _ \<Rightarrow> \<exists>new. session_log (sw_HistoryLimit w) (hist @ new) s1"
    by (auto split: session_flow.splits)
qed

text \<open>
  A worker with several turns in flight: their critical sections on the shared state come in any
  order, each of them changes the phase or records a turn.  The log is kept all the same.
\<close>

inductive wide :: "'w SessionWorker \<Rightarrow> SessionState \<Rightarrow> SessionTurn list \<Rightarrow> SessionState \<Rightarrow> bool" for w where
  wide_done: "wide w s [] s"
| wide_phase: "wide w (s\<lparr>ss_Phase := p\<rparr>) new s' \<Longrightarrow> wide w s new s'"
| wide_record: "record_turn w st s wd = (h, s1, wd1) \<Longrightarrow> wide w s1 new s' \<Longrightarrow> wide w s (h # new) s'"

lemma wide_log: "wide w s new s' \<Longrightarrow> session_log (sw_HistoryLimit w) hist s \<Longrightarrow> session_log (sw_HistoryLimit w) (hist @ new) s'"
proof (induction arbitrary: hist rule: wide.induct)
  case (wide_record st s wd h s1 wd1 new s')
  have "session_log (sw_HistoryLimit w) (hist @ [h]) s1" using session_log_record [OF wide_record.prems wide_record.hyps(1)] by (rule conjunct1)
  from wide_record.IH [OF this] show ?case by simp
qed simp_all

subsection \<open>The checkpoint on disk\<close>

text \<open>
  What the disk promises.  A write that fails may leave anything in its file; a rename either
  happens or does not.
\<close>

definition disk_ok :: "'w os_env \<Rightarrow> ('w \<Rightarrow> string \<rightharpoonup> bytes) \<Rightarrow> bool" where
  "disk_ok os files \<longleftrightarrow>
     (\<forall>p wd r wd'. os_ReadFile os p wd = (r, wd') \<longrightarrow> files wd' = files wd
        \<and> (\<forall>b. r = Inr b \<longrightarrow> files wd p = Some b) \<and> (r = Inl os_NotExist \<longrightarrow> files wd p = None))
   \<and> (\<forall>p wd r wd'. os_MkdirAll os p wd = (r, wd') \<longrightarrow> files wd' = files wd)
   \<and> (\<forall>p b wd r wd'. os_WriteFile os p b wd = (r, wd') \<longrightarrow> (\<forall>q. q \<noteq> p \<longrightarrow> files wd' q = files wd q) \<and> (r = None \<longrightarrow> files wd' p = Some b))
   \<and> (\<forall>a p wd r wd'. os_Rename os a p wd = (r, wd') \<longrightarrow>
        files wd' = (if r = None then (files wd)(p := files wd a, a := None) else files wd))"

lemma disk_okD:
  assumes "disk_ok os files"
  shows "os_ReadFile os p wd = (r, wd') \<Longrightarrow> files wd' = files wd"
    and "os_ReadFile os p wd = (Inr b, wd') \<Longrightarrow> files wd p = Some b"
    and "os_ReadFile os p wd = (Inl os_NotExist, wd') \<Longrightarrow> files wd p = None"
    and "os_MkdirAll os p wd = (e, wd') \<Longrightarrow> files wd' = files wd"
    and "os_WriteFile os p b wd = (e, wd') \<Longrightarrow> q \<noteq> p \<Longrightarrow> files wd' q = files wd q"
    and "os_WriteFile os p b wd = (None, wd') \<Longrightarrow> files wd' p = Some b"
    and "os_Rename os a p wd = (e, wd') \<Longrightarrow> files wd' = (if e = None then (files wd)(p := files wd a, a := None) else files wd)"
  using assms unfolding disk_ok_def by simp_all

definition stored :: "session_codec \<Rightarrow> bytes option \<Rightarrow> SessionState option" where
  "stored cd f = (case f of None \<Rightarrow> Some fresh_state | Some b \<Rightarrow> (case dec_state cd b of Inl _ \<Rightarrow> None | Inr s \<Rightarrow> Some s))"

definition state_codec_ok :: "session_codec \<Rightarrow> bool" where
  "state_codec_ok cd \<longleftrightarrow> (\<forall>s b. enc_state cd s = Inr b \<longrightarrow> dec_state cd b = Inr s)"

lemma store_Load_stored:
  assumes "disk_ok os files" "store_Load os cd path wd = (r, wd')"
  shows "files wd' = files wd" and "r = Inr s \<Longrightarrow> stored cd (files wd path) = Some s"
proof -
  obtain x wd1 where x: "os_ReadFile os path wd = (x, wd1)" by fastforce
  note d = disk_okD(1-3) [OF assms(1)]
  have "wd' = wd1" using assms(2) x by (auto simp: store_Load_def split: sum.splits os_error.splits)
  with d(1) [OF x] show "files wd' = files wd" by simp
  show "stored cd (files wd path) = Some s" if "r = Inr s"
    using assms(2) x d(2,3) that by (auto simp: store_Load_def stored_def split: sum.splits os_error.splits)
qed

text \<open>A save leaves the old checkpoint or the new one, whatever fails; a success leaves the new one.\<close>

lemma store_Save_atomic:
  assumes "disk_ok os files" "state_codec_ok cd" "store_Save os cd path s wd = (e, wd')"
  shows "files wd' path = files wd path \<or> stored cd (files wd' path) = Some s"
    and "e = None \<Longrightarrow> stored cd (files wd' path) = Some s"
proof -
  note d = disk_okD(4-7) [OF assms(1)]
  obtain m wd1 where m: "os_MkdirAll os (filepath_Dir path) wd = (m, wd1)" by fastforce
  have "(files wd' path = files wd path \<or> stored cd (files wd' path) = Some s) \<and> (e = None \<longrightarrow> stored cd (files wd' path) = Some s)"
  proof (cases "m = None \<and> (\<exists>b. enc_state cd s = Inr b)")
    case False
    with assms(3) m d(1) [OF m] show ?thesis by (cases m) (auto simp: store_Save_def split: sum.splits)
  next
    case True
    then obtain b where b: "enc_state cd s = Inr b" by blast
    obtain x wd2 where x: "os_WriteFile os (path @ ''.tmp'') b wd1 = (x, wd2)" by fastforce
    have f2: "files wd2 path = files wd path" using d(2) [OF x, of path] d(1) [OF m] by simp
    show ?thesis
    proof (cases x)
      case (Some err)
      with assms(3) True m b x f2 show ?thesis by (auto simp: store_Save_def Let_def)
    next
      case None
      obtain y wd3 where y: "os_Rename os (path @ ''.tmp'') path wd2 = (y, wd3)" by fastforce
      have r: "e = map_option os_message y" "wd' = wd3" using assms(3) True m b x None y by (simp_all add: store_Save_def Let_def)
      have t: "files wd2 (path @ ''.tmp'') = Some b" using d(3) x None by simp
      show ?thesis
      proof (cases y)
        case None
        have "files wd' path = Some b" using d(4) [OF y] None r(2) t by simp
        with b assms(2) show ?thesis by (simp add: stored_def state_codec_ok_def)
      next
        case (Some err)
        with d(4) [OF y] r f2 show ?thesis by simp
      qed
    qed
  qed
  then show "files wd' path = files wd path \<or> stored cd (files wd' path) = Some s"
    and "e = None \<Longrightarrow> stored cd (files wd' path) = Some s" by simp_all
qed

text \<open>The files of a session have different names.\<close>

lemma split_slash_snoc: "plain name \<Longrightarrow> split_slash (p @ slash # name) = split_slash p @ [name]"
proof (induction p)
  case (Cons c p)
  then show ?case by (cases "split_slash p") auto
qed (simp add: split_slash_one)

lemma join_slash_snoc: "join_slash (cs @ [c]) = (if cs = [] then c else join_slash cs @ slash # c)"
  by (induction cs rule: join_slash.induct) auto

lemma path_Clean_last:
  assumes "plain name" "name \<noteq> []" "name \<noteq> ''.''" "name \<noteq> ''..''"
  shows "\<exists>pre. path_Clean (p @ slash # name) = pre @ name"
proof -
  let ?st = "fold (clean_step (path_IsAbs (p @ slash # name))) (split_slash p) []"
  have "join_slash (rev (fold (clean_step (path_IsAbs (p @ slash # name))) (split_slash (p @ slash # name)) []))
      = (if ?st = [] then [] else join_slash (rev ?st) @ [slash]) @ name"
    using assms by (simp add: split_slash_snoc join_slash_snoc)
  then have "path_Clean (p @ slash # name)
      = ((if path_IsAbs (p @ slash # name) then [slash] else []) @ (if ?st = [] then [] else join_slash (rev ?st) @ [slash])) @ name"
    using assms(2) by (simp add: path_Clean_def Let_def del: clean_step.simps)
  then show ?thesis by (rule exI)
qed

lemma session_path_last:
  assumes "plain name" "name \<noteq> []" "name \<noteq> ''.''" "name \<noteq> ''..''"
  shows "\<exists>pre. filepath_Join [ws, ''.smol-session'', name] = pre @ name"
  using path_Clean_last [OF assms, of "if ws = [] then ''.smol-session'' else ws @ slash # ''.smol-session''"] assms(2)
  by (auto simp: filepath_Join_def)

lemma session_paths_distinct:
  "DefaultSessionStatePath ws \<noteq> DefaultSessionSummaryPath ws" "DefaultSessionStatePath ws \<noteq> DefaultSessionSummaryPath ws @ ''.tmp''"
proof -
  obtain a where a: "DefaultSessionStatePath ws = a @ ''state.json''"
    using session_path_last [of "''state.json''" ws] by (auto simp: DefaultSessionStatePath_def)
  obtain b where b: "DefaultSessionSummaryPath ws = b @ ''status-summary.json''"
    using session_path_last [of "''status-summary.json''" ws] by (auto simp: DefaultSessionSummaryPath_def)
  have "rev (DefaultSessionStatePath ws) \<noteq> rev (DefaultSessionSummaryPath ws)" by (simp add: a b)
  then show "DefaultSessionStatePath ws \<noteq> DefaultSessionSummaryPath ws" by metis
  have "rev (DefaultSessionStatePath ws) \<noteq> rev (DefaultSessionSummaryPath ws @ ''.tmp'')" by (simp add: a b)
  then show "DefaultSessionStatePath ws \<noteq> DefaultSessionSummaryPath ws @ ''.tmp''" by metis
qed

text \<open>What the worker calls leaves the checkpoint alone.\<close>

definition frames :: "('w \<Rightarrow> bytes option) \<Rightarrow> ('w \<Rightarrow> 'a \<times> 'w) \<Rightarrow> bool" where
  "frames ck f \<longleftrightarrow> (\<forall>wd. ck (snd (f wd)) = ck wd)"

lemma framesD: "frames ck f \<Longrightarrow> f wd = (x, wd') \<Longrightarrow> ck wd' = ck wd"
  unfolding frames_def by (metis snd_conv)

definition quiet_ack :: "('w \<Rightarrow> bytes option) \<Rightarrow> 'w InboundTurn \<Rightarrow> bool" where
  "quiet_ack ck t \<longleftrightarrow> (\<forall>ack. it_Ack t = Some ack \<longrightarrow> frames ck ack)"

definition leaves_checkpoint :: "'w SessionWorker \<Rightarrow> ('w \<Rightarrow> bytes option) \<Rightarrow> bool" where
  "leaves_checkpoint w ck \<longleftrightarrow> frames ck (sw_Now w) \<and> frames ck (sw_Poll w) \<and> frames ck (sw_select w)
     \<and> (\<forall>i st. frames ck (sw_Publish w i st)) \<and> (\<forall>d t. frames ck (sw_Execute w d t))
     \<and> (\<forall>gate d sp m. sw_ReviewTurn w = Some gate \<longrightarrow> frames ck (gate d sp m))
     \<and> (\<forall>wd ts wd1. sw_Poll w wd = (Inr ts, wd1) \<longrightarrow> list_all (quiet_ack ck) ts)"

lemma quiet_calls:
  assumes "leaves_checkpoint w ck"
  shows "sw_Now w wd = (now, wd') \<Longrightarrow> ck wd' = ck wd"
    and "sw_Poll w wd = (p, wd') \<Longrightarrow> ck wd' = ck wd"
    and "sw_select w wd = (x, wd') \<Longrightarrow> ck wd' = ck wd"
    and "sw_Publish w i st wd = (y, wd') \<Longrightarrow> ck wd' = ck wd"
    and "sw_Execute w d t wd = (r, wd') \<Longrightarrow> ck wd' = ck wd"
    and "sw_ReviewTurn w = Some gate \<Longrightarrow> gate d sp m wd = (v, wd') \<Longrightarrow> ck wd' = ck wd"
proof -
  have f: "frames ck (sw_Now w)" "frames ck (sw_Poll w)" "frames ck (sw_select w)" "frames ck (sw_Publish w i st)" "frames ck (sw_Execute w d t)"
    and g: "sw_ReviewTurn w = Some gate \<Longrightarrow> frames ck (gate d sp m)"
    using assms by (simp_all add: leaves_checkpoint_def)
  show "sw_Now w wd = (now, wd') \<Longrightarrow> ck wd' = ck wd" by (rule framesD [OF f(1)])
  show "sw_Poll w wd = (p, wd') \<Longrightarrow> ck wd' = ck wd" by (rule framesD [OF f(2)])
  show "sw_select w wd = (x, wd') \<Longrightarrow> ck wd' = ck wd" by (rule framesD [OF f(3)])
  show "sw_Publish w i st wd = (y, wd') \<Longrightarrow> ck wd' = ck wd" by (rule framesD [OF f(4)])
  show "sw_Execute w d t wd = (r, wd') \<Longrightarrow> ck wd' = ck wd" by (rule framesD [OF f(5)])
  show "sw_ReviewTurn w = Some gate \<Longrightarrow> gate d sp m wd = (v, wd') \<Longrightarrow> ck wd' = ck wd" by (rule framesD [OF g])
qed

lemma deliver_quiet:
  assumes "leaves_checkpoint w ck" "quiet_ack ck t"
  shows "ck (deliver w t st wd) = ck wd"
proof -
  obtain x wd1 where p: "sw_Publish w (it_ID t) st wd = (x, wd1)" by fastforce
  with assms(2) quiet_calls(4) [OF assms(1) p] show ?thesis
    by (auto simp: deliver_def quiet_ack_def frames_def split: option.split)
qed

lemma record_turn_quiet:
  assumes "leaves_checkpoint w ck" "record_turn w st s wd = (h, s', wd')"
  shows "ck wd' = ck wd"
  using assms(2) quiet_calls(1) [OF assms(1)] by (auto simp: record_turn_def Let_def split: prod.splits)

lemma cancel_turn_quiet:
  assumes "leaves_checkpoint w ck" "quiet_ack ck t" "cancel_turn w t started reason s wd = (s', wd')"
  shows "ck wd' = ck wd"
  using assms(3) by (auto simp: cancel_turn_def Let_def deliver_quiet [OF assms(1,2)] split: prod.splits
      dest!: quiet_calls(1) [OF assms(1)] record_turn_quiet [OF assms(1)])

lemma run_turn_quiet:
  assumes "leaves_checkpoint w ck" "quiet_ack ck t" "run_turn w t started spec mem s wd = (s', wd')"
  shows "ck wd' = ck wd"
  using assms(3) by (auto simp: run_turn_def Let_def deliver_quiet [OF assms(1,2)] split: prod.splits
      dest!: quiet_calls(1,5) [OF assms(1)] record_turn_quiet [OF assms(1)])

lemma handleTurn_quiet:
  assumes "leaves_checkpoint w ck" "quiet_ack ck t" "handleTurn w t s wd = (s', wd')"
  shows "ck wd' = ck wd"
proof -
  obtain started wd1 where n: "sw_Now w wd = (started, wd1)" by fastforce
  note q = quiet_calls [OF assms(1)] and c = cancel_turn_quiet [OF assms(1,2)] and r = run_turn_quiet [OF assms(1,2)]
  show ?thesis
  proof (cases "sw_ReviewTurn w")
    case None
    with assms(3) n have "run_turn w t started (it_Spec t) (buildMemory w s (sw_AgentRef w)) s wd1 = (s', wd')" by (simp add: handleTurn_def)
    from r [OF this] q(1) [OF n] show ?thesis by simp
  next
    case (Some gate)
    obtain v wd2 where g: "gate (sw_TurnTimeout w) (it_Spec t) (buildMemory w s (sw_AgentRef w)) wd1 = (v, wd2)" by fastforce
    have "ck wd' = ck wd2"
      using assms(3) by (cases v) (auto simp: handleTurn_def n Some g Let_def split: if_splits dest!: c r)
    with q(1) [OF n] q(6) [OF Some g] show ?thesis by simp
  qed
qed

lemma handle_turns_quiet:
  assumes "leaves_checkpoint w ck"
  shows "\<forall>t\<in>set ts. quiet_ack ck t \<Longrightarrow> handle_turns w ts s wd = (r, s', wd') \<Longrightarrow> ck wd' = ck wd"
proof (induction ts arbitrary: s wd r s' wd')
  case (Cons t ts)
  obtain s1 wd1 where h: "handleTurn w t s wd = (s1, wd1)" by fastforce
  obtain r' s2 wd2 where hs: "handle_turns w ts s1 wd1 = (r', s2, wd2)" by (metis prod_cases3)
  have "wd' = wd \<or> wd' = wd2" using Cons.prems(2) by (auto simp: h hs split: option.splits prod.splits)
  with Cons.IH [OF _ hs] Cons.prems(1) handleTurn_quiet [OF assms _ h] show ?case by auto
qed simp

lemma processTurns_quiet:
  assumes "leaves_checkpoint w ck" "processTurns w s wd = (r, s', wd')"
  shows "ck wd' = ck wd"
proof -
  obtain p wd1 where p: "sw_Poll w wd = (p, wd1)" by fastforce
  note q = quiet_calls(2) [OF assms(1) p]
  show ?thesis
  proof (cases p)
    case (Inl e)
    with assms(2) p q show ?thesis by (simp add: processTurns_def)
  next
    case (Inr ts)
    have "\<forall>wd ts wd1. sw_Poll w wd = (Inr ts, wd1) \<longrightarrow> list_all (quiet_ack ck) ts" using assms(1) by (simp add: leaves_checkpoint_def)
    then have "sw_Poll w wd = (Inr ts, wd1) \<longrightarrow> list_all (quiet_ack ck) ts" by (elim allE)
    then have "\<forall>t\<in>set ts. quiet_ack ck t" using p Inr by (simp add: list_all_iff)
    moreover have "handle_turns w ts s wd1 = (r, s', wd')" using assms(2) p Inr by (simp add: processTurns_def)
    ultimately show ?thesis using handle_turns_quiet [OF assms(1)] q by metis
  qed
qed

lemma sw_save_stored:
  assumes "disk_ok (sw_os w) files" "state_codec_ok (sw_codec w)" "sw_save w s wd = (e, wd')"
  shows "files wd' (DefaultSessionStatePath (sw_Workspace w)) = files wd (DefaultSessionStatePath (sw_Workspace w))
    \<or> stored (sw_codec w) (files wd' (DefaultSessionStatePath (sw_Workspace w))) = Some s"
  using store_Save_atomic(1) [OF assms(1,2)] assms(3) by (simp add: sw_save_def)

lemma writeSummary_quiet:
  assumes "disk_ok (sw_os w) files"
  shows "files (writeSummary w s wd) (DefaultSessionStatePath (sw_Workspace w)) = files wd (DefaultSessionStatePath (sw_Workspace w))"
proof -
  note d = disk_okD(5,7) [OF assms]
  let ?p = "DefaultSessionSummaryPath (sw_Workspace w)"
  show ?thesis
  proof (cases "enc_summary (sw_codec w) (Summary s)")
    case (Inr b)
    obtain x wd1 where x: "os_WriteFile (sw_os w) (?p @ ''.tmp'') b wd = (x, wd1)" by fastforce
    obtain y wd2 where y: "os_Rename (sw_os w) (?p @ ''.tmp'') ?p wd1 = (y, wd2)" by fastforce
    note f1 = d(1) [OF x session_paths_distinct(2)]
    show ?thesis
    proof (cases x)
      case None
      with f1 d(2) [OF y] show ?thesis by (simp add: writeSummary_def Let_def Inr x y session_paths_distinct)
    next
      case (Some e)
      with f1 show ?thesis by (simp add: writeSummary_def Let_def Inr x)
    qed
  qed (simp add: writeSummary_def)
qed

text \<open>
  The checkpoint is a state of this session: it lacks at most the last of the turns recorded so far.
\<close>

definition resumable :: "'w SessionWorker \<Rightarrow> SessionTurn list \<Rightarrow> SessionState \<Rightarrow> bytes option \<Rightarrow> bool" where
  "resumable w hist s f \<longleftrightarrow> (\<exists>new k sc. session_log (sw_HistoryLimit w) (hist @ new) s
     \<and> stored (sw_codec w) f = Some sc \<and> session_log (sw_HistoryLimit w) (hist @ take k new) sc)"

lemma resumable_phase [simp]:
  "resumable w hist (s\<lparr>ss_Phase := p\<rparr>) f = resumable w hist s f"
  "resumable w hist (s\<lparr>ss_CreatedAt := c\<rparr>) f = resumable w hist s f"
  "resumable w hist (s\<lparr>ss_AgentRef := a\<rparr>) f = resumable w hist s f"
  by (simp_all add: resumable_def)

lemma resumable_grow:
  assumes "resumable w hist s f" "\<And>hist. session_log (sw_HistoryLimit w) hist s \<Longrightarrow> \<exists>new. session_log (sw_HistoryLimit w) (hist @ new) s'"
  shows "resumable w hist s' f"
proof -
  obtain new k sc where r: "session_log (sw_HistoryLimit w) (hist @ new) s" "stored (sw_codec w) f = Some sc"
    "session_log (sw_HistoryLimit w) (hist @ take k new) sc" using assms(1) unfolding resumable_def by (elim exE conjE) (rule that)
  obtain more where m: "session_log (sw_HistoryLimit w) ((hist @ new) @ more) s'" using assms(2) [OF r(1)] ..
  have "take (min k (length new)) (new @ more) = take k new" by (simp add: min_def)
  with r m show ?thesis unfolding resumable_def
    by (intro exI [of _ "new @ more"] exI [of _ "min k (length new)"] exI [of _ sc]) simp
qed

lemma resumable_stored:
  assumes "resumable w hist s f" "f' = f \<or> stored (sw_codec w) f' = Some s"
  shows "resumable w hist s f'"
  using assms(2)
proof
  assume "stored (sw_codec w) f' = Some s"
  moreover obtain new where "session_log (sw_HistoryLimit w) (hist @ new) s" using assms(1) unfolding resumable_def by (elim exE conjE) (rule that)
  ultimately show ?thesis unfolding resumable_def by (intro exI [of _ new] exI [of _ "length new"] exI [of _ s]) simp
qed (simp add: assms(1))

definition checkpoint :: "'w SessionWorker \<Rightarrow> ('w \<Rightarrow> string \<rightharpoonup> bytes) \<Rightarrow> 'w \<Rightarrow> bytes option" where
  "checkpoint w files wd = files wd (DefaultSessionStatePath (sw_Workspace w))"

lemma save_resumable:
  assumes "disk_ok (sw_os w) files" "state_codec_ok (sw_codec w)" "resumable w hist s (checkpoint w files wd)"
  shows "resumable w hist s (checkpoint w files (snd (sw_save w s wd)))"
    and "resumable w hist s (checkpoint w files (writeSummary w s wd))"
proof -
  obtain e wd' where s: "sw_save w s wd = (e, wd')" by fastforce
  from sw_save_stored [OF assms(1,2) s] resumable_stored [OF assms(3)] show "resumable w hist s (checkpoint w files (snd (sw_save w s wd)))"
    by (simp add: s checkpoint_def)
  show "resumable w hist s (checkpoint w files (writeSummary w s wd))" using assms(3) by (simp add: checkpoint_def writeSummary_quiet [OF assms(1)])
qed

lemma processTurns_resumable:
  assumes "leaves_checkpoint w (checkpoint w files)" "resumable w hist s (checkpoint w files wd)" "processTurns w s wd = (r, s', wd')"
  shows "resumable w hist s' (checkpoint w files wd')"
proof -
  obtain n e where r: "r = (n, e)" by fastforce
  have "resumable w hist s' (checkpoint w files wd)"
  proof (rule resumable_grow [OF assms(2)])
    fix hist
    assume "session_log (sw_HistoryLimit w) hist s"
    from processTurns_done [OF this assms(3) [unfolded r]] show "\<exists>new. session_log (sw_HistoryLimit w) (hist @ new) s'"
      by (elim exE conjE) (rule exI)
  qed
  then show ?thesis by (simp add: processTurns_quiet [OF assms(1,3)])
qed

lemma session_round_resumable:
  assumes "disk_ok (sw_os w) files" "state_codec_ok (sw_codec w)" "leaves_checkpoint w (checkpoint w files)"
    and "resumable w hist s (checkpoint w files wd)"
  shows "case session_round w s idle wd of Again s1 _ wd1 \<Rightarrow> resumable w hist s1 (checkpoint w files wd1)
    | Stop _ s1 wd1 \<Rightarrow> resumable w hist s1 (checkpoint w files wd1)"
proof (cases "sw_ctxErr w wd")
  case (Some e)
  with assms(4) show ?thesis by (simp add: session_round_def)
next
  case None
  note q = quiet_calls [OF assms(3)] and sv = save_resumable [OF assms(1,2)]
  obtain n e s1 wd1 where p: "processTurns w s wd = ((n, e), s1, wd1)" by (metis prod_cases3 prod.collapse)
  obtain x wd2 where x: "sw_save w s1 wd1 = (x, wd2)" by fastforce
  define wd3 where "wd3 = writeSummary w s1 wd2"
  have r3: "resumable w hist s1 (checkpoint w files wd3)"
    unfolding wd3_def using sv(1) [OF processTurns_resumable [OF assms(3,4) p]] by (intro sv(2)) (simp add: x)
  show ?thesis
  proof (cases "n > 0")
    case True
    obtain now wd4 where "sw_Now w wd3 = (now, wd4)" by fastforce
    with True r3 q(1) show ?thesis by (simp add: session_round_def None p x wd3_def [symmetric])
  next
    case False
    obtain s4 wd4 where p4: "park w s1 wd3 = (s4, wd4)" by fastforce
    obtain idl wd5 where i: "idle_over w idle wd4 = (idl, wd5)" by fastforce
    obtain y wd6 where y: "sw_select w wd5 = (y, wd6)" by fastforce
    have "resumable w hist s4 (checkpoint w files wd4)"
      using p4 r3 sv(1) [of hist "s1\<lparr>ss_Phase := PhaseRequiresAction\<rparr>" wd3] by (auto simp: park_def Let_def split: if_splits)
    moreover have "checkpoint w files wd5 = checkpoint w files wd4" using i q(1) by (auto simp: idle_over_def split: if_splits prod.splits)
    ultimately show ?thesis using False q(3) [OF y]
      by (simp add: session_round_def None p x wd3_def [symmetric] p4 i y split: option.split)
  qed
qed

lemma session_start_resumable:
  assumes "disk_ok (sw_os w) files" "state_codec_ok (sw_codec w)" "leaves_checkpoint w (checkpoint w files)"
    and "resumable w hist s (checkpoint w files wd)" "session_start w s wd = (s', wd')"
  shows "resumable w hist s' (checkpoint w files wd')"
proof -
  obtain now wd1 where n: "sw_Now w wd = (now, wd1)" by fastforce
  note q = quiet_calls(1) [OF assms(3) n] and sv = save_resumable [OF assms(1,2)]
  obtain s1 wd2 where c: "(if ss_CreatedAt s = zero_time then (s\<lparr>ss_CreatedAt := now\<rparr>, wd1) else (s, wd)) = (s1, wd2)" by fastforce
  have "resumable w hist s1 (checkpoint w files wd2)" using c q assms(4) by (auto split: if_splits)
  moreover have s': "s' = (if sw_AgentRef w \<noteq> [] then s1\<lparr>ss_AgentRef := sw_AgentRef w\<rparr> else s1)\<lparr>ss_Phase := PhaseRunning\<rparr>"
    and wd': "wd' = writeSummary w s' (snd (sw_save w s' wd2))"
    using assms(5) c by (auto simp: session_start_def n Let_def split: if_splits prod.splits)
  ultimately have "resumable w hist s' (checkpoint w files wd2)" by (simp add: s')
  then show ?thesis unfolding wd' by (intro sv)
qed

subsection \<open>Properties of sessions\<close>

text \<open>
  Claim C3.  The state of a session is its history.  From a state that represents the turns
  recorded so far, a poll of the inbox records exactly one turn for each turn it handles, in order:
  the indices go on without a gap although old turns are dropped from the log, the counters and the
  usage are those of all turns ever recorded, and each turn is published with the index it was
  recorded under and then acknowledged.  The whole loop keeps the state a history that extends the
  first, and so does a worker that runs several turns at once, in whatever order they finish.
\<close>

theorem session_history:
  assumes "session_log (sw_HistoryLimit w) hist s" "sw_Poll w wd = (Inr ts, wd1)" "processTurns w s wd = ((n, e), s', wd')"
  shows "n \<le> length ts \<and> (e = None \<longrightarrow> n = length ts)
    \<and> (\<exists>new. length new = n \<and> session_log (sw_HistoryLimit w) (hist @ new) s' \<and> turns_done w hist (take n ts) new s wd1 s' wd')
    \<and> (\<forall>idle e2 s2 wd2. session_loop w s idle wd = Some (e2, s2, wd2) \<longrightarrow> (\<exists>new. session_log (sw_HistoryLimit w) (hist @ new) s2))
    \<and> (\<forall>new s2. wide w s new s2 \<longrightarrow> session_log (sw_HistoryLimit w) (hist @ new) s2)"
proof -
  from processTurns_done [OF assms(1,3)] obtain new where new: "session_log (sw_HistoryLimit w) (hist @ new) s'" "length new = n"
    and poll: "\<forall>ts wd1. sw_Poll w wd = (Inr ts, wd1) \<longrightarrow> n \<le> length ts \<and> (e = None \<longrightarrow> n = length ts) \<and> turns_done w hist (take n ts) new s wd1 s' wd'"
    by (elim exE conjE) (rule that)
  from poll have "sw_Poll w wd = (Inr ts, wd1) \<longrightarrow> n \<le> length ts \<and> (e = None \<longrightarrow> n = length ts) \<and> turns_done w hist (take n ts) new s wd1 s' wd'"
    by (elim allE)
  with assms(2) have d: "n \<le> length ts" "e = None \<longrightarrow> n = length ts" "turns_done w hist (take n ts) new s wd1 s' wd'" by simp_all
  show ?thesis
  proof (intro conjI allI impI)
    show "\<exists>new. length new = n \<and> session_log (sw_HistoryLimit w) (hist @ new) s' \<and> turns_done w hist (take n ts) new s wd1 s' wd'"
      using new d(3) by (intro exI [of _ new] conjI)
  qed (use d(1,2) in \<open>simp_all add: session_loop_log [OF _ assms(1)] wide_log [OF _ assms(1)]\<close>)
qed


text \<open>
  Claim C32.  Turns are acknowledged before they are checkpointed.  Once a poll has been worked off,
  every turn it handled has been published and acknowledged, so that its source will not deliver it
  again, while the checkpoint is still the one from before the poll: a crash at this point loses the
  turns of the whole batch and their usage.
\<close>

theorem acked_turns_not_checkpointed:
  assumes "leaves_checkpoint w (checkpoint w files)" "session_log (sw_HistoryLimit w) hist s"
    and "sw_Poll w wd = (Inr ts, wd1)" "processTurns w s wd = ((n, None), s', wd')"
  shows "checkpoint w files wd' = checkpoint w files wd
    \<and> ss_TotalTurns s' = of_nat (length hist + length ts)
    \<and> (\<exists>new. turns_done w hist ts new s wd1 s' wd')"
proof -
  have h: "handle_turns w ts s wd1 = ((n, None), s', wd')" using assms(3,4) by (simp add: processTurns_def)
  from handle_turns_done [OF assms(2) h] obtain new where t: "n = length ts" "turns_done w hist ts new s wd1 s' wd'" by auto
  from turns_done_log [OF t(2) assms(2)] have "ss_TotalTurns s' = of_nat (length hist + length ts)" by (simp add: session_log_def)
  with t(2) processTurns_quiet [OF assms(1,4)] show ?thesis by blast
qed

subsection \<open>A worker on a disk of its own\<close>

definition map_os :: "(string \<rightharpoonup> bytes) os_env" where
  "map_os = \<lparr>os_ReadFile = (\<lambda>p f. (case f p of None \<Rightarrow> Inl os_NotExist | Some b \<Rightarrow> Inr b, f)), os_ReadDir = (\<lambda>p f. (Inr [], f)),
     os_MkdirAll = (\<lambda>p f. (None, f)), os_WriteFile = (\<lambda>p b f. (None, f(p \<mapsto> b))),
     os_Rename = (\<lambda>a p f. (None, f(p := f a, a := None))), os_Remove = (\<lambda>p f. (None, f(p := None)))\<rparr>"

definition demo_spec :: AgentRunSpec where
  "demo_spec = \<lparr>rsp_AgentRef = ''a'', rsp_SessionRef = [], rsp_ResumeSessionID = [], rsp_Input = ''hi'', rsp_Seed = 0, rsp_BudgetOverride = None,
     rsp_Cancel = False, rsp_PlacementFallback = [], rsp_Decision = None, rsp_RequireApprovalBeforeRun = None, rsp_Priority = 0,
     rsp_MemoryRetrieverRef = [], rsp_Inputs = []\<rparr>"

definition demo_inbound :: "(string \<rightharpoonup> bytes) InboundTurn" where
  "demo_inbound = \<lparr>it_ID = ''1'', it_Spec = demo_spec, it_Ack = Some (\<lambda>f. (None, f(''in'' := None)))\<rparr>"

definition demo_agent :: AgentSpec where
  "demo_agent = \<lparr>as_Mode = [], as_Model = \<lparr>mr_ProviderRef = ''p'', mr_Name = ''m''\<rparr>, as_Harness = None, as_Instructions = [], as_Tools = [], as_Storage = None, as_Budget = \<lparr>MaxSteps = 1, MaxTokens = 1, MaxWallClockSeconds = 1, MaxToolCalls = 0\<rparr>\<rparr>"

definition demo_session :: "(string \<rightharpoonup> bytes) SessionWorker" where
  "demo_session = \<lparr>sw_Agent = demo_agent, sw_AgentRef = ''a'', sw_Workspace = ''/w'', sw_IdleTimeout = 0, sw_Now = Pair 5,
     sw_Poll = (\<lambda>f. (Inr (if f ''in'' = None then [] else [demo_inbound]), f)), sw_Publish = (\<lambda>i st f. (None, f(''out'' \<mapsto> i))),
     sw_TurnTimeout = 0, sw_HistoryLimit = 1, sw_ReplayHistory = False,
     sw_Execute = (\<lambda>d t f. ((\<lparr>res_Phase = PhaseCompleted, res_Steps = [], res_Usage = zero_Usage, res_TerminationReason = [],
       res_Output = ''ok'', res_SessionID = []\<rparr>, None), f)),
     sw_ReviewTurn = None, sw_os = map_os,
     sw_codec = \<lparr>enc_state = (\<lambda>s. if s = fresh_state then Inr ''1'' else Inl ''unknown''),
       dec_state = (\<lambda>b. if b = ''1'' then Inr fresh_state else Inl ''unknown''), enc_summary = (\<lambda>_. Inl ''unknown''),
       enc_turn = (\<lambda>_. Inl ''unknown''), dec_spec = (\<lambda>_. Inl ''unknown'')\<rparr>,
     sw_ctxErr = (\<lambda>_. None), sw_select = Pair (Some ''context canceled'')\<rparr>"

lemma demo_disk: "disk_ok (sw_os demo_session) id" "state_codec_ok (sw_codec demo_session)"
  by (auto simp: disk_ok_def demo_session_def map_os_def state_codec_ok_def split: option.splits if_splits)

lemma demo_leaves: "leaves_checkpoint demo_session (checkpoint demo_session id)"
proof -
  obtain a where "DefaultSessionStatePath ''/w'' = a @ ''state.json''"
    using session_path_last [of "''state.json''" "''/w''"] by (auto simp: DefaultSessionStatePath_def)
  then have "length (DefaultSessionStatePath ''/w'') \<ge> 10" by simp
  then have "DefaultSessionStatePath ''/w'' \<noteq> ''in''" "DefaultSessionStatePath ''/w'' \<noteq> ''out''" by auto
  then show ?thesis
    by (auto simp: leaves_checkpoint_def frames_def quiet_ack_def checkpoint_def demo_session_def demo_inbound_def)
qed

lemma demo_poll: "sw_Poll demo_session [''in'' \<mapsto> ''x''] = (Inr [demo_inbound], [''in'' \<mapsto> ''x''])"
  by (simp add: demo_session_def)

lemma demo_process: "\<exists>s' wd'. processTurns demo_session fresh_state [''in'' \<mapsto> ''x''] = ((1, None), s', wd')"
proof -
  have "sw_ctxErr demo_session wd = None" for wd by (simp add: demo_session_def)
  moreover obtain s' wd' where "handleTurn demo_session demo_inbound fresh_state [''in'' \<mapsto> ''x''] = (s', wd')" by fastforce
  ultimately show ?thesis by (simp add: processTurns_def demo_poll)
qed

theorem session_history_witness:
  "\<exists>s' wd'. processTurns demo_session fresh_state [''in'' \<mapsto> ''x''] = ((1, None), s', wd') \<and> ss_TotalTurns s' = 1"
proof -
  obtain s' wd' where p: "processTurns demo_session fresh_state [''in'' \<mapsto> ''x''] = ((1, None), s', wd')" using demo_process by blast
  from session_history [OF session_log_fresh demo_poll p] obtain new where
    "length new = 1" "session_log (sw_HistoryLimit demo_session) new s'" by auto
  with p show ?thesis by (simp add: session_log_def)
qed

theorem acked_turns_not_checkpointed_witness:
  "\<exists>s' wd'. processTurns demo_session fresh_state [''in'' \<mapsto> ''x''] = ((1, None), s', wd') \<and> ss_TotalTurns s' = 1
     \<and> stored (sw_codec demo_session) (checkpoint demo_session id wd') = Some fresh_state"
proof -
  obtain s' wd' where p: "processTurns demo_session fresh_state [''in'' \<mapsto> ''x''] = ((1, None), s', wd')" using demo_process by blast
  have "checkpoint demo_session id [''in'' \<mapsto> ''x''] = None"
    using session_path_last [of "''state.json''" "''/w''"] by (auto simp: checkpoint_def demo_session_def DefaultSessionStatePath_def)
  with acked_turns_not_checkpointed [OF demo_leaves session_log_fresh demo_poll p] p show ?thesis by (auto simp: stored_def)
qed

lemma demo_run: "\<exists>e wd'. session_Run demo_session Map.empty = Some (e, wd')"
proof -
  have stop: "\<exists>e s' wd'. session_loop demo_session s idle f = Some (e, s', wd')" if "f ''in'' = None" for s idle f
  proof -
    have p: "processTurns demo_session s f = ((0, None), s, f)" using that by (simp add: processTurns_def demo_session_def)
    have "sw_select demo_session wd = (Some ''context canceled'', wd)" "sw_IdleTimeout demo_session = 0" "sw_ctxErr demo_session wd = None" for wd
      by (simp_all add: demo_session_def)
    with p have "\<exists>s' wd'. session_round demo_session s idle f = Stop (Some ''context canceled'') s' wd'"
      by (auto simp: session_round_def idle_over_def split: prod.split)
    then show ?thesis by (subst session_loop.simps) auto
  qed
  obtain s wd where s: "session_start demo_session fresh_state Map.empty = (s, wd)" by fastforce
  have "wd ''in'' = None"
    using s by (auto simp: session_start_def demo_session_def writeSummary_def sw_save_def store_Save_def map_os_def Let_def fresh_state_def)
  with stop [of wd s 5] obtain e s' wd' where "session_loop demo_session s 5 wd = Some (e, s', wd')" by blast
  moreover have "store_Load (sw_os demo_session) (sw_codec demo_session) p Map.empty = (Inr fresh_state, Map.empty)"
    "sw_Now demo_session wd = (5, wd)" for p
    by (simp_all add: store_Load_def demo_session_def map_os_def)
  ultimately show ?thesis using s by (simp add: session_Run_def)
qed


end
