(* ===== verification/Spec2Isabelle.thy ===== *)
theory Spec2Isabelle
  imports Policy ExecutorTrace MemoryService TeamTaskBucket WorkflowController EventLog SessionSafety
begin

text \<open>
  \<^bold>\<open>The agent platform.\<close>  The program runs language-model agents on Kubernetes.  A run of an agent
  is a bounded loop: the model is asked for a decision, a tool is invoked, the observation goes
  back to the model, and a budget ends the loop.  Around the loop are policies that cap budgets and
  restrict tools, disclosure control for the step log, sessions that run one turn after another and
  survive a restart, a memory service with branches and merges behind a gateway, a shared task list
  for teams of agents, workflows that route from run to run, and a broker that leases secrets to
  attested workloads.  This development models these parts as functions and proves
  the properties that make each of them correct.

  \<^bold>\<open>Parts and theories.\<close>  File names are relative to \<open>src/\<close>.

  \<^item> \<open>Prelude\<close>, \<open>Json\<close>, \<open>GoStrings\<close>: shared lemmas on words, lists and maps; the scanner behind
    \<open>json.Valid\<close>; the functions of Go's \<open>strings\<close>, \<open>path\<close> and \<open>utf8\<close> packages the code calls.
  \<^item> \<open>Budget\<close>, \<open>Lifecycle\<close>, \<open>Policy\<close>, \<open>Redact\<close>, \<open>AgentTypes\<close>: \<open>budget.go\<close>, \<open>lifecycle.go\<close>,
    \<open>policy.go\<close>, \<open>redact.go\<close> and \<open>types.go\<close>, \<open>harness.go\<close>, \<open>storage.go\<close> of \<open>pkg/agentmodel/v1\<close>.
    Go's \<open>int32\<close>, \<open>int64\<close> and \<open>time.Duration\<close> are 32-bit and 64-bit words, compared as signed
    numbers, so that additions wrap as they do in the code.
  \<^item> \<open>Executor\<close>, \<open>ExecutorSafety\<close>, \<open>ExecutorTrace\<close>: \<open>pkg/agentruntime/executor.go\<close>.  The stages of
    the loop body are one definition each, in the order of \<open>Executor.Run\<close>; the loop itself is a
    partial function into \<open>option\<close>, where \<open>None\<close> is a run that never returns.  The model, the tools,
    the clock, the verifier, the step sink, the harness and the secret resolver are fields of the
    executor, functions that thread a world.
  \<^item> \<open>Diff3\<close>, \<open>MemoryTypes\<close>, \<open>AgentFS\<close>, \<open>AgentFSMerge\<close>: \<open>diff3.go\<close>, \<open>types.go\<close>, \<open>errors.go\<close> and
    \<open>backend_agentfs.go\<close> of \<open>pkg/memory\<close>.  The state of the backend is its two maps, branches and
    files.  The order of every loop over a Go map is an argument, and the SHA-256 digest a parameter.
  \<^item> \<open>EventLog\<close>: \<open>pkg/memory/backend_eventlog.go\<close>, the second instance of the backend contract.
  \<^item> \<open>MemoryWorker\<close>: \<open>worker.go\<close> and \<open>chunker.go\<close> of \<open>pkg/memory/worker\<close>, the requests of
    \<open>pkg/memory/api/api.go\<close> and the error codes of \<open>transport.go\<close>.  A storage engine is a record of
    functions over a world; cutting a document returns \<open>None\<close> where the code panics.
  \<^item> \<open>MemoryGateway\<close>: \<open>gateway.go\<close> and \<open>auth.go\<close> of \<open>pkg/memory/mcp\<close>, with \<open>pkg/memory/policy\<close>,
    \<open>pkg/memory/quota\<close> and the records of \<open>pkg/memory/audit\<close>.  One definition for each tool and resource;
    the state is the world, the rate windows, the audit log and the requests sent.
  \<^item> \<open>MemoryService\<close>: what the gateway guarantees, alone and with the worker and AgentFS behind it.
  \<^item> \<open>Session\<close>, \<open>SessionSafety\<close>: \<open>pkg/turnmodel\<close> (\<open>session.go\<close>, \<open>memory.go\<close>, \<open>session_worker.go\<close>,
    \<open>session_queue_source.go\<close>) and the in-memory queue of \<open>pkg/sessionqueue\<close>.  The loop of the worker is a
    partial function into \<open>option\<close>; files, clock, executor and review gate are functions over a world.
    The goroutines of a wide session are a step relation over their critical sections.
  \<^item> \<open>TeamTask\<close>, \<open>TeamTaskBucket\<close>: \<open>pkg/teamtask\<close>.  The in-memory store is a map.  The NATS store
    calls a key-value bucket given as functions over a world; \<open>kv_ok\<close> states what the bucket's
    documentation promises while other members write to it, \<open>kv_quiet\<close> what it does for a single
    client.
  \<^item> \<open>Workflow\<close>, \<open>WorkflowController\<close>: \<open>agentworkflow.go\<close> and \<open>workflow_predicate.go\<close> of
    \<open>pkg/agentmodel/v1\<close>, and \<open>agentworkflow_controller.go\<close> and \<open>result_emit.go\<close> of
    \<open>operator/internal/controllers/agentmodel\<close>.  The Kubernetes client is a record of functions
    over a world; \<open>float64\<close> and the JSON decoder are parameters.
  \<^item> \<open>Broker\<close>: \<open>server.go\<close>, \<open>types.go\<close>, \<open>wire.go\<close>, \<open>credpolicy.go\<close>, \<open>interactive_caller.go\<close> and
    \<open>backend_static.go\<close> of \<open>pkg/secrets\<close>.

  \<^bold>\<open>Interfaces.\<close>  The locale \<open>memory_backend\<close> states the contract of a memory backend: a write is
  read back through later operations on other documents.  It is interpreted on the AgentFS backend
  (\<open>afs\<close>) and on the event log (\<open>evl\<close>).  The locale \<open>task_history\<close> states what one event does to a
  task list, and proves that a task has a single winner, that only the winner finishes it and that
  completed tasks stay; it is interpreted on the in-memory store (\<open>memlist\<close>) and on the bucket
  (\<open>kvlist\<close>).  The locale \<open>gateway_env\<close> states what the environment of a memory gateway may do to the
  world and follows every tool through its guards; it is interpreted for every gateway (\<open>any_env\<close>), and its
  lemmas are applied to gateways in front of AgentFS.

  \<^bold>\<open>What the theorems show.\<close>

  \<^item> Budgets, phases, policies and redaction: an admitted step stays within the budget on each axis;
    terminal phases are final and only a running run completes; composing policies does not depend
    on their order and caps exactly what each of them caps; no string that matches a pattern
    survives redaction.
  \<^item> Executor: a run returns for every step cap below the largest \<open>int32\<close>, and there is a run that
    does not at that cap; usage stays within the budget; only allowed tools are invoked, with valid
    arguments, at most as often as the cap says; the step log has no gaps and the sink sees its
    redacted form.  The exceptions the code makes are proved too: a cap of one step never
    completes, and a verifier's tokens can exceed the token cap.
  \<^item> Memory: the longest common subsequence table is right; a line merge is symmetric and neutral for
    unchanged sides; a merge of branches implements the three-way rule path by path for any order of
    its loops, and touches nothing else; tenants cannot change what other tenants read from AgentFS.
    In the event log a retrieval agrees with lookups, but a document id is shared by all tenants.
  \<^item> Memory service: a tool call forwards at most one request, for the authenticated caller, with a
    grant and within every limit, and leaves one audit record; tenants stay isolated from the token down to the
    files; the chunks of a document cover it.  Two tools can never succeed, and an overlap adds every short
    suffix of a document as a chunk.
  \<^item> Sessions: the bounded state is the fold of the full history of turns, serial or concurrent; the
    checkpoint on disk can always be resumed.  Turns are acknowledged before they are checkpointed.
  \<^item> Team tasks: Claim and Complete on the bucket are linearizable under interference, a task has one
    winner, and without interference the bucket behaves as the in-memory store.
  \<^item> Workflows: admission accepts exactly the well-formed acyclic graphs; routing cannot read what a
    run cost; in every history a child run exists only where satisfied edges lead.  A completed
    workflow can still fail.
  \<^item> Broker: every lease is for the attested caller, allowed at that moment or minted from a token
    bound to it, and ends within fifteen minutes; the TTL a minted lease carries is not so bounded.

  \<^bold>\<open>Bounds and fuel.\<close>  \<open>checkAcyclic\<close> searches with fuel twice the number of edges; an edge adds at
  most two vertices, each visited once, and \<open>ValidateAgentWorkflow_exact\<close> includes that the search
  returns.  The compare-and-set loops have the five attempts of the source.  No other function has
  fuel.

  \<^bold>\<open>Not modelled.\<close>  Code that is only I/O or wiring (\<open>cmd\<close>, \<open>infra\<close>, the HTTP and gRPC servers, tool
  invokers, harness drivers, telemetry), kernel interfaces (\<open>bpf\<close>, \<open>pkg/ebpf\<close>, \<open>pkg/sandbox\<close>,
  \<open>pkg/agentnet\<close>), cryptography and TLS from libraries (\<open>pkg/identity\<close>, \<open>pkg/transport\<close>,
  \<open>pkg/trat\<close>), memory backends that translate to queries of external databases, generated code
  (\<open>zz_generated.deepcopy.go\<close>, \<open>retrieval.pb.go\<close>), the builders of Kubernetes objects and the
  controllers other than the workflow one, and the field checks of \<open>validation.go\<close>.  Of the modelled
  parts: the trace spans of the executor, \<open>Snapshot\<close> of the memory backends, the connection to NATS,
  the sockets and connection bookkeeping of the broker, the JSON-RPC server in front of the gateway and the
  encoding of its requests to workers, the in-memory vector engine with its \<open>float32\<close> similarity, embedders
  and summarizers, and the wait for a result in the session queue.  Mutexes appear as the atomicity of one
  operation.
\<close>

end
